(* ===== verification/Prelude.thy ===== *)
theory Prelude
  imports Main "HOL-Library.Word"
begin

text \<open>
  The prelude of the gateway development: Go's 64-bit integers on \<open>int\<close> with the wrap-around
  written out, durations, association lists with distinct keys (the finite maps whose order of
  iteration the code never relies on), and the collections of rewrite rules that the component
  theories extend and use.

  \<open>writer_simps\<close> holds the laws of the response writer, \<open>ctx_simps\<close> those of the request
  context, \<open>header_simps\<close> those of HTTP headers, \<open>mw_simps\<close> the unfolding rules of the
  middlewares.
\<close>

named_theorems writer_simps "laws of the response writer"
named_theorems ctx_simps "laws of the request context"
named_theorems header_simps "laws of HTTP headers"
named_theorems mw_simps "unfolding rules of the middlewares"

section \<open>Go integers\<close>

text \<open>
  \<open>int\<close>, \<open>int64\<close> and \<open>time.Duration\<close> are 64-bit two's complement on the platforms the
  gateway is built for. \<open>wrap64\<close> is the value an int64 operation stores when its exact result
  is \<open>x\<close>.
\<close>

definition int64_min :: int where "int64_min = - (2 ^ 63)"
definition int64_max :: int where "int64_max = 2 ^ 63 - 1"

definition wrap64 :: "int \<Rightarrow> int" where
  "wrap64 x = (x + 2 ^ 63) mod 2 ^ 64 - 2 ^ 63"

definition in_int64 :: "int \<Rightarrow> bool" where
  "in_int64 x \<longleftrightarrow> int64_min \<le> x \<and> x \<le> int64_max"

lemma wrap64_in_int64 [simp]: "in_int64 (wrap64 x)"
proof -
  have "0 \<le> (x + 2 ^ 63) mod 2 ^ 64" and "(x + 2 ^ 63) mod 2 ^ 64 < 2 ^ 64"
    by simp_all
  then show ?thesis
    by (simp add: in_int64_def wrap64_def int64_min_def int64_max_def)
qed

lemma wrap64_id: "in_int64 x \<Longrightarrow> wrap64 x = x"
  by (simp add: in_int64_def wrap64_def int64_min_def int64_max_def)

lemma wrap64_idem [simp]: "wrap64 (wrap64 x) = wrap64 x"
  by (rule wrap64_id) simp

lemma wrap64_small: "- 9223372036854775808 \<le> x \<Longrightarrow> x \<le> 9223372036854775807 \<Longrightarrow> wrap64 x = x"
  by (rule wrap64_id) (simp add: in_int64_def int64_min_def int64_max_def)

lemma wrap64_eq_iff: "wrap64 x = x \<longleftrightarrow> in_int64 x"
  by (metis wrap64_id wrap64_in_int64)

text \<open>Durations are nanosecond counts; \<open>time.Duration(n) * time.Second\<close> wraps.\<close>

abbreviation second_ns :: int where "second_ns \<equiv> 1000000000"
abbreviation millisecond_ns :: int where "millisecond_ns \<equiv> 1000000"

definition dur_seconds :: "int \<Rightarrow> int" where
  "dur_seconds n = wrap64 (n * second_ns)"

definition dur_millis :: "int \<Rightarrow> int" where
  "dur_millis n = wrap64 (n * millisecond_ns)"

lemma dur_seconds_exact:
  "\<bar>n\<bar> \<le> 9223372036 \<Longrightarrow> dur_seconds n = n * second_ns"
  unfolding dur_seconds_def by (rule wrap64_small) auto

lemma dur_millis_exact:
  "\<bar>n\<bar> \<le> 9223372036854 \<Longrightarrow> dur_millis n = n * millisecond_ns"
  unfolding dur_millis_def by (rule wrap64_small) auto

section \<open>Finite maps as association lists\<close>

text \<open>
  A Go map that the code iterates over, or that sits inside a YAML or JSON value, is an
  association list; \<open>map_of\<close> looks a key up, \<open>al_put\<close> stores, \<open>al_del\<close> deletes.
  \<open>al_put\<close> keeps the position of a key that is present.
\<close>

fun al_put :: "'k \<Rightarrow> 'v \<Rightarrow> ('k \<times> 'v) list \<Rightarrow> ('k \<times> 'v) list" where
  "al_put k v [] = [(k, v)]"
| "al_put k v ((a, b) # ps) = (if a = k then (k, v) # ps else (a, b) # al_put k v ps)"

definition al_del :: "'k \<Rightarrow> ('k \<times> 'v) list \<Rightarrow> ('k \<times> 'v) list" where
  "al_del k ps = filter (\<lambda>(a, b). a \<noteq> k) ps"

definition al_distinct :: "('k \<times> 'v) list \<Rightarrow> bool" where
  "al_distinct ps \<longleftrightarrow> distinct (map fst ps)"

lemma map_of_al_put [simp]: "map_of (al_put k v ps) = (map_of ps)(k \<mapsto> v)"
  by (induction ps) auto

lemma map_of_al_del [simp]: "map_of (al_del k ps) = (map_of ps)(k := None)"
  by (induction ps) (auto simp: al_del_def)

lemma keys_al_put [simp]: "fst ` set (al_put k v ps) = insert k (fst ` set ps)"
  by (simp flip: dom_map_of_conv_image_fst)

lemma keys_al_del [simp]: "fst ` set (al_del k ps) = fst ` set ps - {k}"
  by (simp flip: dom_map_of_conv_image_fst)

lemma al_distinct_Nil [simp]: "al_distinct []"
  by (simp add: al_distinct_def)

lemma al_distinct_Cons [simp]:
  "al_distinct ((k, v) # ps) \<longleftrightarrow> k \<notin> fst ` set ps \<and> al_distinct ps"
  by (simp add: al_distinct_def)

lemma al_distinct_put [simp]: "al_distinct ps \<Longrightarrow> al_distinct (al_put k v ps)"
  by (induction ps) auto

lemma al_distinct_del [simp]: "al_distinct ps \<Longrightarrow> al_distinct (al_del k ps)"
  by (induction ps) (auto simp: al_del_def)

lemma al_del_notin: "k \<notin> fst ` set ps \<Longrightarrow> al_del k ps = ps"
  by (induction ps) (auto simp: al_del_def)

lemma length_al_del_le: "length (al_del k ps) \<le> length ps"
  by (simp add: al_del_def)

lemma al_del_Nil [simp]: "al_del k [] = []"
  by (simp add: al_del_def)

lemma al_del_Cons [simp]:
  "al_del k ((a, b) # ps) = (if a = k then al_del k ps else (a, b) # al_del k ps)"
  by (simp add: al_del_def)

lemma map_of_Some_length_al_del:
  "al_distinct ps \<Longrightarrow> map_of ps k = Some v \<Longrightarrow> Suc (length (al_del k ps)) = length ps"
proof (induction ps)
  case Nil
  then show ?case by simp
next
  case (Cons p ps)
  obtain a b where p: "p = (a, b)" by (cases p)
  show ?case
  proof (cases "a = k")
    case True
    with Cons.prems p have "k \<notin> fst ` set ps" by simp
    then show ?thesis using True p by (simp add: al_del_notin)
  next
    case False
    then show ?thesis using Cons p by simp
  qed
qed

lemma map_of_butlast_other:
  "fst (last ps) \<noteq> k \<Longrightarrow> map_of (butlast ps) k = map_of ps k"
  by (induction ps) auto

lemma map_of_butlast_Some:
  "map_of (butlast ps) k = Some v \<Longrightarrow> map_of ps k = Some v"
  by (induction ps) (auto split: if_splits)

section \<open>Results\<close>

text \<open>
  A Go function that returns \<open>(T, error)\<close> is a sum: \<open>Inl\<close> the error, \<open>Inr\<close> the value.
  \<open>and_then\<close> is the \<open>if err != nil { return err }\<close> chain.
\<close>

definition and_then :: "'e + 'a \<Rightarrow> ('a \<Rightarrow> 'e + 'b) \<Rightarrow> 'e + 'b" where
  "and_then m f = (case m of Inl e \<Rightarrow> Inl e | Inr a \<Rightarrow> f a)"

lemma and_then_simps [simp]:
  "and_then (Inl e) f = Inl e"
  "and_then (Inr a) f = f a"
  by (simp_all add: and_then_def)

lemma and_then_eq_Inr:
  "and_then m f = Inr b \<longleftrightarrow> (\<exists>a. m = Inr a \<and> f a = Inr b)"
  by (cases m) auto

lemma and_then_eq_Inl:
  "and_then m f = Inl e \<longleftrightarrow> m = Inl e \<or> (\<exists>a. m = Inr a \<and> f a = Inl e)"
  by (cases m) auto

definition require :: "bool \<Rightarrow> 'e \<Rightarrow> 'e + unit" where
  "require b e = (if b then Inr () else Inl e)"

lemma require_simps [simp]:
  "require True e = Inr ()" "require False e = Inl e"
  by (simp_all add: require_def)

lemma require_eq_Inr [simp]: "require b e = Inr u \<longleftrightarrow> b"
  by (simp add: require_def)

lemma require_eq_Inl [simp]: "require b e = Inl e' \<longleftrightarrow> \<not> b \<and> e' = e"
  by (auto simp: require_def)

end
