(* ===== verification/PluginConfig.thy ===== *)
theory PluginConfig
  imports GoStrings
begin

text \<open>
  \<open>plugin/config.go\<close>: the configuration values a plugin reads. \<open>any\<close> is Go's
  \<open>any\<close> as the YAML and JSON decoders fill it, \<open>map_config\<close> the \<open>MapConfig\<close> struct,
  and the accessors are its methods. A missing key and a value of the wrong type both give the
  zero value; the warning the code logs in the second case goes to \<open>slog\<close> and is not modelled.
  A nil slice and an empty one are both \<open>[]\<close>: no caller tells them apart.
\<close>

section \<open>Dynamic values\<close>

text \<open>
  A float64 is \<open>Fin m e\<close>, the number \<open>m * 2 ^ e\<close>, or an infinity or a NaN. \<open>int(f)\<close>
  truncates towards zero; outside int64 Go leaves the result to the machine, and the value here is
  the amd64 one, the smallest int64.
\<close>

datatype go_float = Fin int int | FInf bool | FNaN

definition trunc_pow2 :: "int \<Rightarrow> int \<Rightarrow> int" where
  "trunc_pow2 m e = (if 0 \<le> e then m * 2 ^ nat e else sgn m * (\<bar>m\<bar> div 2 ^ nat (- e)))"

fun int_of_float :: "go_float \<Rightarrow> int" where
  "int_of_float (Fin m e) = (if in_int64 (trunc_pow2 m e) then trunc_pow2 m e else int64_min)"
| "int_of_float (FInf b) = int64_min"
| "int_of_float FNaN = int64_min"

datatype any =
    ANil
  | AStr string
  | ABool bool
  | AInt int
  | AInt64 int
  | AFloat go_float
  | AList "any list"
  | AStrs "string list"
  | AMap "(string \<times> any) list"

type_synonym config_map = "(string \<times> any) list"

text \<open>Type assertions \<open>v.(T)\<close> with the comma-ok form dropped: the zero value when they fail.\<close>

fun str_of :: "any \<Rightarrow> string option" where
  "str_of (AStr s) = Some s"
| "str_of _ = None"

fun bool_of :: "any \<Rightarrow> bool option" where
  "bool_of (ABool b) = Some b"
| "bool_of _ = None"

fun map_of_any :: "any \<Rightarrow> config_map option" where
  "map_of_any (AMap m) = Some m"
| "map_of_any _ = None"

fun int_of_any :: "any \<Rightarrow> int option" where
  "int_of_any (AInt n) = Some n"
| "int_of_any (AInt64 n) = Some n"
| "int_of_any (AFloat f) = Some (int_of_float f)"
| "int_of_any _ = None"

text \<open>\<open>m[key].(T)\<close> on a map that may lack the key.\<close>

definition get_str :: "config_map \<Rightarrow> string \<Rightarrow> string" where
  "get_str m k = (case map_of m k of Some (AStr s) \<Rightarrow> s | _ \<Rightarrow> '''')"

text \<open>The Go integers inside a decoded value are int64 values.\<close>

fun any_wf :: "any \<Rightarrow> bool" where
  "any_wf (AInt n) = in_int64 n"
| "any_wf (AInt64 n) = in_int64 n"
| "any_wf (AList vs) = list_all any_wf vs"
| "any_wf (AMap m) = (al_distinct m \<and> list_all (\<lambda>(k, v). any_wf v) m)"
| "any_wf _ = True"

lemma int_of_float_in_int64 [simp]: "in_int64 (int_of_float f)"
  by (cases f) (auto simp: in_int64_def int64_min_def int64_max_def)

lemma int_of_any_in_int64: "any_wf v \<Longrightarrow> int_of_any v = Some n \<Longrightarrow> in_int64 n"
  by (cases v) auto

lemma int_of_float_whole: "in_int64 n \<Longrightarrow> int_of_float (Fin n 0) = n"
  by (simp add: trunc_pow2_def)

section \<open>MapConfig\<close>

record map_config =
  cfg_data :: config_map

text \<open>\<open>NewMapConfig\<close>: a nil map (\<open>None\<close>) is an empty configuration.\<close>

definition NewMapConfig :: "config_map option \<Rightarrow> map_config" where
  "NewMapConfig m = \<lparr>cfg_data = (case m of None \<Rightarrow> [] | Some d \<Rightarrow> d)\<rparr>"

definition GetString :: "map_config \<Rightarrow> string \<Rightarrow> string" where
  "GetString c key =
     (case map_of (cfg_data c) key of
        None \<Rightarrow> ''''
      | Some v \<Rightarrow> (case str_of v of Some s \<Rightarrow> s | None \<Rightarrow> ''''))"

definition GetBool :: "map_config \<Rightarrow> string \<Rightarrow> bool" where
  "GetBool c key =
     (case map_of (cfg_data c) key of
        None \<Rightarrow> False
      | Some v \<Rightarrow> (case bool_of v of Some b \<Rightarrow> b | None \<Rightarrow> False))"

text \<open>The loop over a \<open>[]any\<close>: the first element that is not a string ends it with nil.\<close>

fun string_elems :: "string list \<Rightarrow> any list \<Rightarrow> string list option" where
  "string_elems out [] = Some out"
| "string_elems out (v # vs) =
     (case str_of v of None \<Rightarrow> None | Some s \<Rightarrow> string_elems (out @ [s]) vs)"

definition GetStringSlice :: "map_config \<Rightarrow> string \<Rightarrow> string list" where
  "GetStringSlice c key =
     (case map_of (cfg_data c) key of
        None \<Rightarrow> []
      | Some v \<Rightarrow>
          (case v of
             AStrs typed \<Rightarrow> typed
           | AList typed \<Rightarrow> (case string_elems [] typed of None \<Rightarrow> [] | Some out \<Rightarrow> out)
           | _ \<Rightarrow> []))"

definition GetInt :: "map_config \<Rightarrow> string \<Rightarrow> int" where
  "GetInt c key =
     (case map_of (cfg_data c) key of
        None \<Rightarrow> 0
      | Some v \<Rightarrow> (case int_of_any v of Some n \<Rightarrow> n | None \<Rightarrow> 0))"

text \<open>\<open>Raw\<close> copies the map key by key.\<close>

definition Raw :: "map_config \<Rightarrow> config_map" where
  "Raw c = fold (\<lambda>(k, v) out. al_put k v out) (cfg_data c) []"

text \<open>The defaulting idiom of the plugins' \<open>Init\<close>: \<open>if v <= 0 { v = d }\<close> and
  \<open>if s == "" { s = d }\<close>.\<close>

definition int_or :: "int \<Rightarrow> int \<Rightarrow> int" where
  "int_or v d = (if v \<le> 0 then d else v)"

definition str_or :: "string \<Rightarrow> string \<Rightarrow> string" where
  "str_or s d = (if s = [] then d else s)"

lemma int_or_pos [simp]: "0 < d \<Longrightarrow> 0 < int_or v d"
  by (simp add: int_or_def)

lemma str_or_nonempty [simp]: "d \<noteq> [] \<Longrightarrow> str_or s d \<noteq> []"
  by (simp add: str_or_def)

section \<open>Laws\<close>

lemma string_elems_eq:
  "string_elems out vs =
     (if list_all (\<lambda>v. str_of v \<noteq> None) vs then Some (out @ map (the \<circ> str_of) vs) else None)"
  by (induction vs arbitrary: out) (auto split: option.splits)

lemma al_put_notin: "k \<notin> fst ` set ps \<Longrightarrow> al_put k v ps = ps @ [(k, v)]"
  by (induction ps) auto

lemma fold_al_put_distinct:
  "al_distinct (out @ ps) \<Longrightarrow> fold (\<lambda>(k, v) out. al_put k v out) ps out = out @ ps"
proof (induction ps arbitrary: out)
  case Nil
  then show ?case by simp
next
  case (Cons p ps)
  obtain k v where p: "p = (k, v)" by (cases p)
  from Cons.prems p have "k \<notin> fst ` set out"
    by (auto simp: al_distinct_def)
  then have "al_put k v out = out @ [(k, v)]" by (rule al_put_notin)
  moreover have "al_distinct ((out @ [(k, v)]) @ ps)"
    using Cons.prems p by simp
  ultimately show ?case
    using Cons.IH [of "out @ [(k, v)]"] p by simp
qed

lemma Raw_id: "al_distinct (cfg_data c) \<Longrightarrow> Raw c = cfg_data c"
  unfolding Raw_def using fold_al_put_distinct [of "[]" "cfg_data c"] by simp

lemma cfg_data_NewMapConfig [simp]: "cfg_data (NewMapConfig (Some d)) = d"
  by (simp add: NewMapConfig_def)

lemma GetBool_iff: "GetBool c key \<longleftrightarrow> map_of (cfg_data c) key = Some (ABool True)"
  by (auto simp: GetBool_def split: option.splits elim: bool_of.elims)

lemma GetString_absent [simp]: "map_of (cfg_data c) key = None \<Longrightarrow> GetString c key = ''''"
  by (simp add: GetString_def)

lemma GetInt_absent [simp]: "map_of (cfg_data c) key = None \<Longrightarrow> GetInt c key = 0"
  by (simp add: GetInt_def)

lemma any_wf_lookup:
  "list_all (\<lambda>(k, v). any_wf v) m \<Longrightarrow> map_of m key = Some v \<Longrightarrow> any_wf v"
  by (induction m) (auto split: if_splits)

text \<open>A getter never fails and never leaves int64, whatever the YAML held.\<close>

lemma GetInt_in_int64:
  assumes "list_all (\<lambda>(k, v). any_wf v) (cfg_data c)"
  shows "in_int64 (GetInt c key)"
proof (cases "map_of (cfg_data c) key")
  case None
  then show ?thesis by (simp add: in_int64_def int64_min_def int64_max_def)
next
  case (Some v)
  with assms have "any_wf v" by (rule any_wf_lookup)
  with Some show ?thesis
    by (auto simp: GetInt_def in_int64_def int64_min_def int64_max_def
        dest: int_of_any_in_int64 split: option.splits)
qed

end
