(* ===== verification/ReqCtx.thy ===== *)
theory ReqCtx
  imports PluginConfig
begin

unbundle bit_operations_syntax

text \<open>
  \<open>internal/reqctx\<close>: the typed context values of a request, and UUIDs. A Go context is a
  chain of \<open>WithValue\<close> nodes, newest first, searched from the newest; here it is the
  association list of those nodes, with the deadline that \<open>context.WithTimeout\<close> set.
  \<open>claimsKey\<close> is the key of package \<open>auth\<close>, which has a type of its own and cannot
  collide with the others.
\<close>

section \<open>Context\<close>

datatype ctx_key =
    correlationIDKey | requestIDKey | tenantIDKey | actorSubjectKey | actorRolesKey | jwtClaimsKey
  | claimsKey

text \<open>\<open>auth.Claims\<close>.\<close>

record auth_claims =
  Subject :: string
  Roles :: "string list"
  RawClaims :: config_map

datatype ctx_val = CtxStr string | CtxStrs "string list" | CtxMap config_map | CtxAuth auth_claims

record ctx =
  ctx_vals :: "(ctx_key \<times> ctx_val) list"
  ctx_deadline :: "int option"

definition Background :: ctx where
  "Background = \<lparr>ctx_vals = [], ctx_deadline = None\<rparr>"

definition WithValue :: "ctx \<Rightarrow> ctx_key \<Rightarrow> ctx_val \<Rightarrow> ctx" where
  "WithValue c k v = c\<lparr>ctx_vals := (k, v) # ctx_vals c\<rparr>"

definition CtxValue :: "ctx \<Rightarrow> ctx_key \<Rightarrow> ctx_val option" where
  "CtxValue c k = map_of (ctx_vals c) k"

fun ctx_str :: "ctx_val option \<Rightarrow> string" where
  "ctx_str (Some (CtxStr s)) = s"
| "ctx_str _ = ''''"

fun ctx_strs :: "ctx_val option \<Rightarrow> string list" where
  "ctx_strs (Some (CtxStrs ss)) = ss"
| "ctx_strs _ = []"

fun ctx_map :: "ctx_val option \<Rightarrow> config_map option" where
  "ctx_map (Some (CtxMap m)) = Some m"
| "ctx_map _ = None"

definition WithCorrelationID :: "ctx \<Rightarrow> string \<Rightarrow> ctx" where
  "WithCorrelationID c v = WithValue c correlationIDKey (CtxStr v)"

definition CorrelationID :: "ctx \<Rightarrow> string" where
  "CorrelationID c = ctx_str (CtxValue c correlationIDKey)"

definition WithRequestID :: "ctx \<Rightarrow> string \<Rightarrow> ctx" where
  "WithRequestID c v = WithValue c requestIDKey (CtxStr v)"

definition RequestID :: "ctx \<Rightarrow> string" where
  "RequestID c = ctx_str (CtxValue c requestIDKey)"

definition WithTenantID :: "ctx \<Rightarrow> string \<Rightarrow> ctx" where
  "WithTenantID c v = WithValue c tenantIDKey (CtxStr v)"

definition TenantID :: "ctx \<Rightarrow> string" where
  "TenantID c = ctx_str (CtxValue c tenantIDKey)"

definition WithActorSubject :: "ctx \<Rightarrow> string \<Rightarrow> ctx" where
  "WithActorSubject c v = WithValue c actorSubjectKey (CtxStr v)"

definition ActorSubject :: "ctx \<Rightarrow> string" where
  "ActorSubject c = ctx_str (CtxValue c actorSubjectKey)"

definition WithActorRoles :: "ctx \<Rightarrow> string list \<Rightarrow> ctx" where
  "WithActorRoles c v = WithValue c actorRolesKey (CtxStrs v)"

definition ActorRoles :: "ctx \<Rightarrow> string list" where
  "ActorRoles c = ctx_strs (CtxValue c actorRolesKey)"

definition WithJWTClaims :: "ctx \<Rightarrow> config_map \<Rightarrow> ctx" where
  "WithJWTClaims c v = WithValue c jwtClaimsKey (CtxMap v)"

text \<open>\<open>None\<close> is the nil map: the token validator has not run.\<close>

definition JWTClaims :: "ctx \<Rightarrow> config_map option" where
  "JWTClaims c = ctx_map (CtxValue c jwtClaimsKey)"

definition WithAuthClaims :: "ctx \<Rightarrow> auth_claims \<Rightarrow> ctx" where
  "WithAuthClaims c v = WithValue c claimsKey (CtxAuth v)"

definition AuthClaims :: "ctx \<Rightarrow> auth_claims option" where
  "AuthClaims c = (case CtxValue c claimsKey of Some (CtxAuth a) \<Rightarrow> Some a | _ \<Rightarrow> None)"

section \<open>The contract of a context field\<close>

text \<open>
  What every pair of accessors promises: reading gives the value last stored under its own key, and
  a store under another key leaves it alone. \<open>wrap\<close> is the node a store adds to the chain,
  \<open>got\<close> what a read returns for a stored value.
\<close>

locale ctx_field =
  fixes store :: "ctx \<Rightarrow> 'v \<Rightarrow> ctx"
    and read :: "ctx \<Rightarrow> 'r"
    and key :: ctx_key
    and wrap :: "'v \<Rightarrow> ctx_val"
    and got :: "'v \<Rightarrow> 'r"
  assumes store_WithValue: "store c v = WithValue c key (wrap v)"
    and read_store: "read (store c v) = got v"
    and read_other: "k \<noteq> key \<Longrightarrow> read (WithValue c k x) = read c"
begin

lemma last_write_wins: "read (store (store c u) v) = got v"
  by (rule read_store)

lemma read_after_others:
  "key \<notin> fst ` set ws \<Longrightarrow> read (fold (\<lambda>(k, x) c. WithValue c k x) ws (store c v)) = got v"
proof (induction ws rule: rev_induct)
  case Nil
  show ?case by (simp add: read_store)
next
  case (snoc w ws)
  obtain k x where "w = (k, x)" by (cases w)
  with snoc show ?case using read_other [of k] by auto
qed

lemma store_keeps_deadline: "ctx_deadline (store c v) = ctx_deadline c"
  by (simp add: store_WithValue WithValue_def)

end

interpretation correlation_field: ctx_field WithCorrelationID CorrelationID correlationIDKey CtxStr "\<lambda>v. v"
  by unfold_locales (auto simp: WithCorrelationID_def CorrelationID_def WithValue_def CtxValue_def)

interpretation request_field: ctx_field WithRequestID RequestID requestIDKey CtxStr "\<lambda>v. v"
  by unfold_locales (auto simp: WithRequestID_def RequestID_def WithValue_def CtxValue_def)

interpretation tenant_field: ctx_field WithTenantID TenantID tenantIDKey CtxStr "\<lambda>v. v"
  by unfold_locales (auto simp: WithTenantID_def TenantID_def WithValue_def CtxValue_def)

interpretation subject_field: ctx_field WithActorSubject ActorSubject actorSubjectKey CtxStr "\<lambda>v. v"
  by unfold_locales (auto simp: WithActorSubject_def ActorSubject_def WithValue_def CtxValue_def)

interpretation roles_field: ctx_field WithActorRoles ActorRoles actorRolesKey CtxStrs "\<lambda>v. v"
  by unfold_locales (auto simp: WithActorRoles_def ActorRoles_def WithValue_def CtxValue_def)

interpretation jwt_field: ctx_field WithJWTClaims JWTClaims jwtClaimsKey CtxMap Some
  by unfold_locales (auto simp: WithJWTClaims_def JWTClaims_def WithValue_def CtxValue_def)

interpretation auth_field: ctx_field WithAuthClaims AuthClaims claimsKey CtxAuth Some
  by unfold_locales (auto simp: WithAuthClaims_def AuthClaims_def WithValue_def CtxValue_def)

lemmas ctx_read_defs = CorrelationID_def RequestID_def TenantID_def ActorSubject_def
  ActorRoles_def JWTClaims_def AuthClaims_def

text \<open>Every read of every write, from the interpretations.\<close>

lemmas ctx_stores = correlation_field.store_WithValue request_field.store_WithValue
  tenant_field.store_WithValue subject_field.store_WithValue roles_field.store_WithValue
  jwt_field.store_WithValue auth_field.store_WithValue

lemmas ctx_reads [ctx_simps] = correlation_field.read_store request_field.read_store
  tenant_field.read_store subject_field.read_store roles_field.read_store
  jwt_field.read_store auth_field.read_store

lemmas ctx_reads_other = correlation_field.read_other request_field.read_other
  tenant_field.read_other subject_field.read_other roles_field.read_other
  jwt_field.read_other auth_field.read_other

lemma ctx_ids_frame [ctx_simps]:
  "CorrelationID (WithRequestID c v) = CorrelationID c"
  "CorrelationID (WithTenantID c v) = CorrelationID c" "CorrelationID (WithActorSubject c v) = CorrelationID c"
  "CorrelationID (WithActorRoles c rs) = CorrelationID c" "CorrelationID (WithJWTClaims c m) = CorrelationID c"
  "RequestID (WithCorrelationID c v) = RequestID c"
  "RequestID (WithTenantID c v) = RequestID c" "RequestID (WithActorSubject c v) = RequestID c"
  "RequestID (WithActorRoles c rs) = RequestID c" "RequestID (WithJWTClaims c m) = RequestID c"
  "TenantID (WithCorrelationID c v) = TenantID c" "TenantID (WithRequestID c v) = TenantID c"
  "TenantID (WithActorSubject c v) = TenantID c"
  "TenantID (WithActorRoles c rs) = TenantID c" "TenantID (WithJWTClaims c m) = TenantID c"
  by (simp_all add: ctx_stores ctx_reads_other)

lemma ctx_actor_frame [ctx_simps]:
  "ActorSubject (WithCorrelationID c v) = ActorSubject c" "ActorSubject (WithRequestID c v) = ActorSubject c"
  "ActorSubject (WithTenantID c v) = ActorSubject c"
  "ActorSubject (WithActorRoles c rs) = ActorSubject c" "ActorSubject (WithJWTClaims c m) = ActorSubject c"
  "ActorRoles (WithCorrelationID c v) = ActorRoles c" "ActorRoles (WithRequestID c v) = ActorRoles c"
  "ActorRoles (WithTenantID c v) = ActorRoles c" "ActorRoles (WithActorSubject c v) = ActorRoles c"
  "ActorRoles (WithJWTClaims c m) = ActorRoles c"
  "JWTClaims (WithCorrelationID c v) = JWTClaims c" "JWTClaims (WithRequestID c v) = JWTClaims c"
  "JWTClaims (WithTenantID c v) = JWTClaims c" "JWTClaims (WithActorSubject c v) = JWTClaims c"
  "JWTClaims (WithActorRoles c rs) = JWTClaims c"
  by (simp_all add: ctx_stores ctx_reads_other)

lemma ctx_background [ctx_simps]:
  "CorrelationID Background = ''''" "RequestID Background = ''''" "TenantID Background = ''''"
  "ActorSubject Background = ''''" "ActorRoles Background = []" "JWTClaims Background = None"
  "AuthClaims Background = None"
  by (simp_all add: ctx_read_defs CtxValue_def Background_def)

section \<open>Deadlines\<close>

text \<open>
  \<open>context.WithTimeout(c, d)\<close> at time \<open>now\<close>: the deadline is the earlier of the
  parent's and \<open>now + d\<close>. \<open>ctx.Err()\<close> is a function of the time and of whether the
  client has gone (the server cancels the request's context then).
\<close>

datatype ctx_err = Canceled | DeadlineExceeded

definition WithTimeout :: "ctx \<Rightarrow> int \<Rightarrow> int \<Rightarrow> ctx" where
  "WithTimeout c now d =
     c\<lparr>ctx_deadline := Some (case ctx_deadline c of None \<Rightarrow> now + d | Some t \<Rightarrow> min t (now + d))\<rparr>"

definition CtxErr :: "ctx \<Rightarrow> int \<Rightarrow> bool \<Rightarrow> ctx_err option" where
  "CtxErr c now gone =
     (if gone then Some Canceled
      else case ctx_deadline c of
             None \<Rightarrow> None
           | Some t \<Rightarrow> if t \<le> now then Some DeadlineExceeded else None)"

lemma WithTimeout_keeps_values [ctx_simps]:
  "CtxValue (WithTimeout c now d) k = CtxValue c k"
  "CorrelationID (WithTimeout c now d) = CorrelationID c"
  "RequestID (WithTimeout c now d) = RequestID c"
  "TenantID (WithTimeout c now d) = TenantID c"
  "ActorSubject (WithTimeout c now d) = ActorSubject c"
  "ActorRoles (WithTimeout c now d) = ActorRoles c"
  "JWTClaims (WithTimeout c now d) = JWTClaims c"
  by (simp_all add: WithTimeout_def CtxValue_def ctx_read_defs)

section \<open>UUIDs\<close>

text \<open>
  \<open>NewUUID\<close> on the 16 bytes that \<open>rand.Read\<close> stored: version and variant bits are
  forced, then the bytes are printed in hexadecimal in groups of 4, 2, 2, 2 and 6.
\<close>

definition hex_digit :: "nat \<Rightarrow> char" where
  "hex_digit n = (if n < 10 then char_of (48 + n) else char_of (87 + n))"

definition hex_byte :: "8 word \<Rightarrow> string" where
  "hex_byte b = [hex_digit (unat b div 16), hex_digit (unat b mod 16)]"

definition hex_bytes :: "8 word list \<Rightarrow> string" where
  "hex_bytes bs = concat (map hex_byte bs)"

definition NewUUID :: "8 word list \<Rightarrow> string" where
  "NewUUID rnd =
     (let b = rnd[6 := (rnd ! 6 AND 0x0f) OR 0x40];
          b = b[8 := (b ! 8 AND 0x3f) OR 0x80]
      in hex_bytes (take 4 b) @ ''-'' @ hex_bytes (take 2 (drop 4 b)) @ ''-'' @
         hex_bytes (take 2 (drop 6 b)) @ ''-'' @ hex_bytes (take 2 (drop 8 b)) @ ''-'' @
         hex_bytes (take 6 (drop 10 b)))"

end
