(* ===== verification/Http.thy ===== *)
theory Http
  imports ReqCtx
begin

text \<open>
  The part of \<open>net/http\<close> that the gateway's handlers are written against: headers with
  canonical keys, the request, the response writer and its status line, \<open>http.Handler\<close>, and
  the \<open>responseRecorder\<close> of \<open>internal/proxy\<close> that wraps a writer.

  A handler is a function from a request, a writer and the state of the gateway to the new writer
  and state. A middleware wraps a handler. The gateway's plugins act before the next handler only,
  so each is a decision (\<open>Respond\<close> without calling next, or \<open>Next\<close> with the
  request and writer handed on), and \<open>middleware_of\<close> turns the decision into the middleware.
\<close>

section \<open>Headers\<close>

text \<open>\<open>textproto.CanonicalMIMEHeaderKey\<close>: the first letter and every letter after a hyphen in
  upper case, the rest in lower case; a key with a byte no header name may hold is left alone.\<close>

definition token_char :: "char \<Rightarrow> bool" where
  "token_char c \<longleftrightarrow> is_digit c \<or> (65 \<le> byte_of c \<and> byte_of c \<le> 90) \<or> (97 \<le> byte_of c \<and> byte_of c \<le> 122)
     \<or> c \<in> set ''!#$%&*+-.^_`|~'' \<or> c = CHR 39"

fun canon_from :: "bool \<Rightarrow> string \<Rightarrow> string" where
  "canon_from up [] = []"
| "canon_from up (c # s) = (if up then upper_char c else lower_char c) # canon_from (c = CHR ''-'') s"

definition canon :: "string \<Rightarrow> string" where
  "canon k = (if list_all token_char k then canon_from True k else k)"

text \<open>\<open>http.Header\<close>: the values of each canonical key in order; \<open>[]\<close> when absent.\<close>

type_synonym header = "string \<Rightarrow> string list"

definition no_header :: header where
  "no_header = (\<lambda>_. [])"

definition hdr_get :: "header \<Rightarrow> string \<Rightarrow> string" where
  "hdr_get h k = (case h (canon k) of [] \<Rightarrow> '''' | v # _ \<Rightarrow> v)"

definition hdr_set :: "header \<Rightarrow> string \<Rightarrow> string \<Rightarrow> header" where
  "hdr_set h k v = h(canon k := [v])"

definition hdr_add :: "header \<Rightarrow> string \<Rightarrow> string \<Rightarrow> header" where
  "hdr_add h k v = h(canon k := h (canon k) @ [v])"

definition hdr_del :: "header \<Rightarrow> string \<Rightarrow> header" where
  "hdr_del h k = h(canon k := [])"

lemma hdr_get_set [header_simps]:
  "hdr_get (hdr_set h k v) k' = (if canon k' = canon k then v else hdr_get h k')"
  by (simp add: hdr_get_def hdr_set_def)

lemma hdr_get_del [header_simps]:
  "hdr_get (hdr_del h k) k' = (if canon k' = canon k then '''' else hdr_get h k')"
  by (simp add: hdr_get_def hdr_del_def)

lemma hdr_get_none [header_simps]: "hdr_get no_header k = ''''"
  by (simp add: hdr_get_def no_header_def)

lemma hdr_set_apply: "hdr_set h k v x = (if x = canon k then [v] else h x)"
  by (simp add: hdr_set_def)

lemma hdr_del_apply: "hdr_del h k x = (if x = canon k then [] else h x)"
  by (simp add: hdr_del_def)

section \<open>Requests\<close>

text \<open>
  \<open>http.Request\<close>: the fields the gateway reads or writes. \<open>r_scheme\<close> and
  \<open>r_urlhost\<close> are empty on a request the server received. The code passes requests by
  pointer and shares the header map; nobody reads a request's headers after handing it on, so a
  value is enough.
\<close>

record http_request =
  r_method :: string
  r_scheme :: string
  r_urlhost :: string
  r_host :: string
  r_path :: string
  r_query :: string
  r_header :: header
  r_body :: string
  r_ctx :: ctx

definition with_context :: "http_request \<Rightarrow> ctx \<Rightarrow> http_request" where
  "with_context r c = r\<lparr>r_ctx := c\<rparr>"

definition set_req_header :: "string \<Rightarrow> string \<Rightarrow> http_request \<Rightarrow> http_request" where
  "set_req_header k v r = r\<lparr>r_header := hdr_set (r_header r) k v\<rparr>"

definition del_req_header :: "string \<Rightarrow> http_request \<Rightarrow> http_request" where
  "del_req_header k r = r\<lparr>r_header := hdr_del (r_header r) k\<rparr>"

definition req_header :: "http_request \<Rightarrow> string \<Rightarrow> string" where
  "req_header r k = hdr_get (r_header r) k"

lemma req_header_set [header_simps]:
  "req_header (set_req_header k v r) k' = (if canon k' = canon k then v else req_header r k')"
  by (simp add: req_header_def set_req_header_def header_simps)

lemma req_header_del [header_simps]:
  "req_header (del_req_header k r) k' = (if canon k' = canon k then '''' else req_header r k')"
  by (simp add: req_header_def del_req_header_def header_simps)

lemma req_header_with_context [header_simps]: "req_header (with_context r c) k = req_header r k"
  by (simp add: req_header_def with_context_def)

lemma with_context_fields [simp]:
  "r_ctx (with_context r c) = c" "r_header (with_context r c) = r_header r"
  "r_method (with_context r c) = r_method r" "r_path (with_context r c) = r_path r"
  "r_query (with_context r c) = r_query r" "r_body (with_context r c) = r_body r"
  by (simp_all add: with_context_def)

lemma set_req_header_fields [simp]:
  "r_ctx (set_req_header k v r) = r_ctx r" "r_method (set_req_header k v r) = r_method r"
  "r_path (set_req_header k v r) = r_path r" "r_query (set_req_header k v r) = r_query r"
  "r_body (set_req_header k v r) = r_body r"
  by (simp_all add: set_req_header_def)

lemma del_req_header_fields [simp]:
  "r_ctx (del_req_header k r) = r_ctx r" "r_method (del_req_header k r) = r_method r"
  "r_path (del_req_header k r) = r_path r" "r_query (del_req_header k r) = r_query r"
  "r_body (del_req_header k r) = r_body r"
  by (simp_all add: del_req_header_def)

text \<open>A request the gateway itself sends (license server, tenant directory), and its outcome: a
  transport error, or the status of an answer.\<close>

record out_request =
  o_method :: string
  o_url :: string
  o_header :: header

definition set_out_header :: "string \<Rightarrow> string \<Rightarrow> out_request \<Rightarrow> out_request" where
  "set_out_header k v r = r\<lparr>o_header := hdr_set (o_header r) k v\<rparr>"

datatype net_result = NetErr | NetStatus int

text \<open>
  Parsers and printers of the standard library that are parameters of the model, because the code
  relies on their answer and not on how they reach it. \<open>url_parse\<close> is \<open>url.Parse\<close>
  (\<open>None\<close> the error, else the scheme and the host), \<open>url_request_uri\<close> whether
  \<open>url.ParseRequestURI\<close> succeeds, \<open>fmt_quote\<close> the verb \<open>%q\<close> on a string
  (it needs Unicode's table of printable characters), and \<open>json_object\<close> is
  \<open>json.Unmarshal\<close> into a \<open>map[string]any\<close>.
\<close>

record go_lib =
  url_parse :: "string \<Rightarrow> (string \<times> string) option"
  url_request_uri :: "string \<Rightarrow> bool"
  fmt_quote :: "string \<Rightarrow> string"
  json_object :: "string \<Rightarrow> config_map option"

section \<open>The server's response writer\<close>

text \<open>
  \<open>conn\<close> is the writer of \<open>net/http\<close>'s server: the header map a handler may still
  change, the status and the headers that went out with it, informational statuses sent before it,
  and what was written and flushed. \<open>WriteHeader\<close> counts once; a code outside 100 to 999
  panics, and the server then drops the connection (\<open>c_aborted\<close>): from then on nothing is
  written and the rest of the handler does not run.
\<close>

datatype out_event = Chunk string | Flushed

record conn =
  c_header :: header
  c_status :: "int option"
  c_sent :: header
  c_info :: "int list"
  c_out :: "out_event list"
  c_flusher :: bool
  c_aborted :: bool

definition new_conn :: conn where
  "new_conn = \<lparr>c_header = no_header, c_status = None, c_sent = no_header, c_info = [],
     c_out = [], c_flusher = True, c_aborted = False\<rparr>"

definition conn_write_header :: "int \<Rightarrow> conn \<Rightarrow> conn" where
  "conn_write_header code c =
     (if c_aborted c then c
      else if c_status c \<noteq> None then c
      else if code < 100 \<or> 999 < code then c\<lparr>c_aborted := True\<rparr>
      else if code \<le> 199 \<and> code \<noteq> 101 then c\<lparr>c_info := c_info c @ [code]\<rparr>
      else c\<lparr>c_status := Some code, c_sent := c_header c\<rparr>)"

definition conn_write :: "string \<Rightarrow> conn \<Rightarrow> conn" where
  "conn_write bs c =
     (if c_aborted c then c
      else let c = conn_write_header 200 c in c\<lparr>c_out := c_out c @ [Chunk bs]\<rparr>)"

definition conn_flush :: "conn \<Rightarrow> conn" where
  "conn_flush c =
     (if c_aborted c then c
      else let c = conn_write_header 200 c in c\<lparr>c_out := c_out c @ [Flushed]\<rparr>)"

text \<open>What the client sees once the handler has returned: 200 when it wrote nothing.\<close>

definition client_status :: "conn \<Rightarrow> int" where
  "client_status c = (case c_status c of Some s \<Rightarrow> s | None \<Rightarrow> 200)"

section \<open>Writers and the response recorder\<close>

text \<open>
  \<open>responseRecorder\<close> of \<open>internal/proxy/dispatcher.go\<close> embeds an
  \<open>http.ResponseWriter\<close> and notes the first status code. It has the three methods of that
  interface and no others, so the assertion \<open>w.(http.Flusher)\<close> fails on it even when the
  writer inside can flush.
\<close>

datatype writer =
    Conn conn
  | Recorder writer int bool

fun rr_code :: "writer \<Rightarrow> int" where
  "rr_code (Conn c) = client_status c"
| "rr_code (Recorder w code wrote) = code"

fun w_conn :: "writer \<Rightarrow> conn" where
  "w_conn (Conn c) = c"
| "w_conn (Recorder w code wrote) = w_conn w"

fun map_header :: "(header \<Rightarrow> header) \<Rightarrow> writer \<Rightarrow> writer" where
  "map_header f (Conn c) = Conn (c\<lparr>c_header := f (c_header c)\<rparr>)"
| "map_header f (Recorder w code wrote) = Recorder (map_header f w) code wrote"

definition w_header :: "writer \<Rightarrow> header" where
  "w_header w = c_header (w_conn w)"

definition set_header :: "string \<Rightarrow> string \<Rightarrow> writer \<Rightarrow> writer" where
  "set_header k v w = map_header (\<lambda>h. hdr_set h k v) w"

definition add_header :: "string \<Rightarrow> string \<Rightarrow> writer \<Rightarrow> writer" where
  "add_header k v w = map_header (\<lambda>h. hdr_add h k v) w"

fun WriteHeader :: "int \<Rightarrow> writer \<Rightarrow> writer" where
  "WriteHeader c (Conn cn) = Conn (conn_write_header c cn)"
| "WriteHeader c (Recorder w code wrote) =
     (if \<not> wrote then Recorder (WriteHeader c w) c True
      else Recorder (WriteHeader c w) code wrote)"

fun Write :: "string \<Rightarrow> writer \<Rightarrow> writer" where
  "Write b (Conn cn) = Conn (conn_write b cn)"
| "Write b (Recorder w code wrote) =
     (if \<not> wrote then Recorder (Write b w) 200 True
      else Recorder (Write b w) code wrote)"

fun is_flusher :: "writer \<Rightarrow> bool" where
  "is_flusher (Conn c) = c_flusher c"
| "is_flusher (Recorder w code wrote) = False"

fun Flush :: "writer \<Rightarrow> writer" where
  "Flush (Conn c) = Conn (conn_flush c)"
| "Flush (Recorder w code wrote) = Recorder w code wrote"

definition new_recorder :: "writer \<Rightarrow> writer" where
  "new_recorder w = Recorder w 200 False"

text \<open>A panic of a handler: the server drops the connection.\<close>

fun panic :: "writer \<Rightarrow> writer" where
  "panic (Conn c) = Conn (c\<lparr>c_aborted := True\<rparr>)"
| "panic (Recorder w code wrote) = Recorder (panic w) code wrote"

text \<open>The writer inside a recorder, back in the hands of the caller that wrapped it.\<close>

fun unwrap :: "writer \<Rightarrow> writer" where
  "unwrap (Recorder w code wrote) = w"
| "unwrap (Conn c) = Conn c"

definition aborted :: "writer \<Rightarrow> bool" where
  "aborted w = c_aborted (w_conn w)"

definition w_status :: "writer \<Rightarrow> int option" where
  "w_status w = c_status (w_conn w)"

definition w_out :: "writer \<Rightarrow> out_event list" where
  "w_out w = c_out (w_conn w)"

definition w_sent :: "writer \<Rightarrow> header" where
  "w_sent w = c_sent (w_conn w)"

lemma w_conn_ops [writer_simps]:
  "w_conn (WriteHeader code w) = conn_write_header code (w_conn w)"
  "w_conn (Write b w) = conn_write b (w_conn w)"
  "w_conn (map_header f w) = (w_conn w)\<lparr>c_header := f (c_header (w_conn w))\<rparr>"
  "w_conn (new_recorder w) = w_conn w"
  "w_conn (panic w) = (w_conn w)\<lparr>c_aborted := True\<rparr>"
  by (induction w) (auto simp: new_recorder_def)

lemma is_flusher_recorder [writer_simps]: "is_flusher (new_recorder w) = False"
  by (simp add: new_recorder_def)

lemma is_flusher_ops [writer_simps]:
  "is_flusher (WriteHeader code w) = is_flusher w"
  "is_flusher (Write b w) = is_flusher w"
  "is_flusher (map_header f w) = is_flusher w"
  by (induction w)
    (auto simp: conn_write_header_def conn_write_def Let_def)

text \<open>The first final status wins, at every layer.\<close>

lemma conn_status_stable:
  "c_status c = Some s \<Longrightarrow> c_status (conn_write_header code c) = Some s"
  "c_status c = Some s \<Longrightarrow> c_status (conn_write b c) = Some s"
  "c_status c = Some s \<Longrightarrow> c_sent (conn_write_header code c) = c_sent c"
  "c_status c = Some s \<Longrightarrow> c_sent (conn_write b c) = c_sent c"
  by (auto simp: conn_write_header_def conn_write_def Let_def)

text \<open>
  The recorder is exact: while the connection is alive and no informational status was written, the
  code it holds is the status that the client gets.
\<close>

fun recorder_ok :: "writer \<Rightarrow> bool" where
  "recorder_ok (Conn c) = True"
| "recorder_ok (Recorder w code wrote) =
     (recorder_ok w \<and>
      (c_aborted (w_conn w) \<or> c_info (w_conn w) \<noteq> [] \<or>
       (if wrote then c_status (w_conn w) = Some code else code = 200 \<and> c_status (w_conn w) = None)))"

lemma recorder_ok_new: "c_status (w_conn w) = None \<Longrightarrow> recorder_ok w \<Longrightarrow> recorder_ok (new_recorder w)"
  by (simp add: new_recorder_def)

lemma conn_write_header_info_mono: "c_info c \<noteq> [] \<Longrightarrow> c_info (conn_write_header code c) \<noteq> []"
  by (auto simp: conn_write_header_def)

lemma conn_write_info_mono: "c_info c \<noteq> [] \<Longrightarrow> c_info (conn_write b c) \<noteq> []"
  by (auto simp: conn_write_def conn_write_header_def Let_def)

lemma conn_aborted_mono:
  "c_aborted c \<Longrightarrow> c_aborted (conn_write_header code c)"
  "c_aborted c \<Longrightarrow> c_aborted (conn_write b c)"
  by (auto simp: conn_write_header_def conn_write_def Let_def)

lemma conn_write_header_fresh:
  "c_status c = None \<Longrightarrow> \<not> c_aborted (conn_write_header code c) \<Longrightarrow>
     c_info (conn_write_header code c) = [] \<Longrightarrow> c_status (conn_write_header code c) = Some code"
  by (auto simp: conn_write_header_def split: if_splits)

lemma conn_write_fresh:
  "c_status c = None \<Longrightarrow> \<not> c_aborted c \<Longrightarrow> c_status (conn_write b c) = Some 200"
  by (auto simp: conn_write_def conn_write_header_def Let_def)

lemma recorder_ok_WriteHeader: "recorder_ok w \<Longrightarrow> recorder_ok (WriteHeader code w)"
proof (induction w)
  case (Conn c)
  show ?case by simp
next
  case (Recorder w k wrote)
  let ?c = "w_conn w"
  have ok: "recorder_ok (WriteHeader code w)" using Recorder by simp
  consider "c_aborted ?c \<or> c_info ?c \<noteq> []" | "wrote" "c_status ?c = Some k"
    | "\<not> wrote" "c_status ?c = None"
    using Recorder.prems by (auto split: if_splits)
  then show ?case
  proof cases
    case 1
    then show ?thesis
      using ok conn_aborted_mono(1) [of ?c code] conn_write_header_info_mono [of ?c code]
      by (auto simp: writer_simps)
  next
    case 2
    then show ?thesis
      using ok conn_status_stable(1) [of ?c k code] by (simp add: writer_simps)
  next
    case 3
    then show ?thesis
      using ok conn_write_header_fresh [of ?c code] by (auto simp: writer_simps)
  qed
qed

lemma recorder_ok_Write: "recorder_ok w \<Longrightarrow> recorder_ok (Write b w)"
proof (induction w)
  case (Conn c)
  show ?case by simp
next
  case (Recorder w k wrote)
  let ?c = "w_conn w"
  have ok: "recorder_ok (Write b w)" using Recorder by simp
  consider "c_aborted ?c \<or> c_info ?c \<noteq> []" | "wrote" "c_status ?c = Some k"
    | "\<not> wrote" "c_status ?c = None" "\<not> c_aborted ?c"
    using Recorder.prems by (auto split: if_splits)
  then show ?case
  proof cases
    case 1
    then show ?thesis
      using ok conn_aborted_mono(2) [of ?c b] conn_write_info_mono [of ?c b]
      by (auto simp: writer_simps)
  next
    case 2
    then show ?thesis
      using ok conn_status_stable(2) [of ?c k b] by (simp add: writer_simps)
  next
    case 3
    then show ?thesis
      using ok conn_write_fresh [of ?c b] by (simp add: writer_simps)
  qed
qed

lemma recorder_ok_map_header: "recorder_ok w \<Longrightarrow> recorder_ok (map_header f w)"
  by (induction w) (auto simp: writer_simps)

section \<open>Handlers and middlewares\<close>

type_synonym 'w handler = "http_request \<Rightarrow> writer \<Rightarrow> 'w \<Rightarrow> writer \<times> 'w"

datatype verdict = Respond writer | Next http_request writer

text \<open>A decision on the component's own state \<open>'c\<close>, which \<open>get\<close> and \<open>put\<close> find in the
  gateway's state.\<close>

type_synonym 'c decision = "http_request \<Rightarrow> writer \<Rightarrow> 'c \<Rightarrow> verdict \<times> 'c"

definition middleware_of ::
    "('w \<Rightarrow> 'c) \<Rightarrow> ('c \<Rightarrow> 'w \<Rightarrow> 'w) \<Rightarrow> 'c decision \<Rightarrow> 'w handler \<Rightarrow> 'w handler" where
  "middleware_of get put decide next_h r w s =
     (case decide r w (get s) of
        (Respond w', c) \<Rightarrow> (w', put c s)
      | (Next r' w', c) \<Rightarrow> next_h r' w' (put c s))"

text \<open>
  The contract every middleware of the gateway keeps: on each request it either answers, and then the
  next handler is not called, or it calls the next handler exactly once and returns what that
  returns.
\<close>

locale middleware =
  fixes mw :: "'w handler \<Rightarrow> 'w handler"
  assumes answers_or_delegates:
    "(\<exists>w' s'. \<forall>next_h. mw next_h r w s = (w', s')) \<or>
     (\<exists>r' w' s'. \<forall>next_h. mw next_h r w s = next_h r' w' s')"
begin

text \<open>If two next handlers agree everywhere, the wrapped ones agree.\<close>

lemma respects_next:
  assumes "\<And>r w s. h r w s = g r w s"
  shows "mw h r w s = mw g r w s"
proof -
  have "h = g" using assms by (intro ext)
  then show ?thesis by simp
qed

text \<open>A property of every answer of the next handler and of every early answer is one of all answers.\<close>

lemma answer_cases:
  assumes "\<And>r' w' s'. P (next_h r' w' s')"
    and "\<And>w' s'. (\<forall>h. mw h r w s = (w', s')) \<Longrightarrow> P (w', s')"
  shows "P (mw next_h r w s)"
  using answers_or_delegates [of r w s] assms by metis

end

lemma middleware_compose:
  assumes "middleware f" and "middleware g"
  shows "middleware (\<lambda>next_h. f (g next_h))"
proof
  fix r w s
  from middleware.answers_or_delegates [OF assms(1), of r w s]
  consider w' s' where "\<forall>h. f h r w s = (w', s')" | r' w' s' where "\<forall>h. f h r w s = h r' w' s'"
    by blast
  then show "(\<exists>w' s'. \<forall>h. f (g h) r w s = (w', s')) \<or> (\<exists>r' w' s'. \<forall>h. f (g h) r w s = h r' w' s')"
  proof cases
    case 1
    then show ?thesis by blast
  next
    case 2
    then show ?thesis
      using middleware.answers_or_delegates [OF assms(2), of r' w' s'] by simp
  qed
qed

lemma middleware_id: "middleware (\<lambda>h. h)"
  by unfold_locales blast

lemma middleware_middleware_of: "middleware (middleware_of get put decide)"
proof
  fix r w s
  obtain v c where vc: "decide r w (get s) = (v, c)" by (cases "decide r w (get s)")
  show "(\<exists>w' s'. \<forall>h. middleware_of get put decide h r w s = (w', s')) \<or>
    (\<exists>r' w' s'. \<forall>h. middleware_of get put decide h r w s = h r' w' s')"
  proof (cases v)
    case (Respond w')
    with vc have "\<forall>h. middleware_of get put decide h r w s = (w', put c s)"
      by (simp add: middleware_of_def)
    then show ?thesis by blast
  next
    case (Next r' w')
    with vc have "\<forall>h. middleware_of get put decide h r w s = h r' w' (put c s)"
      by (simp add: middleware_of_def)
    then show ?thesis by blast
  qed
qed

text \<open>A chain of middlewares, the first of the list outermost.\<close>

lemma middleware_foldr:
  "(\<And>m. m \<in> set ms \<Longrightarrow> middleware m) \<Longrightarrow> middleware (\<lambda>h. foldr (\<lambda>m. m) ms h)"
proof (induction ms)
  case Nil
  show ?case by (simp add: middleware_id)
next
  case (Cons m ms)
  then have "middleware m" and "middleware (\<lambda>h. foldr (\<lambda>m. m) ms h)" by simp_all
  from middleware_compose [OF this] show ?case by simp
qed

end
