(* ===== verification/Response.thy ===== *)
theory Response
  imports Http
begin

text \<open>
  \<open>internal/response\<close>: the vendor error document and \<open>WriteError\<close>. The document is
  written the way \<open>encoding/json\<close> writes it (HTML-safe escapes, invalid UTF-8 replaced,
  \<open>omitempty\<close>), because its message repeats bytes of the request: the path, a claim name, an
  issuer. \<open>json_unquote\<close> reads a JSON string back, and the round trip shows that nothing in a
  message can end the string early.
\<close>

section \<open>JSON strings\<close>

abbreviation bslash :: char where "bslash \<equiv> CHR 0x5C"
abbreviation dquote :: char where "dquote \<equiv> CHR 0x22"

definition byte_in :: "nat \<Rightarrow> nat \<Rightarrow> char \<Rightarrow> bool" where
  "byte_in lo hi c \<longleftrightarrow> lo \<le> byte_of c \<and> byte_of c \<le> hi"

abbreviation cont_byte :: "char \<Rightarrow> bool" where "cont_byte \<equiv> byte_in 0x80 0xBF"

text \<open>\<open>utf8.DecodeRune\<close>: the length of the valid multi-byte sequence a string starts with,
  0 when there is none.\<close>

fun utf8_len :: "string \<Rightarrow> nat" where
  "utf8_len (a # b # s) =
     (if byte_in 0xC2 0xDF a \<and> cont_byte b then 2
      else case s of
        [] \<Rightarrow> 0
      | c # s' \<Rightarrow>
          if cont_byte c \<and> (a = CHR 0xE0 \<and> byte_in 0xA0 0xBF b \<or>
               a = CHR 0xED \<and> byte_in 0x80 0x9F b \<or>
               byte_in 0xE1 0xEF a \<and> a \<noteq> CHR 0xED \<and> cont_byte b)
          then 3
          else case s' of
            [] \<Rightarrow> 0
          | d # _ \<Rightarrow>
              if cont_byte c \<and> cont_byte d \<and> (a = CHR 0xF0 \<and> byte_in 0x90 0xBF b \<or>
                   a = CHR 0xF4 \<and> byte_in 0x80 0x8F b \<or> byte_in 0xF1 0xF3 a \<and> cont_byte b)
              then 4 else 0)"
| "utf8_len _ = 0"

text \<open>The escapes of one ASCII byte (\<open>SetEscapeHTML\<close> is on by default).\<close>

definition json_escape :: "char \<Rightarrow> string" where
  "json_escape c =
     (if c = dquote \<or> c = bslash then [bslash, c]
      else if byte_of c = 8 then [bslash, CHR ''b'']
      else if byte_of c = 12 then [bslash, CHR ''f'']
      else if byte_of c = 10 then [bslash, CHR ''n'']
      else if byte_of c = 13 then [bslash, CHR ''r'']
      else if byte_of c = 9 then [bslash, CHR ''t'']
      else if byte_of c < 32 \<or> c = CHR ''<'' \<or> c = CHR ''>'' \<or> c = CHR ''&''
        then [bslash, CHR ''u'', CHR ''0'', CHR ''0'', hex_digit (byte_of c div 16), hex_digit (byte_of c mod 16)]
      else [c])"

text \<open>The body of a string: \<open>esc\<close> escapes an ASCII byte.\<close>

function json_chars :: "(char \<Rightarrow> string) \<Rightarrow> string \<Rightarrow> string" where
  "json_chars esc [] = []"
| "json_chars esc (c # s) =
     (if byte_of c < 128 then esc c @ json_chars esc s
      else if utf8_len (c # s) = 0 then bslash # ''ufffd'' @ json_chars esc s
      else if take 3 (c # s) = [CHR 0xE2, CHR 0x80, CHR 0xA8] then bslash # ''u2028'' @ json_chars esc (drop 2 s)
      else if take 3 (c # s) = [CHR 0xE2, CHR 0x80, CHR 0xA9] then bslash # ''u2029'' @ json_chars esc (drop 2 s)
      else take (utf8_len (c # s)) (c # s) @ json_chars esc (drop (utf8_len (c # s) - 1) s))"
  by pat_completeness auto
termination
  by (relation "measure (\<lambda>(esc, s). length s)") auto

definition json_string :: "string \<Rightarrow> string" where
  "json_string s = dquote # json_chars json_escape s @ [dquote]"

section \<open>The error document\<close>

record trace =
  CorrelationIDField :: string
  RequestIDField :: string
  Dependency :: string

record error_body =
  ErrType :: string
  Code :: string
  Message :: string
  RetryAfter :: int
  Trace :: trace

definition trace_of :: "string \<Rightarrow> string \<Rightarrow> string \<Rightarrow> trace" where
  "trace_of corr req dep = \<lparr>CorrelationIDField = corr, RequestIDField = req, Dependency = dep\<rparr>"

definition json_field :: "string \<Rightarrow> string \<Rightarrow> string" where
  "json_field name v = json_string name @ '':'' @ v"

definition encode_trace :: "trace \<Rightarrow> string" where
  "encode_trace t =
     ''{'' @ join '','' ([json_field ''correlationId'' (json_string (CorrelationIDField t)),
        json_field ''requestId'' (json_string (RequestIDField t))] @
        (if Dependency t = '''' then [] else [json_field ''dependency'' (json_string (Dependency t))])) @ ''}''"

text \<open>\<open>json.NewEncoder(w).Encode(body)\<close> ends the document with a newline.\<close>

definition encode_error :: "error_body \<Rightarrow> string" where
  "encode_error b =
     ''{'' @ join '','' ([json_field ''type'' (json_string (ErrType b)),
        json_field ''code'' (json_string (Code b)),
        json_field ''message'' (json_string (Message b))] @
        (if RetryAfter b = 0 then [] else [json_field ''retryAfter'' (itoa (RetryAfter b))]) @
        [json_field ''trace'' (encode_trace (Trace b))]) @ ''}'' @ [CHR 10]"

definition ContentTypeError :: string where
  "ContentTypeError = ''application/vnd.yaagents.error+json''"

definition WriteError :: "writer \<Rightarrow> int \<Rightarrow> error_body \<Rightarrow> writer" where
  "WriteError w status body =
     Write (encode_error body) (WriteHeader status (set_header ''Content-Type'' ContentTypeError w))"

section \<open>Reading a JSON string back\<close>

definition hex_val :: "char \<Rightarrow> nat option" where
  "hex_val c = (if byte_in 48 57 c then Some (byte_of c - 48)
     else if byte_in 97 102 c then Some (byte_of c - 87)
     else if byte_in 65 70 c then Some (byte_of c - 55) else None)"

text \<open>The UTF-8 bytes of a code point below 65536.\<close>

definition utf8_encode :: "nat \<Rightarrow> string" where
  "utf8_encode n =
     (if n < 128 then [char_of n]
      else if n < 2048 then [char_of (192 + n div 64), char_of (128 + n mod 64)]
      else [char_of (224 + n div 4096), char_of (128 + n div 64 mod 64), char_of (128 + n mod 64)])"

definition unescape1 :: "char \<Rightarrow> char option" where
  "unescape1 c =
     (if c = dquote \<or> c = bslash \<or> c = CHR ''/'' then Some c
      else if c = CHR ''b'' then Some (CHR 8) else if c = CHR ''f'' then Some (CHR 12)
      else if c = CHR ''n'' then Some (CHR 10) else if c = CHR ''r'' then Some (CHR 13)
      else if c = CHR ''t'' then Some (CHR 9) else None)"

definition hex4 :: "char \<Rightarrow> char \<Rightarrow> char \<Rightarrow> char \<Rightarrow> nat option" where
  "hex4 a b c d =
     (case (hex_val a, hex_val b, hex_val c, hex_val d) of
        (Some x, Some y, Some z, Some v) \<Rightarrow> Some (4096 * x + 256 * y + 16 * z + v)
      | _ \<Rightarrow> None)"

text \<open>The content of a JSON string up to the quote that ends it, and what follows that quote.\<close>

fun json_unquote :: "string \<Rightarrow> (string \<times> string) option" where
  "json_unquote [] = None"
| "json_unquote (c # s) =
     (if c = dquote then Some ([], s)
      else if byte_of c < 32 then None
      else if c \<noteq> bslash then map_option (\<lambda>(t, rest). (c # t, rest)) (json_unquote s)
      else case s of
        e # s' \<Rightarrow>
          if e = CHR ''u'' then
            (case s' of
               h1 # h2 # h3 # h4 # s'' \<Rightarrow>
                 (case hex4 h1 h2 h3 h4 of
                    None \<Rightarrow> None
                  | Some n \<Rightarrow> map_option (\<lambda>(t, rest). (utf8_encode n @ t, rest)) (json_unquote s''))
             | _ \<Rightarrow> None)
          else
            (case unescape1 e of
               None \<Rightarrow> None
             | Some x \<Rightarrow> map_option (\<lambda>(t, rest). (x # t, rest)) (json_unquote s'))
      | [] \<Rightarrow> None)"

text \<open>What \<open>encoding/json\<close> keeps of a byte string: valid UTF-8 as it is, every byte that
  belongs to no valid sequence as the replacement character U+FFFD.\<close>

function to_valid_utf8 :: "string \<Rightarrow> string" where
  "to_valid_utf8 [] = []"
| "to_valid_utf8 (c # s) =
     (if byte_of c < 128 then c # to_valid_utf8 s
      else if utf8_len (c # s) = 0 then [CHR 0xEF, CHR 0xBF, CHR 0xBD] @ to_valid_utf8 s
      else take (utf8_len (c # s)) (c # s) @ to_valid_utf8 (drop (utf8_len (c # s) - 1) s))"
  by pat_completeness auto
termination
  by (relation "measure length") auto

declare json_chars.simps [simp del] json_unquote.simps [simp del] to_valid_utf8.simps [simp del]

lemma hex_val_hex_digit: "n < 16 \<Longrightarrow> hex_val (hex_digit n) = Some n"
  by (simp add: hex_val_def hex_digit_def byte_in_def of_char_of)

lemma unquote_plain:
  "c \<noteq> dquote \<Longrightarrow> c \<noteq> bslash \<Longrightarrow> 32 \<le> byte_of c \<Longrightarrow>
     json_unquote (c # s) = map_option (\<lambda>(t, rest). (c # t, rest)) (json_unquote s)"
  by (simp add: json_unquote.simps)

lemma unquote_escape1:
  "unescape1 e = Some x \<Longrightarrow> e \<noteq> CHR ''u'' \<Longrightarrow>
     json_unquote (bslash # e # s) = map_option (\<lambda>(t, rest). (x # t, rest)) (json_unquote s)"
  by (simp add: json_unquote.simps)

lemma unquote_u:
  "hex4 h1 h2 h3 h4 = Some n \<Longrightarrow>
     json_unquote (bslash # CHR ''u'' # h1 # h2 # h3 # h4 # s) =
       map_option (\<lambda>(t, rest). (utf8_encode n @ t, rest)) (json_unquote s)"
  by (simp add: json_unquote.simps)

lemma char_of_byte [simp]: "(char_of (byte_of c) :: char) = c"
  by simp

lemma byte_of_eq_iff: "n < 256 \<Longrightarrow> byte_of c = n \<longleftrightarrow> c = char_of n"
  by auto

lemma control_chars:
  "(char_of (8::nat) :: char) = CHR 8" "(char_of (9::nat) :: char) = CHR 9"
  "(char_of (10::nat) :: char) = CHR 10" "(char_of (12::nat) :: char) = CHR 12"
  "(char_of (13::nat) :: char) = CHR 13"
  by code_simp+

lemma control_bytes:
  "byte_of c = 8 \<longleftrightarrow> c = CHR 8" "byte_of c = 9 \<longleftrightarrow> c = CHR 9" "byte_of c = 10 \<longleftrightarrow> c = CHR 10"
  "byte_of c = 12 \<longleftrightarrow> c = CHR 12" "byte_of c = 13 \<longleftrightarrow> c = CHR 13"
  by (rule trans [OF byte_of_eq_iff], simp, simp only: control_chars)+

lemma take_3_eq: "take 3 (c # s) = [x, y, z] \<longleftrightarrow> c = x \<and> (\<exists>s'. s = y # z # s')"
  by (cases s; cases "tl s") (auto simp: numeral_3_eq_3)

lemma high_chars:
  "(char_of (239::nat) :: char) = CHR 0xEF" "(char_of (191::nat) :: char) = CHR 0xBF"
  "(char_of (189::nat) :: char) = CHR 0xBD" "(char_of (226::nat) :: char) = CHR 0xE2"
  "(char_of (128::nat) :: char) = CHR 0x80" "(char_of (168::nat) :: char) = CHR 0xA8"
  "(char_of (169::nat) :: char) = CHR 0xA9"
  by code_simp+

lemma utf8_constants:
  "utf8_encode 0xFFFD = [CHR 0xEF, CHR 0xBF, CHR 0xBD]"
  "utf8_encode 0x2028 = [CHR 0xE2, CHR 0x80, CHR 0xA8]"
  "utf8_encode 0x2029 = [CHR 0xE2, CHR 0x80, CHR 0xA9]"
  by (simp_all add: utf8_encode_def high_chars)

text \<open>One escaped ASCII byte reads back as that byte.\<close>

lemma unquote_json_escape:
  assumes "byte_of c < 128"
  shows "json_unquote (json_escape c @ s) = map_option (\<lambda>(t, rest). (c # t, rest)) (json_unquote s)"
proof -
  consider "c = dquote \<or> c = bslash" | "byte_of c \<in> {8, 9, 10, 12, 13}"
    | "c \<noteq> dquote" "c \<noteq> bslash" "byte_of c \<notin> {8, 9, 10, 12, 13}"
      "byte_of c < 32 \<or> c = CHR ''<'' \<or> c = CHR ''>'' \<or> c = CHR ''&''"
    | "c \<noteq> dquote" "c \<noteq> bslash" "32 \<le> byte_of c" "c \<noteq> CHR ''<''" "c \<noteq> CHR ''>''" "c \<noteq> CHR ''&''"
    by fastforce
  then show ?thesis
  proof cases
    case 1
    then show ?thesis
      by (auto simp: json_escape_def unescape1_def intro!: unquote_escape1)
  next
    case 2
    then have "c = CHR 8 \<or> c = CHR 9 \<or> c = CHR 10 \<or> c = CHR 12 \<or> c = CHR 13"
      by (simp only: control_bytes insert_iff empty_iff) blast
    then show ?thesis
      by (elim disjE) (simp_all add: json_escape_def unescape1_def unquote_escape1)
  next
    case 3
    let ?n = "byte_of c"
    have "hex4 (CHR ''0'') (CHR ''0'') (hex_digit (?n div 16)) (hex_digit (?n mod 16)) = Some ?n"
    proof -
      have "hex_val (CHR ''0'') = Some 0" by (simp add: hex_val_def byte_in_def)
      moreover have "hex_val (hex_digit (?n div 16)) = Some (?n div 16)"
        using assms by (intro hex_val_hex_digit) simp
      moreover have "hex_val (hex_digit (?n mod 16)) = Some (?n mod 16)"
        by (intro hex_val_hex_digit) simp
      ultimately show ?thesis by (simp add: hex4_def)
    qed
    from unquote_u [OF this, of s] show ?thesis
      using 3 assms by (auto simp: json_escape_def utf8_encode_def)
  next
    case 4
    then show ?thesis
      by (simp add: json_escape_def unquote_plain)
  qed
qed

text \<open>A valid multi-byte sequence holds bytes from 128 on, which a reader takes as they are.\<close>

lemma utf8_len_bound: "utf8_len s \<le> length s"
  by (induction s rule: utf8_len.induct) (auto split: list.splits)

lemma utf8_len_bytes:
  assumes "utf8_len s \<noteq> 0" and "c \<in> set (take (utf8_len s) s)"
  shows "128 \<le> byte_of c"
proof -
  have high: "byte_in lo hi a \<Longrightarrow> 128 \<le> lo \<Longrightarrow> 128 \<le> byte_of a" for lo hi a
    by (simp add: byte_in_def)
  obtain a b r where s: "s = a # b # r"
    using assms(1) by (cases s rule: utf8_len.cases) auto
  let ?two = "byte_in 0xC2 0xDF a \<and> cont_byte b"
  show ?thesis
  proof (cases ?two)
    case True
    then have "128 \<le> byte_of a" "128 \<le> byte_of b" using high by fastforce+
    then show ?thesis using assms(2) True s by auto
  next
    case no2: False
    obtain c' r' where r: "r = c' # r'" using assms(1) no2 s by (cases r) auto
    let ?three = "cont_byte c' \<and> (a = CHR 0xE0 \<and> byte_in 0xA0 0xBF b \<or>
               a = CHR 0xED \<and> byte_in 0x80 0x9F b \<or> byte_in 0xE1 0xEF a \<and> a \<noteq> CHR 0xED \<and> cont_byte b)"
    show ?thesis
    proof (cases ?three)
      case True
      then have "128 \<le> byte_of a" "128 \<le> byte_of b" "128 \<le> byte_of c'"
        using high [of _ _ a] high [of _ _ b] high [of _ _ c'] by fastforce+
      then show ?thesis using assms(2) True no2 s r by (simp split: if_split_asm) blast
    next
      case no3: False
      obtain d r'' where r': "r' = d # r''" using assms(1) no2 no3 s r by (cases r') auto
      let ?four = "cont_byte c' \<and> cont_byte d \<and> (a = CHR 0xF0 \<and> byte_in 0x90 0xBF b \<or>
                   a = CHR 0xF4 \<and> byte_in 0x80 0x8F b \<or> byte_in 0xF1 0xF3 a \<and> cont_byte b)"
      have four: ?four
      proof (rule ccontr)
        assume "\<not> ?four"
        with no2 no3 s r r' have "utf8_len s = 0" by (simp only: utf8_len.simps list.case if_False)
        with assms(1) show False by simp
      qed
      then have "128 \<le> byte_of a" "128 \<le> byte_of b" "128 \<le> byte_of c'" "128 \<le> byte_of d"
        using high [of _ _ a] high [of _ _ b] high [of _ _ c'] high [of _ _ d] by fastforce+
      moreover have "utf8_len s = 4"
        using no2 no3 four s r r' by (simp only: utf8_len.simps list.case if_False if_True simp_thms)
      ultimately show ?thesis using assms(2) s r r' by auto
    qed
  qed
qed

lemma unquote_high_bytes:
  "(\<And>c. c \<in> set p \<Longrightarrow> 128 \<le> byte_of c) \<Longrightarrow>
     json_unquote (p @ s) = map_option (\<lambda>(t, rest). (p @ t, rest)) (json_unquote s)"
proof (induction p)
  case Nil
  show ?case by (simp add: option.map_ident)
next
  case (Cons c p)
  have "128 \<le> byte_of c" using Cons.prems by simp
  then have "c \<noteq> dquote" "c \<noteq> bslash" "32 \<le> byte_of c" by auto
  with Cons show ?case
    by (simp add: unquote_plain option.map_comp comp_def case_prod_beta)
qed

lemma bytes_induct [case_names Nil Chunk]:
  assumes "P []" and "\<And>c s. (\<And>t. length t \<le> length s \<Longrightarrow> P t) \<Longrightarrow> P (c # s)"
  shows "P (s :: string)"
proof (induction s rule: length_induct)
  case (1 s)
  then show ?case using assms by (cases s) (auto simp: less_Suc_eq_le)
qed

text \<open>What an encoder's escapes promise: a reader takes the escape of a byte for the byte, and no escape
  holds a line break. Then the string reads back as the message (with invalid UTF-8 replaced), ends
  where it should, and stays on its line.\<close>

locale json_escaper =
  fixes esc :: "char \<Rightarrow> string"
  assumes unquote_esc: "byte_of c < 128 \<Longrightarrow>
      json_unquote (esc c @ s) = map_option (\<lambda>(t, rest). (c # t, rest)) (json_unquote s)"
    and esc_line: "CHR 10 \<notin> set (esc c)"
begin

lemma json_chars_roundtrip:
  "json_unquote (json_chars esc s @ dquote # rest) = Some (to_valid_utf8 s, rest)"
proof (induction s rule: bytes_induct)
  case Nil
  show ?case by (simp add: json_chars.simps to_valid_utf8.simps json_unquote.simps)
next
  case (Chunk c s)
  let ?n = "utf8_len (c # s)"
  consider "byte_of c < 128" | "128 \<le> byte_of c" "?n = 0"
    | "128 \<le> byte_of c" "?n \<noteq> 0" "take 3 (c # s) = [CHR 0xE2, CHR 0x80, CHR 0xA8]"
    | "128 \<le> byte_of c" "?n \<noteq> 0" "take 3 (c # s) = [CHR 0xE2, CHR 0x80, CHR 0xA9]"
    | "128 \<le> byte_of c" "?n \<noteq> 0" "take 3 (c # s) \<noteq> [CHR 0xE2, CHR 0x80, CHR 0xA8]"
      "take 3 (c # s) \<noteq> [CHR 0xE2, CHR 0x80, CHR 0xA9]"
    by linarith
  then show ?case
  proof cases
    case 1
    with Chunk show ?thesis
      by (simp add: json_chars.simps(2) to_valid_utf8.simps(2) unquote_esc)
  next
    case 2
    have "hex4 (CHR ''f'') (CHR ''f'') (CHR ''f'') (CHR ''d'') = Some 0xFFFD"
      by (simp add: hex4_def hex_val_def byte_in_def)
    from unquote_u [OF this] show ?thesis
      using 2 Chunk by (simp add: json_chars.simps(2) to_valid_utf8.simps(2) utf8_constants)
  next
    case 3
    then obtain s' where s: "s = CHR 0x80 # CHR 0xA8 # s'" and c: "c = CHR 0xE2"
      unfolding take_3_eq by blast
    have n: "utf8_len (c # s) = 3"
      by (simp add: s c byte_in_def)
    have "hex4 (CHR ''2'') (CHR ''0'') (CHR ''2'') (CHR ''8'') = Some 0x2028"
      by (simp add: hex4_def hex_val_def byte_in_def)
    from unquote_u [OF this] show ?thesis
      using 3 Chunk n s c by (simp add: json_chars.simps(2) to_valid_utf8.simps(2) utf8_constants)
  next
    case 4
    then obtain s' where s: "s = CHR 0x80 # CHR 0xA9 # s'" and c: "c = CHR 0xE2"
      unfolding take_3_eq by blast
    have n: "utf8_len (c # s) = 3"
      by (simp add: s c byte_in_def)
    have "hex4 (CHR ''2'') (CHR ''0'') (CHR ''2'') (CHR ''9'') = Some 0x2029"
      by (simp add: hex4_def hex_val_def byte_in_def)
    from unquote_u [OF this] show ?thesis
      using 4 Chunk n s c by (simp add: json_chars.simps(2) to_valid_utf8.simps(2) utf8_constants)
  next
    case 5
    have high: "json_unquote (take ?n (c # s) @ t) =
        map_option (\<lambda>(u, rest). (take ?n (c # s) @ u, rest)) (json_unquote t)" for t
      using 5 by (intro unquote_high_bytes utf8_len_bytes)
    have "json_chars esc (c # s) = take ?n (c # s) @ json_chars esc (drop (?n - 1) s)"
      using 5 by (auto simp: json_chars.simps(2))
    moreover have "to_valid_utf8 (c # s) = take ?n (c # s) @ to_valid_utf8 (drop (?n - 1) s)"
      using 5 by (simp add: to_valid_utf8.simps(2))
    ultimately show ?thesis
      using 5 Chunk high by simp
  qed
qed

lemma json_chars_line: "CHR 10 \<notin> set (json_chars esc s)"
proof (induction s rule: bytes_induct)
  case Nil
  show ?case by (simp add: json_chars.simps)
next
  case (Chunk c s)
  have high: "CHR 10 \<notin> set (take (utf8_len (c # s)) (c # s))" if "utf8_len (c # s) \<noteq> 0"
    using utf8_len_bytes [OF that, of "CHR 10"] by auto
  have "CHR 10 \<notin> set (json_chars esc (drop n s))" for n using Chunk by simp
  moreover have "CHR 10 \<notin> set (json_chars esc s)" using Chunk by simp
  ultimately show ?case
    using high esc_line [of c] by (simp add: json_chars.simps(2) del: utf8_len.simps)
qed

end

lemma hex_digit_not_newline: "n < 16 \<Longrightarrow> hex_digit n \<noteq> CHR 10"
proof
  assume "n < 16" and "hex_digit n = CHR 10"
  then have "byte_of (hex_digit n) = 10" by simp
  with \<open>n < 16\<close> show False by (simp add: hex_digit_def of_char_of split: if_splits)
qed

lemma json_escape_line: "CHR 10 \<notin> set (json_escape c)"
proof -
  have "byte_of c < 256" by (rule nat_of_char_less_256)
  then have "byte_of c div 16 < 16" "byte_of c mod 16 < 16" by (simp_all add: less_mult_imp_div_less)
  then show ?thesis
    by (auto simp: json_escape_def control_bytes hex_digit_not_newline [THEN not_sym] split: if_splits)
qed

interpretation html_json: json_escaper json_escape
  by unfold_locales (simp_all add: unquote_json_escape json_escape_line)

section \<open>Laws of WriteError\<close>

lemma conn_WriteError:
  "w_conn (WriteError w status b) =
     conn_write (encode_error b) (conn_write_header status
       ((w_conn w)\<lparr>c_header := hdr_set (c_header (w_conn w)) ''Content-Type'' ContentTypeError\<rparr>))"
  by (simp add: WriteError_def set_header_def writer_simps)

lemma recorder_ok_WriteError [writer_simps]: "recorder_ok w \<Longrightarrow> recorder_ok (WriteError w status b)"
  by (simp add: WriteError_def set_header_def recorder_ok_Write recorder_ok_WriteHeader recorder_ok_map_header)

text \<open>On a writer that has sent nothing, a final status and the document go out together.\<close>

definition fresh :: "writer \<Rightarrow> bool" where
  "fresh w \<longleftrightarrow> w_status w = None \<and> \<not> aborted w \<and> w_out w = []"

definition final_status :: "int \<Rightarrow> bool" where
  "final_status s \<longleftrightarrow> 200 \<le> s \<and> s \<le> 999"

lemma WriteError_fresh [writer_simps]:
  assumes "fresh w" and "final_status status"
  shows "w_status (WriteError w status b) = Some status"
    and "w_out (WriteError w status b) = [Chunk (encode_error b)]"
    and "\<not> aborted (WriteError w status b)"
    and "w_sent (WriteError w status b) = hdr_set (w_header w) ''Content-Type'' ContentTypeError"
  using assms
  by (simp_all add: fresh_def final_status_def w_status_def w_out_def aborted_def w_sent_def w_header_def
      conn_WriteError conn_write_def conn_write_header_def Let_def)

lemma WriteError_bad_status:
  assumes "fresh w" and "status < 100 \<or> 999 < status"
  shows "aborted (WriteError w status b)" and "w_out (WriteError w status b) = []"
  using assms
  by (auto simp: fresh_def w_status_def w_out_def aborted_def
      conn_WriteError conn_write_def conn_write_header_def Let_def)

lemma fresh_new_recorder [writer_simps]: "fresh (new_recorder w) = fresh w"
  by (simp add: fresh_def w_status_def aborted_def w_out_def writer_simps)

lemma fresh_new_conn [writer_simps]: "fresh (Conn new_conn)"
  by (simp add: fresh_def w_status_def aborted_def w_out_def new_conn_def)

lemma fresh_set_header [writer_simps]: "fresh (set_header k v w) = fresh w"
  by (simp add: fresh_def w_status_def aborted_def w_out_def set_header_def writer_simps)

lemma aborted_set_header [writer_simps]: "aborted (set_header k v w) = aborted w"
  by (simp add: aborted_def set_header_def writer_simps)

end
