(* ===== verification/LruCache.thy ===== *)
theory LruCache
  imports GoStrings
begin

text \<open>
  The LRU caches with expiry of \<open>license-check\<close> and \<open>tenant-injector\<close>. Both plugins hold a
  \<open>container/list\<close> of entries, newest first, and a map from the key to the list element.

  \<open>lru\<close> is that pair with the element addresses made explicit: the list holds addresses, the
  map sends a key to an address, and \<open>lru_elem\<close> is the memory the addresses point into. The
  operations of \<open>container/list\<close> the code calls are defined on it. The abstract cache is an
  association list from keys to a value and an expiry time, most recently used first; the locale
  \<open>ttl_lru\<close> states what a cache promises in terms of it, and proves once what follows: at
  most \<open>cap\<close> entries, one per key, nothing served after its expiry, the least recently used
  entry the one that goes.
\<close>

section \<open>The list with its element map\<close>

record 'e lru =
  lru_list :: "nat list"
  lru_elem :: "nat \<Rightarrow> 'e option"
  lru_map :: "string \<Rightarrow> nat option"
  lru_next :: nat

definition lru_new :: "'e lru" where
  "lru_new = \<lparr>lru_list = [], lru_elem = (\<lambda>_. None), lru_map = (\<lambda>_. None), lru_next = 0\<rparr>"

text \<open>\<open>list.Remove\<close>, \<open>list.MoveToFront\<close>, \<open>list.PushFront\<close>, \<open>list.Back\<close> and a
  write through an element's \<open>*cacheEntry\<close>.\<close>

definition list_remove :: "nat \<Rightarrow> 'e lru \<Rightarrow> 'e lru" where
  "list_remove a c = c\<lparr>lru_list := remove1 a (lru_list c)\<rparr>"

definition list_move_to_front :: "nat \<Rightarrow> 'e lru \<Rightarrow> 'e lru" where
  "list_move_to_front a c = c\<lparr>lru_list := a # remove1 a (lru_list c)\<rparr>"

definition list_push_front :: "'e \<Rightarrow> 'e lru \<Rightarrow> nat \<times> 'e lru" where
  "list_push_front e c =
     (lru_next c, c\<lparr>lru_list := lru_next c # lru_list c,
        lru_elem := (lru_elem c)(lru_next c := Some e), lru_next := Suc (lru_next c)\<rparr>)"

definition list_back :: "'e lru \<Rightarrow> nat option" where
  "list_back c = (if lru_list c = [] then None else Some (last (lru_list c)))"

definition list_len :: "'e lru \<Rightarrow> int" where
  "list_len c = int (length (lru_list c))"

definition elem_write :: "nat \<Rightarrow> 'e \<Rightarrow> 'e lru \<Rightarrow> 'e lru" where
  "elem_write a e c = c\<lparr>lru_elem := (lru_elem c)(a := Some e)\<rparr>"

definition map_delete :: "string \<Rightarrow> 'e lru \<Rightarrow> 'e lru" where
  "map_delete k c = c\<lparr>lru_map := (lru_map c)(k := None)\<rparr>"

definition map_store :: "string \<Rightarrow> nat \<Rightarrow> 'e lru \<Rightarrow> 'e lru" where
  "map_store k a c = c\<lparr>lru_map := (lru_map c)(k := Some a)\<rparr>"

lemmas lru_op_defs = list_remove_def list_move_to_front_def list_push_front_def list_back_def
  list_len_def elem_write_def map_delete_def map_store_def

section \<open>The representation invariant\<close>

text \<open>
  List and map agree: every address of the list is allocated and its entry's key maps back to it, and
  every key of the map points into the list. \<open>view\<close> gives an entry's key, value and expiry.
\<close>

definition lru_inv :: "('e \<Rightarrow> string \<times> 'v \<times> int) \<Rightarrow> 'e lru \<Rightarrow> bool" where
  "lru_inv view c \<longleftrightarrow>
     distinct (lru_list c) \<and>
     (\<forall>a \<in> set (lru_list c). a < lru_next c \<and>
        (\<exists>e. lru_elem c a = Some e \<and> lru_map c (fst (view e)) = Some a)) \<and>
     (\<forall>k a. lru_map c k = Some a \<longrightarrow>
        a \<in> set (lru_list c) \<and> (\<exists>e. lru_elem c a = Some e \<and> fst (view e) = k))"

definition lru_abs :: "('e \<Rightarrow> string \<times> 'v \<times> int) \<Rightarrow> 'e lru \<Rightarrow> (string \<times> 'v \<times> int) list" where
  "lru_abs view c = map (\<lambda>a. view (the (lru_elem c a))) (lru_list c)"

lemma lru_inv_new: "lru_inv view lru_new"
  by (simp add: lru_inv_def lru_new_def)

lemma lru_abs_new: "lru_abs view lru_new = []"
  by (simp add: lru_abs_def lru_new_def)

lemma lru_invD:
  assumes "lru_inv view c"
  shows "distinct (lru_list c)"
    and "a \<in> set (lru_list c) \<Longrightarrow> a < lru_next c"
    and "a \<in> set (lru_list c) \<Longrightarrow> \<exists>e. lru_elem c a = Some e \<and> lru_map c (fst (view e)) = Some a"
    and "lru_map c k = Some a \<Longrightarrow> a \<in> set (lru_list c)"
    and "lru_map c k = Some a \<Longrightarrow> \<exists>e. lru_elem c a = Some e \<and> fst (view e) = k"
  using assms by (auto simp: lru_inv_def)

lemma length_lru_abs: "length (lru_abs view c) = length (lru_list c)"
  by (simp add: lru_abs_def)

lemma lru_key_addr:
  assumes "lru_inv view c" and "x \<in> set (lru_list c)" and "lru_map c k = Some a"
  shows "fst (view (the (lru_elem c x))) = k \<longleftrightarrow> x = a"
  using lru_invD(3) [OF assms(1,2)] lru_invD(5) [OF assms(1,3)] assms(3) by auto

lemma lru_abs_distinct:
  assumes "lru_inv view c"
  shows "al_distinct (lru_abs view c)"
proof -
  have "inj_on (\<lambda>a. fst (view (the (lru_elem c a)))) (set (lru_list c))"
  proof (rule inj_onI)
    fix x y
    assume x: "x \<in> set (lru_list c)" and y: "y \<in> set (lru_list c)"
      and eq: "fst (view (the (lru_elem c x))) = fst (view (the (lru_elem c y)))"
    from lru_invD(3) [OF assms x] lru_invD(3) [OF assms y] eq show "x = y" by auto
  qed
  then show ?thesis
    using lru_invD(1) [OF assms] by (simp add: al_distinct_def lru_abs_def distinct_map comp_def)
qed

lemma lru_map_None_iff:
  assumes "lru_inv view c"
  shows "lru_map c k = None \<longleftrightarrow> k \<notin> fst ` set (lru_abs view c)"
proof
  assume none: "lru_map c k = None"
  show "k \<notin> fst ` set (lru_abs view c)"
  proof
    assume "k \<in> fst ` set (lru_abs view c)"
    then obtain a where a: "a \<in> set (lru_list c)" and k: "k = fst (view (the (lru_elem c a)))"
      by (auto simp: lru_abs_def)
    from lru_invD(3) [OF assms a] k none show False by auto
  qed
next
  assume notin: "k \<notin> fst ` set (lru_abs view c)"
  show "lru_map c k = None"
  proof (rule ccontr)
    assume "lru_map c k \<noteq> None"
    then obtain a where a: "lru_map c k = Some a" by blast
    from lru_invD(4) [OF assms a] lru_invD(5) [OF assms a] notin show False
      by (force simp: lru_abs_def image_iff)
  qed
qed

lemma lru_map_Some_abs:
  assumes "lru_inv view c" and "lru_map c k = Some a" and "lru_elem c a = Some e"
  shows "map_of (lru_abs view c) k = Some (snd (view e))"
proof -
  have "fst (view e) = k"
    using lru_invD(5) [OF assms(1,2)] assms(3) by auto
  then have "(k, snd (view e)) \<in> set (lru_abs view c)"
    using lru_invD(4) [OF assms(1,2)] assms(3) by (force simp: lru_abs_def image_iff)
  then show ?thesis
    using lru_abs_distinct [OF assms(1)] by (simp add: al_distinct_def)
qed

lemma lru_map_None_abs:
  "lru_inv view c \<Longrightarrow> lru_map c k = None \<Longrightarrow> map_of (lru_abs view c) k = None"
  by (simp add: lru_map_None_iff map_of_eq_None_iff)

section \<open>What the operations do to the abstract cache\<close>

lemma lru_abs_without:
  assumes "lru_inv view c" and "lru_map c k = Some a"
  shows "map (\<lambda>x. view (the (lru_elem c x))) (remove1 a (lru_list c)) = al_del k (lru_abs view c)"
proof -
  have "remove1 a (lru_list c) = filter (\<lambda>x. x \<noteq> a) (lru_list c)"
    using lru_invD(1) [OF assms(1)] by (simp add: distinct_remove1_removeAll removeAll_filter_not_eq eq_commute)
  also have "\<dots> = filter (\<lambda>x. fst (view (the (lru_elem c x))) \<noteq> k) (lru_list c)"
    using lru_key_addr [OF assms(1) _ assms(2)] by (intro filter_cong) auto
  finally show ?thesis
    by (simp add: al_del_def lru_abs_def filter_map comp_def case_prod_beta)
qed

text \<open>An entry removed from list and map.\<close>

lemma lru_remove:
  assumes inv: "lru_inv view c" and k: "lru_map c k = Some a"
  shows "lru_inv view (map_delete k (list_remove a c))"
    and "lru_abs view (map_delete k (list_remove a c)) = al_del k (lru_abs view c)"
proof -
  have key: "fst (view e) \<noteq> k" if "x \<in> set (lru_list c)" "x \<noteq> a" "lru_elem c x = Some e" for x e
    using lru_key_addr [OF inv that(1) k] that by simp
  have addr: "x \<noteq> a" if "lru_map c k' = Some x" "k' \<noteq> k" for x k'
    using lru_invD(5) [OF inv that(1)] lru_invD(5) [OF inv k] that by auto
  show "lru_inv view (map_delete k (list_remove a c))"
    unfolding lru_inv_def
  proof (intro conjI ballI allI impI)
    show "distinct (lru_list (map_delete k (list_remove a c)))"
      using lru_invD(1) [OF inv] by (simp add: lru_op_defs)
  next
    fix x
    assume "x \<in> set (lru_list (map_delete k (list_remove a c)))"
    then have x: "x \<in> set (lru_list c)" "x \<noteq> a"
      using lru_invD(1) [OF inv] by (auto simp: lru_op_defs)
    then show "x < lru_next (map_delete k (list_remove a c))"
      using lru_invD(2) [OF inv] by (simp add: lru_op_defs)
    show "\<exists>e. lru_elem (map_delete k (list_remove a c)) x = Some e \<and>
        lru_map (map_delete k (list_remove a c)) (fst (view e)) = Some x"
      using lru_invD(3) [OF inv x(1)] key [OF x] by (auto simp: lru_op_defs)
  next
    fix k' x
    assume "lru_map (map_delete k (list_remove a c)) k' = Some x"
    then have k': "lru_map c k' = Some x" "k' \<noteq> k"
      by (auto simp: lru_op_defs split: if_splits)
    show "x \<in> set (lru_list (map_delete k (list_remove a c)))"
      using lru_invD(1,4) [OF inv] k' addr [OF k'] by (simp add: lru_op_defs)
    show "\<exists>e. lru_elem (map_delete k (list_remove a c)) x = Some e \<and> fst (view e) = k'"
      using lru_invD(5) [OF inv k'(1)] by (simp add: lru_op_defs)
  qed
  show "lru_abs view (map_delete k (list_remove a c)) = al_del k (lru_abs view c)"
    using lru_abs_without [OF inv k] by (simp add: lru_abs_def lru_op_defs)
qed

text \<open>An entry rewritten in place under its own key, then moved to the front.\<close>

lemma lru_refresh:
  assumes inv: "lru_inv view c" and k: "lru_map c k = Some a" and e': "fst (view e') = k"
  shows "lru_inv view (list_move_to_front a (elem_write a e' c))"
    and "lru_abs view (list_move_to_front a (elem_write a e' c)) = view e' # al_del k (lru_abs view c)"
proof -
  have a: "a \<in> set (lru_list c)" by (rule lru_invD(4) [OF inv k])
  show "lru_inv view (list_move_to_front a (elem_write a e' c))"
    unfolding lru_inv_def
  proof (intro conjI ballI allI impI)
    show "distinct (lru_list (list_move_to_front a (elem_write a e' c)))"
      using lru_invD(1) [OF inv] by (simp add: lru_op_defs)
  next
    fix x
    assume "x \<in> set (lru_list (list_move_to_front a (elem_write a e' c)))"
    then have x: "x \<in> set (lru_list c)"
      using a lru_invD(1) [OF inv] by (auto simp: lru_op_defs)
    then show "x < lru_next (list_move_to_front a (elem_write a e' c))"
      using lru_invD(2) [OF inv] by (simp add: lru_op_defs)
    show "\<exists>e. lru_elem (list_move_to_front a (elem_write a e' c)) x = Some e \<and>
        lru_map (list_move_to_front a (elem_write a e' c)) (fst (view e)) = Some x"
      using lru_invD(3) [OF inv x] k e' by (auto simp: lru_op_defs)
  next
    fix k' x
    assume "lru_map (list_move_to_front a (elem_write a e' c)) k' = Some x"
    then have k': "lru_map c k' = Some x" by (simp add: lru_op_defs)
    show "x \<in> set (lru_list (list_move_to_front a (elem_write a e' c)))"
      using lru_invD(1) [OF inv] lru_invD(4) [OF inv k'] by (auto simp: lru_op_defs)
    show "\<exists>e. lru_elem (list_move_to_front a (elem_write a e' c)) x = Some e \<and> fst (view e) = k'"
      using lru_invD(5) [OF inv k'] lru_invD(5) [OF inv k] e' by (auto simp: lru_op_defs)
  qed
  have "x \<noteq> a" if "x \<in> set (remove1 a (lru_list c))" for x
    using that lru_invD(1) [OF inv] by auto
  then have "map (\<lambda>x. view (the (lru_elem (elem_write a e' c) x))) (remove1 a (lru_list c)) =
      map (\<lambda>x. view (the (lru_elem c x))) (remove1 a (lru_list c))"
    by (intro map_cong) (auto simp: lru_op_defs)
  with lru_abs_without [OF inv k]
  show "lru_abs view (list_move_to_front a (elem_write a e' c)) = view e' # al_del k (lru_abs view c)"
    by (simp add: lru_abs_def lru_op_defs)
qed

lemma elem_write_same: "lru_elem c a = Some e \<Longrightarrow> elem_write a e c = c"
  by (simp add: elem_write_def fun_upd_idem)

lemma lru_touch:
  assumes "lru_inv view c" and "lru_map c k = Some a" and "lru_elem c a = Some e"
  shows "lru_inv view (list_move_to_front a c)"
    and "lru_abs view (list_move_to_front a c) = view e # al_del k (lru_abs view c)"
proof -
  have "fst (view e) = k"
    using lru_invD(5) [OF assms(1,2)] assms(3) by auto
  from lru_refresh [OF assms(1,2) this] elem_write_same [OF assms(3)]
  show "lru_inv view (list_move_to_front a c)"
    and "lru_abs view (list_move_to_front a c) = view e # al_del k (lru_abs view c)"
    by simp_all
qed

text \<open>A new entry.\<close>

lemma lru_push:
  assumes inv: "lru_inv view c" and k: "lru_map c k = None" and e: "fst (view e) = k"
    and push: "list_push_front e c = (a, c')"
  shows "lru_inv view (map_store k a c')"
    and "lru_abs view (map_store k a c') = view e # lru_abs view c"
proof -
  have a: "a = lru_next c"
    and c': "c' = c\<lparr>lru_list := a # lru_list c, lru_elem := (lru_elem c)(a := Some e), lru_next := Suc a\<rparr>"
    using push by (auto simp: list_push_front_def)
  have fresh: "a \<notin> set (lru_list c)"
    using lru_invD(2) [OF inv, of a] a by auto
  have old: "x \<noteq> a" if "x \<in> set (lru_list c)" for x
    using that fresh by auto
  have mapped: "x \<noteq> a" if "lru_map c k' = Some x" for x k'
    using old lru_invD(4) [OF inv that] by blast
  show "lru_inv view (map_store k a c')"
    unfolding lru_inv_def
  proof (intro conjI ballI allI impI)
    show "distinct (lru_list (map_store k a c'))"
      using lru_invD(1) [OF inv] fresh by (simp add: c' map_store_def)
  next
    fix x
    assume x: "x \<in> set (lru_list (map_store k a c'))"
    then show "x < lru_next (map_store k a c')"
      using lru_invD(2) [OF inv, of x] a by (auto simp: c' map_store_def)
    show "\<exists>e. lru_elem (map_store k a c') x = Some e \<and> lru_map (map_store k a c') (fst (view e)) = Some x"
    proof (cases "x = a")
      case True
      then show ?thesis using e by (simp add: c' map_store_def)
    next
      case False
      with x have "x \<in> set (lru_list c)" by (simp add: c' map_store_def)
      from lru_invD(3) [OF inv this] obtain e' where
        "lru_elem c x = Some e'" "lru_map c (fst (view e')) = Some x" by blast
      with k False show ?thesis
        by (intro exI [of _ e']) (auto simp: c' map_store_def)
    qed
  next
    fix k' x
    assume k': "lru_map (map_store k a c') k' = Some x"
    show "x \<in> set (lru_list (map_store k a c'))"
      using k' lru_invD(4) [OF inv, of k' x] by (auto simp: c' map_store_def split: if_splits)
    show "\<exists>e. lru_elem (map_store k a c') x = Some e \<and> fst (view e) = k'"
      using k' e lru_invD(5) [OF inv, of k' x] mapped [of k' x]
      by (auto simp: c' map_store_def split: if_splits)
  qed
  show "lru_abs view (map_store k a c') = view e # lru_abs view c"
    using old by (auto simp: lru_abs_def c' map_store_def)
qed

text \<open>The tail, removed from list and map.\<close>

lemma lru_evict:
  assumes inv: "lru_inv view c" and tail: "list_back c = Some a" and e: "lru_elem c a = Some e"
  shows "lru_inv view (map_delete (fst (view e)) (list_remove a c))"
    and "lru_abs view (map_delete (fst (view e)) (list_remove a c)) = butlast (lru_abs view c)"
proof -
  have ne: "lru_list c \<noteq> []" and a: "a = last (lru_list c)"
    using tail by (auto simp: list_back_def split: if_splits)
  then have "a \<in> set (lru_list c)" by simp
  from lru_invD(3) [OF inv this] e have k: "lru_map c (fst (view e)) = Some a" by simp
  show "lru_inv view (map_delete (fst (view e)) (list_remove a c))"
    by (rule lru_remove(1) [OF inv k])
  have "remove1 a (lru_list c) = butlast (lru_list c)"
  proof -
    have "lru_list c = butlast (lru_list c) @ [a]" using ne a by simp
    moreover have "a \<notin> set (butlast (lru_list c))"
      using lru_invD(1) [OF inv] calculation by (metis distinct_append disjoint_insert(1) list.simps(15))
    ultimately show ?thesis by (metis append_Nil2 remove1.simps(2) remove1_append)
  qed
  then show "lru_abs view (map_delete (fst (view e)) (list_remove a c)) = butlast (lru_abs view c)"
    by (simp add: lru_abs_def lru_op_defs map_butlast)
qed

lemma list_back_elem:
  "lru_inv view c \<Longrightarrow> list_back c = Some a \<Longrightarrow> \<exists>e. lru_elem c a = Some e"
  using lru_invD(3) [of view c a] by (auto simp: list_back_def split: if_splits)

section \<open>The contract of a cache with expiry\<close>

text \<open>The abstract operations.\<close>

definition spec_get :: "int \<Rightarrow> string \<Rightarrow> (string \<times> 'v \<times> int) list \<Rightarrow> 'v option \<times> (string \<times> 'v \<times> int) list" where
  "spec_get now k ps =
     (case map_of ps k of
        None \<Rightarrow> (None, ps)
      | Some (v, t) \<Rightarrow> if t < now then (None, al_del k ps) else (Some v, (k, v, t) # al_del k ps))"

definition spec_set :: "int \<Rightarrow> int \<Rightarrow> string \<Rightarrow> 'v \<Rightarrow> (string \<times> 'v \<times> int) list \<Rightarrow> (string \<times> 'v \<times> int) list" where
  "spec_set cap t k v ps =
     (if map_of ps k \<noteq> None then (k, v, t) # al_del k ps
      else (k, v, t) # (if cap \<le> int (length ps) then butlast ps else ps))"

lemma spec_get_None: "spec_get now k ps = (None, qs) \<Longrightarrow> map_of qs k = None"
  by (auto simp: spec_get_def split: option.splits if_splits)

text \<open>Operations as data, so that a run of the cache is a list.\<close>

datatype 'v cache_op = OpGet int string | OpSet int string 'v

text \<open>
  \<open>get now k\<close> looks a key up at a time, \<open>put t k v\<close> stores a value that expires at \<open>t\<close>.
\<close>

locale ttl_lru =
  fixes get :: "int \<Rightarrow> string \<Rightarrow> 'c \<Rightarrow> 'v option \<times> 'c"
    and put :: "int \<Rightarrow> string \<Rightarrow> 'v \<Rightarrow> 'c \<Rightarrow> 'c"
    and cap :: "'c \<Rightarrow> int"
    and inv :: "'c \<Rightarrow> bool"
    and abs :: "'c \<Rightarrow> (string \<times> 'v \<times> int) list"
  assumes get_refines: "inv c \<Longrightarrow> get now k c = (r, c') \<Longrightarrow> (r, abs c') = spec_get now k (abs c)"
    and put_refines: "inv c \<Longrightarrow> abs (put t k v c) = spec_set (cap c) t k v (abs c)"
    and get_inv: "inv c \<Longrightarrow> get now k c = (r, c') \<Longrightarrow> inv c'"
    and put_inv: "inv c \<Longrightarrow> inv (put t k v c)"
    and get_cap: "get now k c = (r, c') \<Longrightarrow> cap c' = cap c"
    and put_cap: "cap (put t k v c) = cap c"
    and inv_distinct: "inv c \<Longrightarrow> al_distinct (abs c)"
begin

fun step :: "'v cache_op \<Rightarrow> 'c \<Rightarrow> 'c" where
  "step (OpGet now k) c = snd (get now k c)"
| "step (OpSet t k v) c = put t k v c"

lemma snd_get_inv: "inv c \<Longrightarrow> inv (snd (get now k c))"
  by (rule get_inv [OF _ prod.collapse [symmetric]])

lemma snd_get_cap: "cap (snd (get now k c)) = cap c"
  by (rule get_cap [OF prod.collapse [symmetric]])

lemma step_inv: "inv c \<Longrightarrow> inv (step opr c)"
  by (cases opr) (auto intro: put_inv snd_get_inv)

lemma step_cap: "cap (step opr c) = cap c"
  by (cases opr) (auto simp: put_cap snd_get_cap)

lemma run_inv: "inv c \<Longrightarrow> inv (fold step ops c)"
  by (induction ops arbitrary: c) (auto intro: step_inv)

lemma run_cap: "cap (fold step ops c) = cap c"
  by (induction ops arbitrary: c) (auto simp: step_cap)

lemma abs_get: "inv c \<Longrightarrow> abs (snd (get now k c)) = snd (spec_get now k (abs c))"
  using get_refines [of c now k "fst (get now k c)" "snd (get now k c)"] by (metis prod.collapse snd_conv)

text \<open>Never more entries than the capacity.\<close>

lemma step_bounded:
  assumes "inv c" and "0 < cap c" and "int (length (abs c)) \<le> cap c"
  shows "int (length (abs (step opr c))) \<le> cap c"
proof (cases opr)
  case (OpGet now k)
  have "length (abs (snd (get now k c))) \<le> length (abs c)"
    using map_of_Some_length_al_del [OF inv_distinct [OF assms(1)], of k]
    by (auto simp: abs_get [OF assms(1)] spec_get_def length_al_del_le split: option.splits)
  with OpGet assms(3) show ?thesis by simp
next
  case (OpSet t k v)
  show ?thesis
  proof (cases "map_of (abs c) k")
    case None
    then show ?thesis
      using assms OpSet by (auto simp: put_refines spec_set_def)
  next
    case (Some p)
    then show ?thesis
      using assms OpSet map_of_Some_length_al_del [OF inv_distinct [OF assms(1)], of k p]
      by (simp add: put_refines spec_set_def)
  qed
qed

lemma run_bounded:
  "inv c \<Longrightarrow> 0 < cap c \<Longrightarrow> int (length (abs c)) \<le> cap c \<Longrightarrow>
     int (length (abs (fold step ops c))) \<le> cap c"
proof (induction ops arbitrary: c)
  case Nil
  then show ?case by simp
next
  case (Cons opr ops)
  from Cons.prems have "int (length (abs (step opr c))) \<le> cap (step opr c)"
    by (simp add: step_cap step_bounded)
  with Cons.prems Cons.IH [of "step opr c"] show ?case
    by (simp add: step_cap step_inv)
qed

text \<open>A hit is the stored value of an entry that has not expired.\<close>

lemma hit_is_live:
  assumes "inv c" and "get now k c = (Some v, c')"
  obtains t where "map_of (abs c) k = Some (v, t)" and "now \<le> t"
  using get_refines [OF assms] that by (auto simp: spec_get_def split: option.splits if_splits)

lemma miss_when_expired:
  assumes "inv c" and "map_of (abs c) k = Some (v, t)" and "t < now"
  shows "fst (get now k c) = None" and "map_of (abs (snd (get now k c))) k = None"
proof -
  obtain r c' where g: "get now k c = (r, c')" by (cases "get now k c")
  from get_refines [OF assms(1) g] assms(2,3) g
  show "fst (get now k c) = None" and "map_of (abs (snd (get now k c))) k = None"
    by (auto simp: spec_get_def)
qed

text \<open>A value stored is found until it expires.\<close>

lemma get_after_put:
  assumes "inv c" and "now \<le> t"
  shows "fst (get now k (put t k v c)) = Some v"
proof -
  obtain r c' where g: "get now k (put t k v c) = (r, c')" by (cases "get now k (put t k v c)")
  from get_refines [OF put_inv [OF assms(1)] g] assms g show ?thesis
    by (auto simp: put_refines spec_set_def spec_get_def split: if_splits)
qed

text \<open>A store of another key keeps every entry but, when the cache is full, the least recently used.\<close>

lemma put_keeps_others:
  assumes "inv c" and "k' \<noteq> k" and "map_of (abs c) k' = Some p"
    and "abs c = [] \<or> fst (last (abs c)) \<noteq> k' \<or> int (length (abs c)) < cap c"
  shows "map_of (abs (put t k v c)) k' = Some p"
proof -
  have "abs c \<noteq> []" using assms(3) by auto
  with assms show ?thesis
    by (auto simp: put_refines spec_set_def map_of_butlast_other)
qed

text \<open>What a lookup serves was stored by an earlier operation of the run, under this very key.\<close>

lemma step_entry:
  assumes "inv c" and "map_of (abs (step opr c)) k = Some (v, t)"
  shows "map_of (abs c) k = Some (v, t) \<or> opr = OpSet t k v"
proof (cases opr)
  case (OpGet now k')
  then show ?thesis
    using assms abs_get [OF assms(1), of now k']
    by (auto simp: spec_get_def split: option.splits if_splits prod.splits)
next
  case (OpSet t' k' v')
  show ?thesis
    using assms OpSet map_of_butlast_Some [of "abs c" k "(v, t)"]
    by (auto simp: put_refines spec_set_def split: if_splits)
qed

lemma run_entry:
  "inv c \<Longrightarrow> map_of (abs (fold step ops c)) k = Some (v, t) \<Longrightarrow>
     map_of (abs c) k = Some (v, t) \<or> OpSet t k v \<in> set ops"
proof (induction ops arbitrary: c)
  case Nil
  then show ?case by simp
next
  case (Cons opr ops)
  from Cons.prems Cons.IH [of "step opr c"] have
    "map_of (abs (step opr c)) k = Some (v, t) \<or> OpSet t k v \<in> set ops"
    by (simp add: step_inv)
  with step_entry [OF Cons.prems(1), of opr k v t] show ?case by auto
qed

lemma run_serves_stored:
  assumes "inv c" and "abs c = []" and "get now k (fold step ops c) = (Some v, c')"
  shows "\<exists>t. OpSet t k v \<in> set ops \<and> now \<le> t"
proof -
  obtain t where "map_of (abs (fold step ops c)) k = Some (v, t)" "now \<le> t"
    using hit_is_live [OF run_inv [OF assms(1)] assms(3)] .
  with run_entry [OF assms(1), of ops k v t] assms(2) show ?thesis by auto
qed

end

end
