(* ===== verification/LicenseCheck.thy ===== *)
theory LicenseCheck
  imports Response LruCache
begin

text \<open>
  \<open>internal/plugins/licensecheck\<close>: the license token of a request is looked up in an LRU
  cache, and on a miss verified against the license server, at most twice. \<open>license_check\<close> is
  the plugin's struct; the inputs of one request are the two readings of the clock and the answers of
  the server, by attempt.
\<close>

section \<open>State and inputs\<close>

record lc_entry =
  lce_token :: string
  lce_valid :: bool
  lce_expireAt :: int

record license_check =
  lc_header :: string
  lc_licenseURL :: string
  lc_cacheTTL :: int
  lc_maxSize :: int
  lc_timeout :: int
  lc_lru :: "lc_entry lru"

record lc_inputs =
  lci_lookup :: int
  lci_answer :: "nat \<Rightarrow> out_request \<Rightarrow> net_result"
  lci_store :: int

definition lc_view :: "lc_entry \<Rightarrow> string \<times> bool \<times> int" where
  "lc_view e = (lce_token e, lce_valid e, lce_expireAt e)"

section \<open>Init\<close>

definition lc_Init :: "go_lib \<Rightarrow> map_config \<Rightarrow> license_check \<Rightarrow> string + license_check" where
  "lc_Init lib cfg lc =
     (let licURL = GetString cfg ''license_url'' in
      if licURL = '''' then Inl ''license-check: license_url must be configured''
      else if (case url_parse lib licURL of None \<Rightarrow> True | Some (scheme, host) \<Rightarrow> scheme = '''' \<or> host = '''')
      then Inl (''license-check: license_url '' @ fmt_quote lib licURL @ '' must be a valid absolute URL (http or https)'')
      else
        let hdr = str_or (GetString cfg ''header'') ''X-License-Token'';
            ttlSecs = int_or (GetInt cfg ''cache_ttl_seconds'') 300;
            maxSize = int_or (GetInt cfg ''max_cache_size'') 1024;
            timeoutSecs = int_or (GetInt cfg ''timeout_seconds'') 5
        in Inr (lc\<lparr>lc_header := hdr, lc_licenseURL := licURL, lc_cacheTTL := dur_seconds ttlSecs,
             lc_maxSize := maxSize, lc_timeout := dur_seconds timeoutSecs, lc_lru := lru_new\<rparr>))"

section \<open>The cache\<close>

definition lc_cacheGet :: "int \<Rightarrow> string \<Rightarrow> license_check \<Rightarrow> (bool \<times> bool) \<times> license_check" where
  "lc_cacheGet now token lc =
     (let c = lc_lru lc in
      case lru_map c token of
        None \<Rightarrow> ((False, False), lc)
      | Some el \<Rightarrow>
          (case lru_elem c el of
             None \<Rightarrow> ((False, False), lc)
           | Some entry \<Rightarrow>
               if lce_expireAt entry < now
               then ((False, False), lc\<lparr>lc_lru := map_delete token (list_remove el c)\<rparr>)
               else ((lce_valid entry, True), lc\<lparr>lc_lru := list_move_to_front el c\<rparr>)))"

definition lc_evict :: "int \<Rightarrow> lc_entry lru \<Rightarrow> lc_entry lru" where
  "lc_evict maxSize c =
     (if maxSize \<le> list_len c then
        (case list_back c of
           None \<Rightarrow> c
         | Some el \<Rightarrow>
             (case lru_elem c el of
                None \<Rightarrow> c
              | Some e \<Rightarrow> map_delete (lce_token e) (list_remove el c)))
      else c)"

definition lc_cacheSet :: "int \<Rightarrow> string \<Rightarrow> bool \<Rightarrow> license_check \<Rightarrow> license_check" where
  "lc_cacheSet now token valid lc =
     (let c = lc_lru lc in
      case lru_map c token of
        Some el \<Rightarrow>
          lc\<lparr>lc_lru := list_move_to_front el (elem_write el
             \<lparr>lce_token = token, lce_valid = valid, lce_expireAt = now + lc_cacheTTL lc\<rparr> c)\<rparr>
      | None \<Rightarrow>
          (let c = lc_evict (lc_maxSize lc) c;
               (el, c) = list_push_front
                 \<lparr>lce_token = token, lce_valid = valid, lce_expireAt = now + lc_cacheTTL lc\<rparr> c
           in lc\<lparr>lc_lru := map_store token el c\<rparr>))"

definition lc_inv :: "license_check \<Rightarrow> bool" where
  "lc_inv lc \<longleftrightarrow> lru_inv lc_view (lc_lru lc)"

definition lc_abs :: "license_check \<Rightarrow> (string \<times> bool \<times> int) list" where
  "lc_abs lc = lru_abs lc_view (lc_lru lc)"

text \<open>The cache in the shape of the contract: a hit is \<open>Some\<close>, and the expiry is given.\<close>

definition lc_lookup :: "int \<Rightarrow> string \<Rightarrow> license_check \<Rightarrow> bool option \<times> license_check" where
  "lc_lookup now token lc =
     (case lc_cacheGet now token lc of ((valid, hit), lc') \<Rightarrow> (if hit then Some valid else None, lc'))"

definition lc_store_until :: "int \<Rightarrow> string \<Rightarrow> bool \<Rightarrow> license_check \<Rightarrow> license_check" where
  "lc_store_until t token valid lc = lc_cacheSet (t - lc_cacheTTL lc) token valid lc"

lemma fst_lc_view [simp]: "fst (lc_view e) = lce_token e"
  by (simp add: lc_view_def)

lemma lc_evict_correct:
  assumes "lru_inv lc_view c"
  shows "lru_inv lc_view (lc_evict m c)"
    and "lru_abs lc_view (lc_evict m c) =
      (if m \<le> int (length (lru_abs lc_view c)) then butlast (lru_abs lc_view c) else lru_abs lc_view c)"
    and "lru_map c k = None \<Longrightarrow> lru_map (lc_evict m c) k = None"
proof -
  consider "\<not> m \<le> list_len c" | "m \<le> list_len c" "list_back c = None"
    | a e where "m \<le> list_len c" "list_back c = Some a" "lru_elem c a = Some e"
    using list_back_elem [OF assms] by (cases "list_back c") auto
  then have "lru_inv lc_view (lc_evict m c) \<and>
      lru_abs lc_view (lc_evict m c) =
        (if m \<le> int (length (lru_abs lc_view c)) then butlast (lru_abs lc_view c) else lru_abs lc_view c) \<and>
      (lru_map c k = None \<longrightarrow> lru_map (lc_evict m c) k = None)"
  proof cases
    case 1
    then show ?thesis
      using assms by (simp add: lc_evict_def list_len_def length_lru_abs)
  next
    case 2
    then show ?thesis
      using assms by (simp add: lc_evict_def lru_abs_def list_back_def split: if_splits)
  next
    case 3
    then show ?thesis
      using lru_evict [OF assms 3(2,3)]
      by (simp add: lc_evict_def list_len_def length_lru_abs map_delete_def list_remove_def)
  qed
  then show "lru_inv lc_view (lc_evict m c)"
    and "lru_abs lc_view (lc_evict m c) =
      (if m \<le> int (length (lru_abs lc_view c)) then butlast (lru_abs lc_view c) else lru_abs lc_view c)"
    and "lru_map c k = None \<Longrightarrow> lru_map (lc_evict m c) k = None"
    by blast+
qed

lemma lc_lookup_refines:
  assumes "lc_inv lc"
  shows "(fst (lc_lookup now k lc), lc_abs (snd (lc_lookup now k lc))) = spec_get now k (lc_abs lc)"
    and "lc_inv (snd (lc_lookup now k lc))"
proof -
  let ?c = "lc_lru lc"
  have inv: "lru_inv lc_view ?c" using assms by (simp add: lc_inv_def)
  have "(fst (lc_lookup now k lc), lc_abs (snd (lc_lookup now k lc))) = spec_get now k (lc_abs lc) \<and>
      lc_inv (snd (lc_lookup now k lc))"
  proof (cases "lru_map ?c k")
    case None
    then show ?thesis
      using assms lru_map_None_abs [OF inv None]
      by (simp add: lc_lookup_def lc_cacheGet_def lc_abs_def spec_get_def)
  next
    case (Some a)
    then obtain e where e: "lru_elem ?c a = Some e"
      using lru_invD(5) [OF inv Some] by blast
    note lookup = lru_map_Some_abs [OF inv Some e]
    have k: "lce_token e = k" using lru_invD(5) [OF inv Some] e by simp
    show ?thesis
      using lookup k Some e lru_remove [OF inv Some] lru_touch [OF inv Some e]
      by (simp add: lc_lookup_def lc_cacheGet_def lc_abs_def lc_inv_def spec_get_def lc_view_def)
  qed
  then show "(fst (lc_lookup now k lc), lc_abs (snd (lc_lookup now k lc))) = spec_get now k (lc_abs lc)"
    and "lc_inv (snd (lc_lookup now k lc))" by blast+
qed

lemma lc_cacheSet_refines:
  assumes "lc_inv lc"
  shows "lc_abs (lc_cacheSet now k v lc) = spec_set (lc_maxSize lc) (now + lc_cacheTTL lc) k v (lc_abs lc)"
    and "lc_inv (lc_cacheSet now k v lc)"
proof -
  let ?c = "lc_lru lc"
  let ?e = "\<lparr>lce_token = k, lce_valid = v, lce_expireAt = now + lc_cacheTTL lc\<rparr>"
  have inv: "lru_inv lc_view ?c" using assms by (simp add: lc_inv_def)
  have "lc_abs (lc_cacheSet now k v lc) = spec_set (lc_maxSize lc) (now + lc_cacheTTL lc) k v (lc_abs lc) \<and>
      lc_inv (lc_cacheSet now k v lc)"
  proof (cases "lru_map ?c k")
    case (Some a)
    then obtain e where e: "lru_elem ?c a = Some e"
      using lru_invD(5) [OF inv Some] by blast
    show ?thesis
      using lru_map_Some_abs [OF inv Some e] Some lru_refresh [OF inv Some, of ?e]
      by (simp add: lc_cacheSet_def lc_abs_def lc_inv_def spec_set_def lc_view_def)
  next
    case None
    note ev = lc_evict_correct [OF inv, where m = "lc_maxSize lc"]
    obtain a c' where push: "list_push_front ?e (lc_evict (lc_maxSize lc) ?c) = (a, c')"
      by (cases "list_push_front ?e (lc_evict (lc_maxSize lc) ?c)")
    show ?thesis
      using None lru_map_None_abs [OF inv None] ev(2) push
        lru_push [OF ev(1) ev(3) [OF None] _ push]
      by (simp add: lc_cacheSet_def lc_abs_def lc_inv_def spec_set_def lc_view_def)
  qed
  then show "lc_abs (lc_cacheSet now k v lc) = spec_set (lc_maxSize lc) (now + lc_cacheTTL lc) k v (lc_abs lc)"
    and "lc_inv (lc_cacheSet now k v lc)" by blast+
qed

lemma lc_cacheGet_frame [simp]:
  "lc_maxSize (snd (lc_cacheGet now k lc)) = lc_maxSize lc"
  "lc_cacheTTL (snd (lc_cacheGet now k lc)) = lc_cacheTTL lc"
  "lc_header (snd (lc_cacheGet now k lc)) = lc_header lc"
  "lc_licenseURL (snd (lc_cacheGet now k lc)) = lc_licenseURL lc"
  by (auto simp: lc_cacheGet_def Let_def split: option.splits)

lemma lc_cacheGet_TTL: "lc_cacheGet now k lc = (p, lc') \<Longrightarrow> lc_cacheTTL lc' = lc_cacheTTL lc"
  using lc_cacheGet_frame(2) [of now k lc] by simp

lemma lc_cacheSet_frame [simp]:
  "lc_maxSize (lc_cacheSet now k v lc) = lc_maxSize lc"
  "lc_cacheTTL (lc_cacheSet now k v lc) = lc_cacheTTL lc"
  "lc_header (lc_cacheSet now k v lc) = lc_header lc"
  "lc_licenseURL (lc_cacheSet now k v lc) = lc_licenseURL lc"
  by (auto simp: lc_cacheSet_def Let_def split: option.splits prod.splits)

lemma lc_inv_distinct: "lc_inv lc \<Longrightarrow> al_distinct (lc_abs lc)"
  by (simp add: lc_inv_def lc_abs_def lru_abs_distinct)

lemma snd_lc_lookup: "snd (lc_lookup now k lc) = snd (lc_cacheGet now k lc)"
  by (simp add: lc_lookup_def case_prod_beta)

interpretation lic_cache: ttl_lru lc_lookup lc_store_until lc_maxSize lc_inv lc_abs
proof unfold_locales
  fix c now k r c'
  assume "lc_inv c" and g: "lc_lookup now k c = (r, c')"
  then show "(r, lc_abs c') = spec_get now k (lc_abs c)"
    using lc_lookup_refines(1) [of c now k] by simp
next
  fix c now k r c'
  assume "lc_inv c" and g: "lc_lookup now k c = (r, c')"
  then show "lc_inv c'"
    using lc_lookup_refines(2) [of c now k] by simp
next
  fix c now k r c'
  assume "lc_lookup now k c = (r, c')"
  then show "lc_maxSize c' = lc_maxSize c"
    using snd_lc_lookup [of now k c] lc_cacheGet_frame(1) [of now k c] by simp
qed (simp_all add: lc_store_until_def lc_cacheSet_refines lc_inv_distinct)

section \<open>Verification against the license server\<close>

text \<open>The request of one attempt.\<close>

definition lc_request :: "license_check \<Rightarrow> string \<Rightarrow> out_request" where
  "lc_request lc token =
     (let req = \<lparr>o_method = ''GET'', o_url = lc_licenseURL lc, o_header = no_header\<rparr>
      in if token \<noteq> '''' then set_out_header ''Authorization'' (''Bearer '' @ token) req else req)"

text \<open>The retry loop, with the attempts left and the number of the next one.\<close>

fun lc_verify_loop :: "go_lib \<Rightarrow> lc_inputs \<Rightarrow> license_check \<Rightarrow> string \<Rightarrow> nat \<Rightarrow> nat \<Rightarrow> bool \<times> string" where
  "lc_verify_loop lib inp lc token 0 attempt = (False, ''license-server'')"
| "lc_verify_loop lib inp lc token (Suc left) attempt =
     (if url_parse lib (lc_licenseURL lc) = None then (False, ''license-server'')
      else case lci_answer inp attempt (lc_request lc token) of
             NetErr \<Rightarrow> lc_verify_loop lib inp lc token left (Suc attempt)
           | NetStatus st \<Rightarrow> if 200 \<le> st \<and> st < 300 then (True, '''') else (False, ''''))"

definition lc_maxAttempts :: nat where "lc_maxAttempts = 2"

definition lc_verify :: "go_lib \<Rightarrow> lc_inputs \<Rightarrow> license_check \<Rightarrow> string \<Rightarrow> bool \<times> string" where
  "lc_verify lib inp lc token = lc_verify_loop lib inp lc token lc_maxAttempts 0"

section \<open>Handler\<close>

definition lc_forbidden :: "http_request \<Rightarrow> string \<Rightarrow> string \<Rightarrow> error_body" where
  "lc_forbidden r msg dep =
     \<lparr>ErrType = ''forbidden'', Code = ''license_invalid'', Message = msg, RetryAfter = 0,
      Trace = trace_of (CorrelationID (r_ctx r)) (RequestID (r_ctx r)) dep\<rparr>"

definition lc_handle :: "go_lib \<Rightarrow> lc_inputs \<Rightarrow> license_check decision" where
  "lc_handle lib inp r w lc =
     (let token = req_header r (lc_header lc) in
      case lc_cacheGet (lci_lookup inp) token lc of
        ((valid, hit), lc) \<Rightarrow>
          if hit then
            (if valid then (Next r w, lc)
             else (Respond (WriteError w 403 (lc_forbidden r ''license token is not valid'' '''')), lc))
          else
            (case lc_verify lib inp lc token of
               (valid, dep) \<Rightarrow>
                 if valid then (Next r w, lc_cacheSet (lci_store inp) token True lc)
                 else
                   (Respond (WriteError w 403 (lc_forbidden r ''license verification failed'' dep)),
                    if dep = '''' then lc_cacheSet (lci_store inp) token False lc else lc)))"

interpretation lc_mw: middleware "middleware_of get put (lc_handle lib inp)" for get put lib inp
  by (rule middleware_middleware_of)

text \<open>The server accepted the token at the first attempt, or at the second after a network error.\<close>

definition lc_server_accepts :: "lc_inputs \<Rightarrow> license_check \<Rightarrow> string \<Rightarrow> bool" where
  "lc_server_accepts inp lc token \<longleftrightarrow>
     (\<exists>st. 200 \<le> st \<and> st < 300 \<and>
        (lci_answer inp 0 (lc_request lc token) = NetStatus st \<or>
         lci_answer inp 0 (lc_request lc token) = NetErr \<and> lci_answer inp 1 (lc_request lc token) = NetStatus st))"

lemma lc_verify_cases:
  "lc_verify lib inp lc token =
     (if url_parse lib (lc_licenseURL lc) = None then (False, ''license-server'')
      else case lci_answer inp 0 (lc_request lc token) of
             NetStatus st \<Rightarrow> (200 \<le> st \<and> st < 300, '''')
           | NetErr \<Rightarrow>
               (case lci_answer inp 1 (lc_request lc token) of
                  NetStatus st \<Rightarrow> (200 \<le> st \<and> st < 300, '''')
                | NetErr \<Rightarrow> (False, ''license-server'')))"
  by (auto simp: lc_verify_def lc_maxAttempts_def numeral_2_eq_2 split: net_result.split)

lemma lc_verify_True: "lc_verify lib inp lc token = (True, dep) \<Longrightarrow> lc_server_accepts inp lc token"
  by (auto simp: lc_verify_cases lc_server_accepts_def split: net_result.splits if_splits)

lemma lc_request_frame [simp]:
  "lc_request (snd (lc_cacheGet now k lc)) token = lc_request lc token"
  "lc_request (lc_cacheSet now k v lc) token = lc_request lc token"
  by (simp_all add: lc_request_def)

lemma lc_handle_frame:
  "lc_maxSize (snd (lc_handle lib inp r w lc)) = lc_maxSize lc"
  "lc_cacheTTL (snd (lc_handle lib inp r w lc)) = lc_cacheTTL lc"
  "lc_header (snd (lc_handle lib inp r w lc)) = lc_header lc"
  "lc_licenseURL (snd (lc_handle lib inp r w lc)) = lc_licenseURL lc"
  by (simp_all add: lc_handle_def Let_def case_prod_beta)

text \<open>In terms of the contract: a handled request is a lookup and at most one store.\<close>

definition lc_ops :: "go_lib \<Rightarrow> lc_inputs \<Rightarrow> http_request \<Rightarrow> license_check \<Rightarrow> bool cache_op list" where
  "lc_ops lib inp r lc =
     (let token = req_header r (lc_header lc);
          t = lci_store inp + lc_cacheTTL lc;
          look = OpGet (lci_lookup inp) token
      in case lc_lookup (lci_lookup inp) token lc of
           (Some _, _) \<Rightarrow> [look]
         | (None, lc') \<Rightarrow>
             (case lc_verify lib inp lc' token of
                (True, _) \<Rightarrow> [look, OpSet t token True]
              | (False, dep) \<Rightarrow> if dep = '''' then [look, OpSet t token False] else [look]))"

lemma lc_handle_ops:
  "snd (lc_handle lib inp r w lc) = fold lic_cache.step (lc_ops lib inp r lc) lc"
  by (auto simp: lc_handle_def lc_ops_def lc_lookup_def lc_store_until_def Let_def
      dest: lc_cacheGet_TTL split: prod.splits bool.splits if_splits)

lemma lc_handle_inv: "lc_inv lc \<Longrightarrow> lc_inv (snd (lc_handle lib inp r w lc))"
  unfolding lc_handle_ops by (rule lic_cache.run_inv)

lemma lc_handle_bounded:
  "lc_inv lc \<Longrightarrow> 0 < lc_maxSize lc \<Longrightarrow> int (length (lc_abs lc)) \<le> lc_maxSize lc \<Longrightarrow>
     int (length (lc_abs (snd (lc_handle lib inp r w lc)))) \<le> lc_maxSize lc"
  unfolding lc_handle_ops by (rule lic_cache.run_bounded)

section \<open>Runs\<close>

type_synonym lc_event = "lc_inputs \<times> http_request \<times> writer"

definition lc_serve :: "go_lib \<Rightarrow> lc_event \<Rightarrow> license_check \<Rightarrow> license_check" where
  "lc_serve lib ev lc = (case ev of (inp, r, w) \<Rightarrow> snd (lc_handle lib inp r w lc))"

definition lc_run :: "go_lib \<Rightarrow> lc_event list \<Rightarrow> license_check \<Rightarrow> license_check" where
  "lc_run lib evs lc = fold (lc_serve lib) evs lc"

lemma lc_run_Nil [simp]: "lc_run lib [] lc = lc"
  by (simp add: lc_run_def)

lemma lc_run_snoc [simp]: "lc_run lib (evs @ [ev]) lc = lc_serve lib ev (lc_run lib evs lc)"
  by (simp add: lc_run_def)

lemma lc_serve_frame:
  "lc_maxSize (lc_serve lib ev lc) = lc_maxSize lc"
  "lc_cacheTTL (lc_serve lib ev lc) = lc_cacheTTL lc"
  "lc_header (lc_serve lib ev lc) = lc_header lc"
  "lc_licenseURL (lc_serve lib ev lc) = lc_licenseURL lc"
  by (simp_all add: lc_serve_def lc_handle_frame split: prod.splits)

lemma lc_run_frame [simp]:
  "lc_maxSize (lc_run lib evs lc) = lc_maxSize lc"
  "lc_cacheTTL (lc_run lib evs lc) = lc_cacheTTL lc"
  "lc_header (lc_run lib evs lc) = lc_header lc"
  "lc_licenseURL (lc_run lib evs lc) = lc_licenseURL lc"
  by (induction evs rule: rev_induct) (simp_all add: lc_serve_frame)

lemma lc_run_request [simp]: "lc_request (lc_run lib evs lc) token = lc_request lc token"
  by (simp add: lc_request_def)

lemma lc_run_inv: "lc_inv lc \<Longrightarrow> lc_inv (lc_run lib evs lc)"
  by (induction evs rule: rev_induct) (auto simp: lc_serve_def lc_handle_inv split: prod.splits)

lemma lc_Init_state:
  assumes "lc_Init lib cfg lc0 = Inr lc"
  shows "lc_inv lc" and "lc_abs lc = []" and "0 < lc_maxSize lc"
proof -
  obtain h u t m n where "lc = lc0\<lparr>lc_header := h, lc_licenseURL := u, lc_cacheTTL := t,
      lc_maxSize := int_or m 1024, lc_timeout := n, lc_lru := lru_new\<rparr>"
    using assms unfolding lc_Init_def Let_def by (simp split: if_split_asm) blast
  then show "lc_inv lc" and "lc_abs lc = []" and "0 < lc_maxSize lc"
    by (simp_all add: lc_inv_def lc_abs_def lru_inv_new lru_abs_new)
qed

text \<open>An accepting entry was stored by a request that carried the token and that the server accepted.\<close>

lemma lc_ops_accept:
  assumes "OpSet t k True \<in> set (lc_ops lib inp r lc)"
  shows "k = req_header r (lc_header lc)" and "t = lci_store inp + lc_cacheTTL lc"
    and "lc_server_accepts inp lc k"
proof -
  let ?tok = "req_header r (lc_header lc)"
  obtain res lc' where look: "lc_lookup (lci_lookup inp) ?tok lc = (res, lc')"
    by (cases "lc_lookup (lci_lookup inp) ?tok lc")
  obtain ok d where ver: "lc_verify lib inp lc' ?tok = (ok, d)"
    by (cases "lc_verify lib inp lc' ?tok")
  have "lc_ops lib inp r lc = (case res of Some _ \<Rightarrow> [OpGet (lci_lookup inp) ?tok]
      | None \<Rightarrow> if ok \<or> d = [] then [OpGet (lci_lookup inp) ?tok, OpSet (lci_store inp + lc_cacheTTL lc) ?tok ok]
          else [OpGet (lci_lookup inp) ?tok])"
    by (cases res; cases ok) (simp_all add: lc_ops_def Let_def look ver)
  with assms have "k = ?tok \<and> t = lci_store inp + lc_cacheTTL lc \<and> ok"
    by (cases res) (simp_all split: if_splits)
  moreover have "lc_server_accepts inp lc ?tok" if ok
    using lc_verify_True [of lib inp lc' ?tok d] ver that snd_lc_lookup [of "lci_lookup inp" ?tok lc] look
    by (simp add: lc_server_accepts_def)
  ultimately show "k = ?tok" and "t = lci_store inp + lc_cacheTTL lc" and "lc_server_accepts inp lc k"
    by simp_all
qed

lemma lc_run_entry:
  assumes "lc_inv lc" and "lc_abs lc = []"
    and "map_of (lc_abs (lc_run lib evs lc)) k = Some (True, t)"
  shows "\<exists>(i, q, v) \<in> set evs. req_header q (lc_header lc) = k \<and> lc_server_accepts i lc k \<and>
    t = lci_store i + lc_cacheTTL lc"
  using assms(3)
proof (induction evs rule: rev_induct)
  case Nil
  then show ?case using assms(2) by simp
next
  case (snoc ev evs)
  obtain i q v where ev: "ev = (i, q, v)" by (cases ev)
  let ?s = "lc_run lib evs lc"
  have "map_of (lc_abs (fold lic_cache.step (lc_ops lib i q ?s) ?s)) k = Some (True, t)"
    using snoc.prems by (simp add: ev lc_serve_def lc_handle_ops)
  from lic_cache.run_entry [OF lc_run_inv [OF assms(1)] this]
  consider "map_of (lc_abs ?s) k = Some (True, t)" | "OpSet t k True \<in> set (lc_ops lib i q ?s)" by blast
  then show ?case
  proof cases
    case 1
    from snoc.IH [OF 1] show ?thesis by auto
  next
    case 2
    from lc_ops_accept [OF 2] show ?thesis
      by (auto simp: ev lc_server_accepts_def)
  qed
qed

section \<open>Properties\<close>

lemma lc_passed:
  assumes "lc_Init lib cfg lc0 = Inr lc"
    and "lc_handle lib inp r w (lc_run lib evs lc) = (Next r' w', lc')"
  shows "r' = r \<and> w' = w \<and>
    (lc_server_accepts inp lc (req_header r (lc_header lc)) \<or>
     (\<exists>(i, q, v) \<in> set evs. req_header q (lc_header lc) = req_header r (lc_header lc) \<and>
        lc_server_accepts i lc (req_header r (lc_header lc)) \<and>
        lci_lookup inp \<le> lci_store i + lc_cacheTTL lc))"
proof -
  let ?s = "lc_run lib evs lc" and ?tok = "req_header r (lc_header lc)"
  note init = lc_Init_state [OF assms(1)]
  have same: "r' = r \<and> w' = w"
    using assms(2) by (auto simp: lc_handle_def Let_def split: prod.splits if_splits)
  obtain res s1 where look: "lc_lookup (lci_lookup inp) ?tok ?s = (res, s1)"
    by (cases "lc_lookup (lci_lookup inp) ?tok ?s")
  have "res = Some True \<or> (\<exists>d. lc_verify lib inp s1 ?tok = (True, d))"
    using assms(2) look
    by (auto simp: lc_handle_def lc_lookup_def Let_def split: prod.splits if_splits)
  then show ?thesis
  proof
    assume "res = Some True"
    with look have "lc_lookup (lci_lookup inp) ?tok ?s = (Some True, s1)" by simp
    from lic_cache.hit_is_live [OF lc_run_inv [OF init(1)] this]
    obtain t where "map_of (lc_abs ?s) ?tok = Some (True, t)" "lci_lookup inp \<le> t" .
    with lc_run_entry [OF init(1,2), of lib evs ?tok t] same show ?thesis by force
  next
    assume "\<exists>d. lc_verify lib inp s1 ?tok = (True, d)"
    then have "lc_server_accepts inp s1 ?tok" using lc_verify_True by blast
    then have "lc_server_accepts inp lc ?tok"
      using look snd_lc_lookup [of "lci_lookup inp" ?tok ?s]
      by (simp add: lc_server_accepts_def)
    with same show ?thesis by blast
  qed
qed

text \<open>The license gate. Whatever requests came before, a request reaches the next handler only if
  the license server accepted its token now, or accepted the same token for an earlier request whose
  cached answer has not expired; and the request goes on unchanged.\<close>

lemma license_gate:
  assumes "lc_Init lib cfg lc0 = Inr lc"
    and "lc_handle lib inp r w (lc_run lib evs lc) = (Next r' w', lc')"
  shows "r' = r \<and> w' = w \<and>
    (lc_server_accepts inp lc (req_header r (lc_header lc)) \<or>
     (\<exists>(i, q, v) \<in> set evs. req_header q (lc_header lc) = req_header r (lc_header lc) \<and>
        lc_server_accepts i lc (req_header r (lc_header lc)) \<and>
        lci_lookup inp \<le> lci_store i + lc_cacheTTL lc))"
  by (rule lc_passed [OF assms])

text \<open>The license cache never outgrows \<open>max_cache_size\<close>, holds one entry per token, and its
  list and map agree after every sequence of requests.\<close>

lemma license_cache_bounded:
  assumes "lc_Init lib cfg lc0 = Inr lc"
  shows "lc_inv (lc_run lib evs lc) \<and> al_distinct (lc_abs (lc_run lib evs lc)) \<and>
    int (length (lc_abs (lc_run lib evs lc))) \<le> lc_maxSize lc"
proof -
  note init = lc_Init_state [OF assms]
  have "int (length (lc_abs (lc_run lib evs lc))) \<le> lc_maxSize lc"
  proof (induction evs rule: rev_induct)
    case Nil
    then show ?case using init by simp
  next
    case (snoc ev evs)
    then show ?case
      using lc_handle_bounded [of "lc_run lib evs lc" lib] lc_run_inv [OF init(1), of lib evs] init(3)
      by (auto simp: lc_serve_def split: prod.splits)
  qed
  then show ?thesis
    using lc_run_inv [OF init(1)] lc_inv_distinct by blast
qed

text \<open>A license server that cannot be reached is never remembered. Two network errors answer 403
  naming the dependency, and afterwards the cache holds no entry for the token, so that the next request
  asks again.\<close>

lemma license_network_error_not_cached:
  assumes "lc_inv lc" and "fst (lc_lookup (lci_lookup inp) (req_header r (lc_header lc)) lc) = None"
    and "lci_answer inp 0 (lc_request lc (req_header r (lc_header lc))) = NetErr"
    and "lci_answer inp 1 (lc_request lc (req_header r (lc_header lc))) = NetErr"
  shows "fst (lc_handle lib inp r w lc) =
      Respond (WriteError w 403 (lc_forbidden r ''license verification failed'' ''license-server'')) \<and>
    map_of (lc_abs (snd (lc_handle lib inp r w lc))) (req_header r (lc_header lc)) = None"
proof -
  let ?tok = "req_header r (lc_header lc)" and ?now = "lci_lookup inp"
  obtain p lc1 where g: "lc_cacheGet ?now ?tok lc = (p, lc1)" by (cases "lc_cacheGet ?now ?tok lc")
  have hit: "\<not> snd p" and lc1: "snd (lc_lookup ?now ?tok lc) = lc1"
    using assms(2) g by (auto simp: lc_lookup_def split: prod.splits if_splits)
  have "lc_verify lib inp lc1 ?tok = (False, ''license-server'')"
    using assms(3,4) lc_request_frame(1) [of ?now ?tok lc ?tok] g
    by (simp add: lc_verify_cases)
  then have handle: "lc_handle lib inp r w lc =
      (Respond (WriteError w 403 (lc_forbidden r ''license verification failed'' ''license-server'')), lc1)"
    using g hit by (cases p) (simp add: lc_handle_def)
  have "spec_get ?now ?tok (lc_abs lc) = (None, lc_abs lc1)"
    using lc_lookup_refines(1) [OF assms(1), of ?now ?tok] assms(2) lc1 by simp
  then have "map_of (lc_abs lc1) ?tok = None" by (rule spec_get_None)
  with handle show ?thesis by simp
qed

section \<open>Witnesses\<close>

definition ex_go_lib :: go_lib where
  "ex_go_lib = \<lparr>url_parse = (\<lambda>u. if has_prefix u ''http://'' then Some (''http'', drop 7 u) else None),
     url_request_uri = (\<lambda>u. has_prefix u ''http://'' \<or> has_prefix u ''/''),
     fmt_quote = (\<lambda>s. CHR 0x22 # s @ [CHR 0x22]), json_object = (\<lambda>_. None)\<rparr>"

definition ex_lc0 :: license_check where
  "ex_lc0 = \<lparr>lc_header = '''', lc_licenseURL = '''', lc_cacheTTL = 0, lc_maxSize = 0, lc_timeout = 0, lc_lru = lru_new\<rparr>"

definition ex_lc_cfg :: map_config where
  "ex_lc_cfg = NewMapConfig (Some [(''license_url'', AStr ''http://lic''), (''max_cache_size'', AInt 1)])"

definition ex_lc :: license_check where
  "ex_lc = \<lparr>lc_header = ''X-License-Token'', lc_licenseURL = ''http://lic'', lc_cacheTTL = 300000000000,
     lc_maxSize = 1, lc_timeout = 5000000000, lc_lru = lru_new\<rparr>"

definition ex_request :: "header \<Rightarrow> http_request" where
  "ex_request h = \<lparr>r_method = ''GET'', r_scheme = '''', r_urlhost = '''', r_host = ''gw'', r_path = ''/a'',
     r_query = '''', r_header = h, r_body = '''', r_ctx = Background\<rparr>"

definition ex_lc_inputs :: "int \<Rightarrow> net_result \<Rightarrow> lc_inputs" where
  "ex_lc_inputs t a = \<lparr>lci_lookup = t, lci_answer = (\<lambda>_ _. a), lci_store = t\<rparr>"

lemma ex_lc_init: "lc_Init ex_go_lib ex_lc_cfg ex_lc0 = Inr ex_lc"
  by (simp add: lc_Init_def ex_go_lib_def ex_lc_cfg_def ex_lc0_def ex_lc_def GetString_def GetInt_def
      NewMapConfig_def has_prefix_def int_or_def str_or_def dur_seconds_exact)

text \<open>The second request is served from the cache, although the server no longer answers.\<close>

lemma license_gate_witness:
  "\<exists>lc'. lc_handle ex_go_lib (ex_lc_inputs 7 NetErr) (ex_request no_header) (Conn new_conn)
       (lc_run ex_go_lib [(ex_lc_inputs 5 (NetStatus 204), ex_request no_header, Conn new_conn)] ex_lc)
     = (Next (ex_request no_header) (Conn new_conn), lc') \<and>
     (\<exists>(i, q, v) \<in> set [(ex_lc_inputs 5 (NetStatus 204), ex_request no_header, Conn new_conn)].
        lc_server_accepts i ex_lc (req_header q (lc_header ex_lc)))"
proof -
  let ?evs = "[(ex_lc_inputs 5 (NetStatus 204), ex_request no_header, Conn new_conn)]"
  let ?i = "ex_lc_inputs 7 NetErr" and ?r = "ex_request no_header"
  have run: "fst (lc_handle ex_go_lib ?i ?r (Conn new_conn) (lc_run ex_go_lib ?evs ex_lc)) = Next ?r (Conn new_conn)"
    by (simp add: lc_run_def lc_serve_def lc_handle_def lc_cacheGet_def lc_cacheSet_def lc_evict_def
        lc_verify_cases lru_op_defs ex_lc_def ex_lc_inputs_def ex_go_lib_def lru_new_def has_prefix_def Let_def)
  then obtain lc' where h: "lc_handle ex_go_lib ?i ?r (Conn new_conn) (lc_run ex_go_lib ?evs ex_lc) = (Next ?r (Conn new_conn), lc')"
    by (metis prod.collapse)
  have "\<not> lc_server_accepts ?i ex_lc (req_header ?r (lc_header ex_lc))"
    by (simp add: lc_server_accepts_def ex_lc_inputs_def)
  with license_gate [OF ex_lc_init h] h show ?thesis by auto
qed

lemma license_cache_bounded_witness:
  "int (length (lc_abs (lc_run ex_go_lib [(ex_lc_inputs 5 (NetStatus 204), ex_request no_header, Conn new_conn)] ex_lc))) \<le> 1"
  using license_cache_bounded [OF ex_lc_init] by (simp add: ex_lc_def)

lemma license_network_error_not_cached_witness:
  "map_of (lc_abs (snd (lc_handle ex_go_lib (ex_lc_inputs 7 NetErr) (ex_request no_header) (Conn new_conn) ex_lc)))
     (req_header (ex_request no_header) (lc_header ex_lc)) = None"
  using license_network_error_not_cached [OF lc_Init_state(1) [OF ex_lc_init], where r = "ex_request no_header" and inp = "ex_lc_inputs 7 NetErr"]
  by (simp add: ex_lc_inputs_def lc_lookup_def lc_cacheGet_def ex_lc_def lru_new_def)

end
