(* ===== verification/Registry.thy ===== *)
theory Registry
  imports Http PluginConfig
begin

text \<open>
  \<open>plugin/plugin.go\<close> and \<open>plugin/registry.go\<close>: the interface a plugin
  implements, and the global list of plugins with the set of their names. A plugin is a record of its
  four methods; the receiver they read and write lives in the gateway's state \<open>'w\<close>.
\<close>

section \<open>The plugin interface\<close>

record 'w plugin =
  p_Name :: string
  p_Init :: "map_config \<Rightarrow> 'w \<Rightarrow> string + 'w"
  p_Handler :: "'w handler \<Rightarrow> 'w handler"
  p_Shutdown :: "ctx \<Rightarrow> 'w \<Rightarrow> string option \<times> 'w"

section \<open>The registry\<close>

record 'w registry =
  reg_list :: "'w plugin list"
  reg_byName :: "string list"

definition empty_registry :: "'w registry" where
  "empty_registry = \<lparr>reg_list = [], reg_byName = []\<rparr>"

definition Register :: "'w plugin \<Rightarrow> 'w registry \<Rightarrow> 'w registry" where
  "Register p reg =
     (let name = p_Name p in
      if name \<in> set (reg_byName reg) then reg
      else reg\<lparr>reg_byName := name # reg_byName reg, reg_list := reg_list reg @ [p]\<rparr>)"

definition Registered :: "'w registry \<Rightarrow> 'w plugin list" where
  "Registered reg = reg_list reg"

definition register_all :: "'w plugin list \<Rightarrow> 'w registry \<Rightarrow> 'w registry" where
  "register_all ps reg = fold Register ps reg"

section \<open>Invariant\<close>

definition reg_inv :: "'w registry \<Rightarrow> bool" where
  "reg_inv reg \<longleftrightarrow> distinct (map p_Name (reg_list reg)) \<and>
     set (reg_byName reg) = p_Name ` set (reg_list reg)"

lemma reg_inv_empty [simp]: "reg_inv empty_registry"
  by (simp add: reg_inv_def empty_registry_def)

lemma reg_inv_Register [simp]: "reg_inv reg \<Longrightarrow> reg_inv (Register p reg)"
  by (auto simp: reg_inv_def Register_def Let_def)

lemma reg_inv_all [simp]: "reg_inv reg \<Longrightarrow> reg_inv (register_all ps reg)"
  unfolding register_all_def by (induction ps arbitrary: reg) auto

text \<open>The first plugin of a name, in a list.\<close>

definition first_named :: "string \<Rightarrow> 'w plugin list \<Rightarrow> 'w plugin option" where
  "first_named n ps = find (\<lambda>p. p_Name p = n) ps"

lemma first_named_append:
  "first_named n (ps @ qs) = (case first_named n ps of Some p \<Rightarrow> Some p | None \<Rightarrow> first_named n qs)"
  by (induction ps) (auto simp: first_named_def)

lemma first_named_None: "first_named n ps = None \<longleftrightarrow> n \<notin> p_Name ` set ps"
  by (auto simp: first_named_def find_None_iff)

lemma first_named_single: "first_named n [p] = (if p_Name p = n then Some p else None)"
  by (simp add: first_named_def)

lemma first_named_Nil [simp]: "first_named n [] = None"
  by (simp add: first_named_def)

lemma first_named_Cons: "first_named n (p # ps) = (if p_Name p = n then Some p else first_named n ps)"
  by (simp add: first_named_def)

lemma first_named_Register:
  assumes "reg_inv reg"
  shows "first_named n (Registered (Register p reg)) = first_named n (Registered reg @ [p])"
proof (cases "p_Name p \<in> set (reg_byName reg)")
  case True
  then have "p_Name p \<in> p_Name ` set (reg_list reg)" using assms by (simp add: reg_inv_def)
  then obtain q where "first_named (p_Name p) (reg_list reg) = Some q"
    using first_named_None [of "p_Name p" "reg_list reg"] by (cases "first_named (p_Name p) (reg_list reg)") auto
  with True show ?thesis
    by (cases "n = p_Name p") (auto simp: Register_def Registered_def first_named_append first_named_single
        split: option.splits)
next
  case False
  then show ?thesis by (simp add: Register_def Registered_def)
qed

lemma first_named_register_all:
  "reg_inv reg \<Longrightarrow>
     first_named n (Registered (register_all ps reg)) = first_named n (Registered reg @ ps)"
proof (induction ps arbitrary: reg)
  case Nil
  then show ?case by (simp add: register_all_def)
next
  case (Cons p ps)
  have "first_named n (Registered (register_all (p # ps) reg)) =
      first_named n (Registered (Register p reg) @ ps)"
    using Cons by (simp add: register_all_def)
  also have "\<dots> = first_named n (Registered reg @ p # ps)"
    using first_named_Register [OF Cons.prems, of n p]
    by (simp add: first_named_append first_named_single first_named_Cons split: option.splits)
  finally show ?case .
qed

section \<open>Properties\<close>

text \<open>Registration is first-wins. After any sequence of registrations into the empty registry the
  names are distinct, and the plugin found under a name is the first that registered with it.\<close>

lemma registry_first_wins:
  "distinct (map p_Name (Registered (register_all ps empty_registry))) \<and>
   first_named n (Registered (register_all ps empty_registry)) = first_named n ps"
  using reg_inv_all [OF reg_inv_empty, of ps] first_named_register_all [OF reg_inv_empty, of n ps]
  by (auto simp: reg_inv_def Registered_def empty_registry_def)

end
