(* ===== verification/Routes.thy ===== *)
theory Routes
  imports Http PluginConfig
begin

text \<open>
  \<open>internal/routes\<close>: a route of \<open>routes.yaml\<close> and the validation of the route list.
  Reading the file and decoding the YAML (\<open>Load\<close>, \<open>parse\<close>) is the decoder's
  answer, a parameter; \<open>validate\<close> is the code's, with the errors it collects in order.
\<close>

section \<open>Routes\<close>

record Route =
  rt_ID :: string
  rt_Method :: string
  rt_Path :: string
  rt_Target :: string
  rt_Roles :: "string list"
  rt_TenantRequired :: bool
  rt_Audit :: bool
  rt_Mode :: string
  rt_ExecutionTimeoutSeconds :: int
  rt_Plugins :: "(string \<times> config_map) list"
  rt_PathParams :: "string list"

definition validMethods :: "string list" where
  "validMethods = [''GET'', ''POST'', ''PUT'', ''PATCH'', ''DELETE'', ''HEAD'', ''OPTIONS'']"

section \<open>Placeholders\<close>

text \<open>
  \<open>\{([^{}]*)\}\<close>, every match from left to right. Inside an open brace another one starts over,
  so the scan keeps the text since the last opening brace, or \<open>None\<close>.
\<close>

fun scan_placeholders :: "string option \<Rightarrow> string \<Rightarrow> string list" where
  "scan_placeholders cur [] = []"
| "scan_placeholders cur (c # s) =
     (if c = CHR ''{'' then scan_placeholders (Some []) s
      else if c = CHR ''}'' then
        (case cur of
           Some name \<Rightarrow> name # scan_placeholders None s
         | None \<Rightarrow> scan_placeholders None s)
      else scan_placeholders (map_option (\<lambda>name. name @ [c]) cur) s)"

definition placeholderRe_all :: "string \<Rightarrow> string list" where
  "placeholderRe_all path = scan_placeholders None path"

fun collect_placeholders :: "string list \<Rightarrow> string list \<Rightarrow> string + string list" where
  "collect_placeholders names [] = Inr names"
| "collect_placeholders names (name # ms) =
     (if name = '''' then Inl ''empty placeholder {} not allowed''
      else if name \<in> set names then Inl (''placeholder {'' @ name @ ''} appears more than once'')
      else collect_placeholders (names @ [name]) ms)"

definition parsePlaceholders :: "string \<Rightarrow> string + string list" where
  "parsePlaceholders path = collect_placeholders [] (placeholderRe_all path)"

section \<open>Validation\<close>

text \<open>The error text of \<open>url.ParseRequestURI\<close> is the library's; the errors here end before it.\<close>

definition validate_id :: "go_lib \<Rightarrow> nat \<Rightarrow> string list \<Rightarrow> Route \<Rightarrow> string list \<times> string list \<times> string" where
  "validate_id lib i seen r =
     (let label = ''route['' @ itoa (int i) @ '']'' in
      if rt_ID r = '''' then ([label @ '': id is required''], seen, label)
      else if rt_ID r \<in> set seen then ([''route id '' @ fmt_quote lib (rt_ID r) @ '' is duplicated''], seen, label)
      else ([], rt_ID r # seen, ''route '' @ fmt_quote lib (rt_ID r)))"

definition validate_method :: "go_lib \<Rightarrow> string \<Rightarrow> Route \<Rightarrow> string list \<times> Route" where
  "validate_method lib label r =
     (if rt_Method r = '''' then ([label @ '': method is required''], r)
      else if to_upper (rt_Method r) \<notin> set validMethods
      then ([label @ '': method '' @ fmt_quote lib (rt_Method r) @ '' is not a valid HTTP method''], r)
      else ([], r\<lparr>rt_Method := to_upper (rt_Method r)\<rparr>))"

definition validate_path :: "string \<Rightarrow> Route \<Rightarrow> string list \<times> Route" where
  "validate_path label r =
     (if rt_Path r = '''' then ([label @ '': path is required''], r)
      else case parsePlaceholders (rt_Path r) of
             Inl e \<Rightarrow> ([label @ '': path: '' @ e], r)
           | Inr params \<Rightarrow> ([], r\<lparr>rt_PathParams := params\<rparr>))"

definition validate_target :: "go_lib \<Rightarrow> string \<Rightarrow> Route \<Rightarrow> string list" where
  "validate_target lib label r =
     (if rt_Target r = '''' then [label @ '': target is required'']
      else if \<not> url_request_uri lib (rt_Target r)
      then [label @ '': target '' @ fmt_quote lib (rt_Target r) @ '' is not a valid URL: '']
      else [])"

definition validate_route ::
    "go_lib \<Rightarrow> nat \<Rightarrow> string list \<Rightarrow> Route \<Rightarrow> string list \<times> string list \<times> Route" where
  "validate_route lib i seen r0 =
     (let (e1, seen, label) = validate_id lib i seen r0;
          (e2, r) = validate_method lib label r0;
          (e3, r) = validate_path label r;
          e4 = validate_target lib label r
      in (e1 @ e2 @ e3 @ e4, seen, r))"

fun validate_loop ::
    "go_lib \<Rightarrow> nat \<Rightarrow> string list \<Rightarrow> string list \<Rightarrow> Route list \<Rightarrow> string list \<times> Route list" where
  "validate_loop lib i seen errs [] = (errs, [])"
| "validate_loop lib i seen errs (r # rs) =
     (case validate_route lib i seen r of
        (es, seen, r') \<Rightarrow>
          (case validate_loop lib (Suc i) seen (errs @ es) rs of (errs, rs') \<Rightarrow> (errs, r' # rs')))"

definition validate :: "go_lib \<Rightarrow> Route list \<Rightarrow> string + Route list" where
  "validate lib rs =
     (case validate_loop lib 0 [] [] rs of
        (errs, rs') \<Rightarrow>
          if errs \<noteq> [] then Inl (''invalid route configuration:'' @ [CHR 0x0A] @ '' '' @ join ([CHR 0x0A] @ '' '') errs)
          else Inr rs')"

text \<open>\<open>Load\<close>: the file, and the decoder's answer on its bytes.\<close>

definition routes_parse :: "go_lib \<Rightarrow> (string \<Rightarrow> string + Route list) \<Rightarrow> string \<Rightarrow> string + Route list" where
  "routes_parse lib yaml bytes =
     (case yaml bytes of
        Inl e \<Rightarrow> Inl (''parsing routes YAML: '' @ e)
      | Inr rs \<Rightarrow> validate lib rs)"

definition routes_Load ::
    "go_lib \<Rightarrow> (string \<Rightarrow> string + Route list) \<Rightarrow> (string \<Rightarrow> string + string) \<Rightarrow> string \<Rightarrow> string + Route list" where
  "routes_Load lib yaml readFile path =
     (case readFile path of
        Inl e \<Rightarrow> Inl (''reading routes file '' @ fmt_quote lib path @ '': '' @ e)
      | Inr bytes \<Rightarrow> routes_parse lib yaml bytes)"

section \<open>What validation accepts\<close>

definition route_ok :: "go_lib \<Rightarrow> Route \<Rightarrow> bool" where
  "route_ok lib r \<longleftrightarrow> rt_ID r \<noteq> '''' \<and> to_upper (rt_Method r) \<in> set validMethods \<and> rt_Path r \<noteq> '''' \<and>
     (\<forall>name \<in> set (placeholderRe_all (rt_Path r)). name \<noteq> '''') \<and> distinct (placeholderRe_all (rt_Path r)) \<and>
     rt_Target r \<noteq> '''' \<and> url_request_uri lib (rt_Target r)"

definition normalised :: "Route \<Rightarrow> Route" where
  "normalised r = r\<lparr>rt_Method := to_upper (rt_Method r), rt_PathParams := placeholderRe_all (rt_Path r)\<rparr>"

lemma collect_placeholders_Inr:
  "collect_placeholders names ms = Inr ns \<longleftrightarrow>
     ns = names @ ms \<and> (\<forall>m \<in> set ms. m \<noteq> '''' \<and> m \<notin> set names) \<and> distinct ms"
  by (induction ms arbitrary: names) auto

lemma parsePlaceholders_cases:
  "(\<exists>e. parsePlaceholders p = Inl e) \<and>
     \<not> ((\<forall>m \<in> set (placeholderRe_all p). m \<noteq> '''') \<and> distinct (placeholderRe_all p)) \<or>
   parsePlaceholders p = Inr (placeholderRe_all p) \<and>
     (\<forall>m \<in> set (placeholderRe_all p). m \<noteq> '''') \<and> distinct (placeholderRe_all p)"
  using collect_placeholders_Inr [of "[]" "placeholderRe_all p"]
  by (cases "collect_placeholders [] (placeholderRe_all p)") (auto simp: parsePlaceholders_def)

lemma to_upper_Nil_method [simp]: "'''' \<notin> set validMethods"
  by (simp add: validMethods_def)

lemma validate_method_ok:
  "fst (validate_method lib label r) = [] \<longleftrightarrow> to_upper (rt_Method r) \<in> set validMethods"
  "fst (validate_method lib label r) = [] \<Longrightarrow>
     snd (validate_method lib label r) = r\<lparr>rt_Method := to_upper (rt_Method r)\<rparr>"
  by (auto simp: validate_method_def split: if_splits)

lemma validate_path_ok:
  "fst (validate_path label r) = [] \<longleftrightarrow> rt_Path r \<noteq> '''' \<and>
     (\<forall>m \<in> set (placeholderRe_all (rt_Path r)). m \<noteq> '''') \<and> distinct (placeholderRe_all (rt_Path r))"
  using parsePlaceholders_cases [of "rt_Path r"] by (auto simp: validate_path_def)

lemma validate_path_result:
  assumes "fst (validate_path label r) = []"
  shows "snd (validate_path label r) = r\<lparr>rt_PathParams := placeholderRe_all (rt_Path r)\<rparr>"
  using parsePlaceholders_cases [of "rt_Path r"] assms by (auto simp: validate_path_def split: if_splits)

lemma validate_loop_Cons:
  assumes "validate_loop lib i seen errs (r # rs) = (errs', rs')" and "validate_route lib i seen r = (es, s, r')"
  obtains rs'' where "validate_loop lib (Suc i) s (errs @ es) rs = (errs', rs'')" and "rs' = r' # rs''"
  using assms by (cases "validate_loop lib (Suc i) s (errs @ es) rs") simp

lemma validate_target_ok:
  "validate_target lib label r = [] \<longleftrightarrow> rt_Target r \<noteq> '''' \<and> url_request_uri lib (rt_Target r)"
  by (simp add: validate_target_def)

lemma validate_method_frame:
  "rt_Path (snd (validate_method lib label r)) = rt_Path r"
  "rt_Target (snd (validate_method lib label r)) = rt_Target r"
  by (simp_all add: validate_method_def)

lemma validate_path_frame: "rt_Target (snd (validate_path label r)) = rt_Target r"
  by (simp add: validate_path_def split: sum.splits)

lemma validate_route_ok:
  assumes "validate_route lib i seen r = (es, seen', r')"
  shows "es = [] \<longleftrightarrow> route_ok lib r \<and> rt_ID r \<notin> set seen"
    and "es = [] \<Longrightarrow> r' = normalised r \<and> seen' = rt_ID r # seen"
proof -
  obtain e1 s1 label where id: "validate_id lib i seen r = (e1, s1, label)"
    by (cases "validate_id lib i seen r")
  obtain e2 r2 where m: "validate_method lib label r = (e2, r2)" by (cases "validate_method lib label r")
  obtain e3 r3 where p: "validate_path label r2 = (e3, r3)" by (cases "validate_path label r2")
  have r: "es = e1 @ e2 @ e3 @ validate_target lib label r3" "seen' = s1" "r' = r3"
    using assms id m p by (auto simp: validate_route_def)
  have e1: "e1 = [] \<longleftrightarrow> rt_ID r \<noteq> '''' \<and> rt_ID r \<notin> set seen" "e1 = [] \<Longrightarrow> s1 = rt_ID r # seen"
    using id by (auto simp: validate_id_def Let_def split: if_splits)
  have fr: "rt_Path r2 = rt_Path r" "rt_Target r3 = rt_Target r"
    using validate_method_frame [of lib label r] validate_path_frame [of label r2] m p by simp_all
  show "es = [] \<longleftrightarrow> route_ok lib r \<and> rt_ID r \<notin> set seen"
    using validate_method_ok(1) [of lib label r] validate_path_ok [of label r2]
      validate_target_ok [of lib label r3] m p e1 fr r
    by (auto simp: route_ok_def)
  show "r' = normalised r \<and> seen' = rt_ID r # seen" if "es = []"
    using that validate_method_ok(2) [of lib label r] validate_path_result [of label r2] m p e1 fr r
    by (simp add: normalised_def)
qed

lemma validate_loop_both:
  "validate_loop lib i seen errs rs = (errs', rs') \<Longrightarrow>
     (errs' = [] \<longleftrightarrow> errs = [] \<and> (\<forall>r \<in> set rs. route_ok lib r \<and> rt_ID r \<notin> set seen) \<and> distinct (map rt_ID rs)) \<and>
     (errs' = [] \<longrightarrow> rs' = map normalised rs)"
proof (induction rs arbitrary: i seen errs errs' rs')
  case Nil
  then show ?case by auto
next
  case (Cons r rs)
  obtain es s r' where step: "validate_route lib i seen r = (es, s, r')"
    by (cases "validate_route lib i seen r")
  from validate_loop_Cons [OF Cons.prems step] obtain rs''
    where rest: "validate_loop lib (Suc i) s (errs @ es) rs = (errs', rs'')" and "rs' = r' # rs''" .
  then show ?case using Cons.IH [OF rest] validate_route_ok [OF step] by (auto simp: image_iff)
qed

lemma validate_loop_ok:
  assumes "validate_loop lib i seen errs rs = (errs', rs')"
  shows "errs' = [] \<longleftrightarrow> errs = [] \<and> (\<forall>r \<in> set rs. route_ok lib r \<and> rt_ID r \<notin> set seen) \<and> distinct (map rt_ID rs)"
    and "errs' = [] \<Longrightarrow> rs' = map normalised rs"
  using validate_loop_both [OF assms] by blast+

lemma validate_accepts_iff:
  "validate lib rs = Inr rs' \<longleftrightarrow>
     list_all (route_ok lib) rs \<and> distinct (map rt_ID rs) \<and> rs' = map normalised rs"
proof -
  obtain errs rs'' where l: "validate_loop lib 0 [] [] rs = (errs, rs'')"
    by (cases "validate_loop lib 0 [] [] rs")
  show ?thesis
    using validate_loop_ok [OF l] l by (auto simp: validate_def list_all_iff)
qed

section \<open>Properties\<close>

text \<open>C37: route validation accepts exactly the well-formed route lists: every route has an id, a known
  method in any case, a path whose placeholders are named and distinct, and a target that parses, and
  no two routes share an id. The accepted routes are the given ones, in order, with the method in upper
  case and the placeholder names filled in.\<close>

theorem validate_accepts_exactly:
  "validate lib rs = Inr rs' \<longleftrightarrow>
     list_all (route_ok lib) rs \<and> distinct (map rt_ID rs) \<and> rs' = map normalised rs"
  by (rule validate_accepts_iff)

text \<open>Validated routes dispatch on an upper-case method.\<close>

lemma validate_methods:
  assumes "validate lib rs = Inr rs'" and "r \<in> set rs'"
  shows "rt_Method r \<in> set validMethods"
  using assms by (auto simp: validate_accepts_iff list_all_iff route_ok_def normalised_def)

end
