(* ===== verification/Limiter.thy ===== *)
theory Limiter
  imports Prelude
begin

text \<open>
  \<open>internal/llm/limiter.go\<close>: the number of open SSE connections of each tenant, as the code
  counts them (\<open>limiter\<close>, with one operation per method), and the same methods cut at their
  atomic operations, so that goroutines interleave (\<open>lim_step\<close>). A counter never exceeds the
  number of goroutines, so it is an \<open>int\<close> that does not wrap.
\<close>

section \<open>The limiter\<close>

record limiter =
  lim_maxPerTenant :: int
  lim_counts :: "string \<rightharpoonup> int"

definition NewLimiter :: "int \<Rightarrow> limiter" where
  "NewLimiter maxPerTenant =
     \<lparr>lim_maxPerTenant = (if maxPerTenant \<le> 0 then 10 else maxPerTenant), lim_counts = Map.empty\<rparr>"

text \<open>\<open>counter\<close>: \<open>LoadOrStore\<close> of a new counter at 0.\<close>

definition lim_counter :: "string \<Rightarrow> limiter \<Rightarrow> int \<times> limiter" where
  "lim_counter t l =
     (case lim_counts l t of
        Some n \<Rightarrow> (n, l)
      | None \<Rightarrow> (0, l\<lparr>lim_counts := (lim_counts l)(t \<mapsto> 0)\<rparr>))"

text \<open>\<open>c.Add(d)\<close> on the counter of \<open>t\<close>, with its new value.\<close>

definition lim_add :: "string \<Rightarrow> int \<Rightarrow> limiter \<Rightarrow> int \<times> limiter" where
  "lim_add t d l =
     (case lim_counter t l of (n, l) \<Rightarrow> (n + d, l\<lparr>lim_counts := (lim_counts l)(t \<mapsto> n + d)\<rparr>))"

definition TryAcquire :: "string \<Rightarrow> limiter \<Rightarrow> bool \<times> limiter" where
  "TryAcquire t l =
     (case lim_add t 1 l of
        (n, l) \<Rightarrow> if n > lim_maxPerTenant l then (False, snd (lim_add t (- 1) l)) else (True, l))"

definition Release :: "string \<Rightarrow> limiter \<Rightarrow> limiter" where
  "Release t l = snd (lim_add t (- 1) l)"

definition Count :: "string \<Rightarrow> limiter \<Rightarrow> int" where
  "Count t l = (case lim_counts l t of None \<Rightarrow> 0 | Some n \<Rightarrow> n)"

lemma lim_add_simps:
  "fst (lim_add t d l) = Count t l + d"
  "Count u (snd (lim_add t d l)) = (if u = t then Count t l + d else Count u l)"
  "lim_maxPerTenant (snd (lim_add t d l)) = lim_maxPerTenant l"
  by (auto simp: lim_add_def lim_counter_def Count_def split: option.splits)

lemma TryAcquire_result: "fst (TryAcquire t l) \<longleftrightarrow> Count t l < lim_maxPerTenant l"
  using lim_add_simps [where t = t and d = 1 and l = l] by (auto simp: TryAcquire_def split: prod.splits)

lemma TryAcquire_Count:
  "Count u (snd (TryAcquire t l)) =
     Count u l + (if u = t \<and> Count t l < lim_maxPerTenant l then 1 else 0)"
  using lim_add_simps [where t = t and d = 1 and l = l]
    lim_add_simps [where t = t and d = "- 1" and l = "snd (lim_add t 1 l)"]
  by (auto simp: TryAcquire_def split: prod.splits)

lemma TryAcquire_max [simp]: "lim_maxPerTenant (snd (TryAcquire t l)) = lim_maxPerTenant l"
  using lim_add_simps(3) [of t 1 l] lim_add_simps(3) [of t "- 1" "snd (lim_add t 1 l)"]
  by (auto simp: TryAcquire_def split: prod.splits)

lemma Release_Count: "Count u (Release t l) = (if u = t then Count t l - 1 else Count u l)"
  by (simp add: Release_def lim_add_simps)

lemma Release_max [simp]: "lim_maxPerTenant (Release t l) = lim_maxPerTenant l"
  by (simp add: Release_def lim_add_simps)

lemma NewLimiter_simps [simp]:
  "Count t (NewLimiter n) = 0" "0 < lim_maxPerTenant (NewLimiter n)"
  by (auto simp: NewLimiter_def Count_def)

text \<open>An acquired slot given back restores every count.\<close>

lemma Release_TryAcquire:
  "fst (TryAcquire t l) \<Longrightarrow> Count u (Release t (snd (TryAcquire t l))) = Count u l"
  by (auto simp: Release_Count TryAcquire_Count TryAcquire_result)

section \<open>Interleaving\<close>

text \<open>
  A goroutine is idle, or between its increment and the comparison with the value the increment
  returned, or holds a slot. Each constructor of \<open>lim_step\<close> is one atomic operation of
  \<open>TryAcquire\<close> or \<open>Release\<close>, together with the local comparison after it.
\<close>

datatype lim_pc = Idle | Checking string int | Holding string

record lim_state =
  ls_count :: "string \<Rightarrow> int"
  ls_pc :: "nat \<Rightarrow> lim_pc"

definition lim_start :: lim_state where
  "lim_start = \<lparr>ls_count = (\<lambda>_. 0), ls_pc = (\<lambda>_. Idle)\<rparr>"

definition lim_move :: "nat \<Rightarrow> lim_pc \<Rightarrow> string \<Rightarrow> int \<Rightarrow> lim_state \<Rightarrow> lim_state" where
  "lim_move p pc t d s =
     \<lparr>ls_count = (ls_count s)(t := ls_count s t + d), ls_pc = (ls_pc s)(p := pc)\<rparr>"

datatype lim_act = Increment string | Accept | Reject | GiveBack

inductive lim_step :: "int \<Rightarrow> nat \<Rightarrow> lim_act \<Rightarrow> lim_state \<Rightarrow> lim_state \<Rightarrow> bool" for mx where
  increment: "ls_pc s p = Idle \<Longrightarrow>
     lim_step mx p (Increment t) s (lim_move p (Checking t (ls_count s t + 1)) t 1 s)"
| accept: "ls_pc s p = Checking t n \<Longrightarrow> n \<le> mx \<Longrightarrow> lim_step mx p Accept s (lim_move p (Holding t) t 0 s)"
| reject: "ls_pc s p = Checking t n \<Longrightarrow> n > mx \<Longrightarrow> lim_step mx p Reject s (lim_move p Idle t (- 1) s)"
| give_back: "ls_pc s p = Holding t \<Longrightarrow> lim_step mx p GiveBack s (lim_move p Idle t (- 1) s)"

inductive lim_reach :: "int \<Rightarrow> lim_state \<Rightarrow> bool" for mx where
  start: "lim_reach mx lim_start"
| step: "lim_reach mx s \<Longrightarrow> lim_step mx p a s s' \<Longrightarrow> lim_reach mx s'"

inductive_cases lim_stepE: "lim_step mx p a s s'"

text \<open>The goroutines counted for a tenant, those that hold a slot, and those that hold one or will.\<close>

definition ls_counted :: "string \<Rightarrow> lim_state \<Rightarrow> nat set" where
  "ls_counted t s = {p. (\<exists>n. ls_pc s p = Checking t n) \<or> ls_pc s p = Holding t}"

definition ls_holders :: "string \<Rightarrow> lim_state \<Rightarrow> nat set" where
  "ls_holders t s = {p. ls_pc s p = Holding t}"

definition ls_admitted :: "int \<Rightarrow> string \<Rightarrow> lim_state \<Rightarrow> nat set" where
  "ls_admitted mx t s = {p. (\<exists>n \<le> mx. ls_pc s p = Checking t n) \<or> ls_pc s p = Holding t}"

definition lim_inv :: "int \<Rightarrow> lim_state \<Rightarrow> bool" where
  "lim_inv mx s \<longleftrightarrow>
     (\<forall>t. finite (ls_counted t s) \<and> ls_count s t = int (card (ls_counted t s)) \<and>
          int (card (ls_admitted mx t s)) \<le> mx)"

lemma ls_admitted_subset: "ls_holders t s \<subseteq> ls_admitted mx t s" "ls_admitted mx t s \<subseteq> ls_counted t s"
  by (auto simp: ls_admitted_def ls_counted_def ls_holders_def)

lemma lim_move_sets:
  "ls_counted u (lim_move p pc t d s) =
     (if (\<exists>n. pc = Checking u n) \<or> pc = Holding u then insert p (ls_counted u s) else ls_counted u s - {p})"
  "ls_admitted mx u (lim_move p pc t d s) =
     (if (\<exists>n \<le> mx. pc = Checking u n) \<or> pc = Holding u then insert p (ls_admitted mx u s) else ls_admitted mx u s - {p})"
  by (auto simp: ls_counted_def ls_admitted_def lim_move_def)

lemma lim_move_count [simp]: "ls_count (lim_move p pc t d s) u = ls_count s u + (if u = t then d else 0)"
  by (simp add: lim_move_def)

lemma lim_inv_start: "0 < mx \<Longrightarrow> lim_inv mx lim_start"
  by (simp add: lim_inv_def lim_start_def ls_counted_def ls_admitted_def)

lemma lim_inv_finite:
  assumes "lim_inv mx s"
  shows "finite (ls_counted t s)" and "finite (ls_admitted mx t s)"
proof -
  show "finite (ls_counted t s)" using assms by (simp add: lim_inv_def)
  then show "finite (ls_admitted mx t s)" using ls_admitted_subset(2) by (rule rev_finite_subset)
qed

lemma lim_inv_increment:
  assumes inv: "lim_inv mx s" and idle: "ls_pc s p = Idle"
  shows "lim_inv mx (lim_move p (Checking t (ls_count s t + 1)) t 1 s)"
  unfolding lim_inv_def
proof (intro allI)
  fix u
  let ?s = "lim_move p (Checking t (ls_count s t + 1)) t 1 s"
  have notin: "p \<notin> ls_counted u s" "p \<notin> ls_admitted mx u s" for u
    using idle by (auto simp: ls_counted_def ls_admitted_def)
  have fin: "finite (ls_counted u s)" "finite (ls_admitted mx u s)" for u
    using inv lim_inv_finite by auto
  have old: "ls_count s u = int (card (ls_counted u s))" "int (card (ls_admitted mx u s)) \<le> mx" for u
    using inv by (auto simp: lim_inv_def)
  have "int (card (ls_admitted mx t s)) \<le> ls_count s t"
    using old(1) [of t] card_mono [OF fin(1) ls_admitted_subset(2) [of mx t s]] by simp
  then show "finite (ls_counted u ?s) \<and> ls_count ?s u = int (card (ls_counted u ?s)) \<and>
      int (card (ls_admitted mx u ?s)) \<le> mx"
    using fin notin old [of u] by (auto simp: lim_move_sets)
qed

lemma lim_inv_accept:
  assumes inv: "lim_inv mx s" and pc: "ls_pc s p = Checking t n" "n \<le> mx"
  shows "lim_inv mx (lim_move p (Holding t) t 0 s)"
proof -
  have "ls_counted u (lim_move p (Holding t) t 0 s) = ls_counted u s"
    "ls_admitted mx u (lim_move p (Holding t) t 0 s) = ls_admitted mx u s" for u
    using pc by (auto simp: ls_counted_def ls_admitted_def lim_move_def split: if_splits)
  then show ?thesis using inv by (simp add: lim_inv_def)
qed

lemma lim_inv_leave:
  assumes inv: "lim_inv mx s" and pc: "p \<in> ls_counted t s"
  shows "lim_inv mx (lim_move p Idle t (- 1) s)"
  unfolding lim_inv_def
proof (intro allI)
  fix u
  let ?s = "lim_move p Idle t (- 1) s"
  have fin: "finite (ls_counted u s)" "finite (ls_admitted mx u s)" for u
    using inv lim_inv_finite by auto
  have old: "ls_count s u = int (card (ls_counted u s))" "int (card (ls_admitted mx u s)) \<le> mx" for u
    using inv by (auto simp: lim_inv_def)
  have other: "p \<notin> ls_counted u s" if "u \<noteq> t"
    using pc that by (auto simp: ls_counted_def)
  have "card (ls_admitted mx u s - {p}) \<le> card (ls_admitted mx u s)"
    using fin by (intro card_mono) auto
  then show "finite (ls_counted u ?s) \<and> ls_count ?s u = int (card (ls_counted u ?s)) \<and>
      int (card (ls_admitted mx u ?s)) \<le> mx"
    using fin old [of u] other pc card_Suc_Diff1 [OF fin(1) [of t] pc]
    by (cases "u = t") (auto simp: lim_move_sets)
qed

lemma lim_inv_step: "lim_step mx p a s s' \<Longrightarrow> lim_inv mx s \<Longrightarrow> lim_inv mx s'"
  by (erule lim_stepE) (auto intro: lim_inv_increment lim_inv_accept lim_inv_leave simp: ls_counted_def)

lemma lim_inv_reach: "lim_reach mx s \<Longrightarrow> 0 < mx \<Longrightarrow> lim_inv mx s"
  by (induction rule: lim_reach.induct) (auto intro: lim_inv_start lim_inv_step)

lemma lim_holders_le:
  assumes "lim_inv mx s"
  shows "int (card (ls_holders t s)) \<le> mx"
proof -
  have "finite (ls_admitted mx t s)"
    using assms lim_inv_finite by auto
  then have "card (ls_holders t s) \<le> card (ls_admitted mx t s)"
    using ls_admitted_subset(1) by (intro card_mono) auto
  then show ?thesis using assms [unfolded lim_inv_def, rule_format, of t] by linarith
qed

section \<open>Properties\<close>

text \<open>C30: whatever the interleaving of the goroutines, no tenant ever has more SSE slots held than the
  configured limit, and the counter is the number of goroutines that hold a slot or are still between
  their increment and its undo.\<close>

theorem limiter_never_exceeded:
  assumes "lim_reach (lim_maxPerTenant (NewLimiter n)) s"
  shows "int (card (ls_holders t s)) \<le> lim_maxPerTenant (NewLimiter n) \<and>
    ls_count s t = int (card (ls_counted t s))"
  using lim_inv_reach [OF assms NewLimiter_simps(2)] lim_holders_le [of "lim_maxPerTenant (NewLimiter n)" s t]
  by (auto simp: lim_inv_def)

text \<open>C40: the undo of a rejected attempt is not atomic with its increment, so a goroutine can be rejected
  while no slot of its tenant is held: with the limit 1, a third goroutine that arrives between the
  release of the only holder and the undo of a second attempt is turned away.\<close>

theorem limiter_spurious_rejection:
  "\<exists>s p s'. lim_reach 1 s \<and> ls_holders ''acme'' s = {} \<and> lim_step 1 p Reject s s'"
proof -
  let ?t = "''acme''"
  let ?s1 = "lim_move 1 (Checking ?t 1) ?t 1 lim_start"
  let ?s2 = "lim_move 2 (Checking ?t 2) ?t 1 ?s1"
  let ?s3 = "lim_move 1 (Holding ?t) ?t 0 ?s2"
  let ?s4 = "lim_move 1 Idle ?t (- 1) ?s3"
  let ?s5 = "lim_move 3 (Checking ?t 2) ?t 1 ?s4"
  have "lim_reach 1 ?s1"
    using lim_reach.step [OF lim_reach.start, OF increment [of lim_start 1 1 ?t]] by (simp add: lim_start_def)
  moreover have "lim_step 1 2 (Increment ?t) ?s1 ?s2"
    using increment [of ?s1 2 1 ?t] by (simp add: lim_start_def lim_move_def)
  moreover have "lim_step 1 1 Accept ?s2 ?s3"
    by (rule accept [where n = 1]) (simp_all add: lim_move_def)
  moreover have "lim_step 1 1 GiveBack ?s3 ?s4"
    by (rule give_back) (simp add: lim_move_def)
  moreover have "lim_step 1 3 (Increment ?t) ?s4 ?s5"
    using increment [of ?s4 3 1 ?t] by (simp add: lim_start_def lim_move_def)
  ultimately have "lim_reach 1 ?s5" by (meson lim_reach.step)
  moreover have "ls_holders ?t ?s5 = {}"
    by (auto simp: ls_holders_def lim_move_def lim_start_def)
  moreover have "lim_step 1 3 Reject ?s5 (lim_move 3 Idle ?t (- 1) ?s5)"
    by (rule reject [where n = 2]) (simp_all add: lim_move_def)
  ultimately show ?thesis by blast
qed

text \<open>The methods run alone take the steps of the interleaved model.\<close>

lemma TryAcquire_steps:
  assumes "ls_pc s p = Idle" and "ls_count s t = Count t l"
  shows "\<exists>s1 s2. lim_step (lim_maxPerTenant l) p (Increment t) s s1 \<and>
    lim_step (lim_maxPerTenant l) p (if fst (TryAcquire t l) then Accept else Reject) s1 s2 \<and>
    ls_count s2 t = Count t (snd (TryAcquire t l))"
proof -
  let ?m = "lim_maxPerTenant l"
  let ?s1 = "lim_move p (Checking t (ls_count s t + 1)) t 1 s"
  have inc: "lim_step ?m p (Increment t) s ?s1" using assms(1) by (rule increment)
  have pc: "ls_pc ?s1 p = Checking t (Count t l + 1)" using assms(2) by (simp add: lim_move_def)
  show ?thesis
  proof (cases "fst (TryAcquire t l)")
    case True
    then have "lim_step ?m p Accept ?s1 (lim_move p (Holding t) t 0 ?s1)"
      using pc by (intro accept) (auto simp: TryAcquire_result)
    with inc True assms(2) show ?thesis
      by (intro exI [of _ ?s1] exI [of _ "lim_move p (Holding t) t 0 ?s1"])
        (simp add: TryAcquire_result TryAcquire_Count)
  next
    case False
    then have "lim_step ?m p Reject ?s1 (lim_move p Idle t (- 1) ?s1)"
      using pc by (intro reject) (auto simp: TryAcquire_result)
    with inc False assms(2) show ?thesis
      by (intro exI [of _ ?s1] exI [of _ "lim_move p Idle t (- 1) ?s1"])
        (simp add: TryAcquire_result TryAcquire_Count)
  qed
qed

section \<open>Witnesses\<close>

lemma limiter_never_exceeded_witness:
  "int (card (ls_holders ''t'' lim_start)) \<le> 3 \<and> ls_count lim_start ''t'' = int (card (ls_counted ''t'' lim_start))"
  using limiter_never_exceeded [of 3 lim_start "''t''"] lim_reach.start by (simp add: NewLimiter_def)

end
