(* ===== verification/Jwt.thy ===== *)
theory Jwt
  imports Http PluginConfig
begin

text \<open>
  What the authentication code shares: \<open>base64.RawURLEncoding\<close>, RSA keys out of JSON Web
  Keys, and the interface of \<open>github.com/golang-jwt/jwt/v5\<close>, which is not part of the
  repository. The library is a parameter: \<open>jwt_parse\<close> gives, for the parser options, the
  time and the token, either an error or the unverified token together with what the library does once
  the code's key function has answered. \<open>jwt_contract\<close> states the library's documented
  behaviour, for the properties that need it.
\<close>

section \<open>base64.RawURLEncoding\<close>

definition b64_val :: "char \<Rightarrow> nat option" where
  "b64_val c =
     (let n = byte_of c in
      if 65 \<le> n \<and> n \<le> 90 then Some (n - 65)
      else if 97 \<le> n \<and> n \<le> 122 then Some (n - 71)
      else if 48 \<le> n \<and> n \<le> 57 then Some (n + 4)
      else if c = CHR ''-'' then Some 62
      else if c = CHR ''_'' then Some 63
      else None)"

fun b64_vals :: "string \<Rightarrow> nat list option" where
  "b64_vals [] = Some []"
| "b64_vals (c # s) =
     (if c = CHR 0x0A \<or> c = CHR 0x0D then b64_vals s
      else case b64_val c of
             None \<Rightarrow> None
           | Some v \<Rightarrow> map_option (\<lambda>vs. v # vs) (b64_vals s))"

definition b64_byte :: "nat \<Rightarrow> char" where
  "b64_byte n = char_of (n mod 256)"

text \<open>The decoder is not strict: the unused bits of the last character are ignored.\<close>

fun b64_groups :: "nat list \<Rightarrow> string option" where
  "b64_groups [] = Some []"
| "b64_groups [a] = None"
| "b64_groups [a, b] = Some [b64_byte (a * 4 + b div 16)]"
| "b64_groups [a, b, c] = Some [b64_byte (a * 4 + b div 16), b64_byte (b * 16 + c div 4)]"
| "b64_groups (a # b # c # d # vs) =
     map_option (\<lambda>s. b64_byte (a * 4 + b div 16) # b64_byte (b * 16 + c div 4) # b64_byte (c * 64 + d) # s)
       (b64_groups vs)"

definition RawURLDecode :: "string \<Rightarrow> string option" where
  "RawURLDecode s = Option.bind (b64_vals s) b64_groups"

section \<open>RSA keys\<close>

record jwk =
  Kty :: string
  Kid :: string
  jwk_N :: string
  jwk_E :: string

record rsa_key =
  rsa_N :: nat
  rsa_E :: int

text \<open>\<open>big.Int.SetBytes\<close>: big endian.\<close>

fun set_bytes :: "nat \<Rightarrow> string \<Rightarrow> nat" where
  "set_bytes acc [] = acc"
| "set_bytes acc (c # s) = set_bytes (256 * acc + byte_of c) s"

section \<open>The JWT library\<close>

datatype verr = ErrTokenExpired | ErrTokenNotValidYet | ErrJWKSUnavailable | ErrOther

text \<open>An error, as the kinds that \<open>errors.Is\<close> and \<open>errors.As\<close> find in its chain.\<close>

type_synonym jwt_error = "verr list"

datatype jwt_method = SigningMethodHMAC | SigningMethodRSA | OtherMethod

record jwt_token =
  jt_Method :: jwt_method
  jt_Header :: config_map

datatype jwt_key = HmacKey string | RsaKey rsa_key

datatype jwt_claims = MapClaims config_map | OtherClaims

text \<open>\<open>WithValidMethods\<close>, \<open>WithExpirationRequired\<close>, \<open>WithAudience\<close> and
  \<open>WithLeeway\<close>.\<close>

record parser_opts =
  po_methods :: "string list"
  po_expiration_required :: bool
  po_audience :: "string option"
  po_leeway :: "int option"

datatype jwt_step =
    JFail jwt_error
  | JAskKey jwt_token "jwt_error + jwt_key \<Rightarrow> jwt_error + jwt_claims"

text \<open>\<open>json_jwks\<close> decodes a JWKS document (\<open>jwkSet\<close>), \<open>None\<close> when the decoder fails.\<close>

record jwt_lib =
  jwt_parse :: "parser_opts \<Rightarrow> int \<Rightarrow> string \<Rightarrow> jwt_step"
  json_jwks :: "string \<Rightarrow> jwk list option"

text \<open>\<open>jwt.Parse(tokenStr, keyfunc, opts...)\<close>; the key function reads and changes the state \<open>s\<close>.\<close>

definition jwt_Parse ::
    "jwt_lib \<Rightarrow> parser_opts \<Rightarrow> int \<Rightarrow> string \<Rightarrow> (jwt_token \<Rightarrow> 's \<Rightarrow> (jwt_error + jwt_key) \<times> 's) \<Rightarrow> 's \<Rightarrow>
       (jwt_error + jwt_claims) \<times> 's" where
  "jwt_Parse lib opts now tok keyfunc s =
     (case jwt_parse lib opts now tok of
        JFail e \<Rightarrow> (Inl e, s)
      | JAskKey t k \<Rightarrow> (case keyfunc t s of (res, s') \<Rightarrow> (k res, s')))"

text \<open>\<open>mc, ok := token.Claims.(jwt.MapClaims)\<close> with its error.\<close>

fun as_map_claims :: "jwt_error + jwt_claims \<Rightarrow> jwt_error + config_map" where
  "as_map_claims (Inl e) = Inl e"
| "as_map_claims (Inr (MapClaims m)) = Inr m"
| "as_map_claims (Inr OtherClaims) = Inl [ErrOther]"

lemma as_map_claims_Inr: "as_map_claims r = Inr m \<longleftrightarrow> r = Inr (MapClaims m)"
  by (cases r rule: as_map_claims.cases) auto

text \<open>
  The documented behaviour of the library, with \<open>verifies opts now tok key c\<close> for "the token's
  signature verifies under the key with one of the valid methods, its claims are \<open>c\<close>, and the
  time and audience claims among them pass the options": claims come out only of a verified token, an error
  of the key function is the error of \<open>Parse\<close>, which wraps it.
\<close>

definition jwt_contract ::
    "(parser_opts \<Rightarrow> int \<Rightarrow> string \<Rightarrow> jwt_key \<Rightarrow> jwt_claims \<Rightarrow> bool) \<Rightarrow> jwt_lib \<Rightarrow> bool" where
  "jwt_contract verifies lib \<longleftrightarrow>
     (\<forall>opts now tok t k. jwt_parse lib opts now tok = JAskKey t k \<longrightarrow>
        (\<forall>key c. k (Inr key) = Inr c \<longrightarrow> verifies opts now tok key c) \<and>
        (\<forall>e. \<exists>e'. k (Inl e) = Inl e' \<and> set e \<subseteq> set e'))"

lemma jwt_Parse_verified:
  assumes "jwt_contract verifies lib" and "jwt_Parse lib opts now tok keyfunc s = (Inr c, s')"
  obtains t key where "keyfunc t s = (Inr key, s')" and "verifies opts now tok key c"
proof -
  from assms(2) obtain t k res where k: "jwt_parse lib opts now tok = JAskKey t k"
    and res: "keyfunc t s = (res, s')" "k res = Inr c"
    by (auto simp: jwt_Parse_def split: jwt_step.splits prod.splits)
  show thesis
  proof (cases res)
    case (Inl e)
    with res have kl: "k (Inl e) = Inr c" by simp
    from assms(1) k obtain e' where "k (Inl e) = Inl e'" unfolding jwt_contract_def by blast
    with kl show thesis by simp
  next
    case (Inr key)
    with assms(1) k res show thesis by (auto simp: jwt_contract_def intro: that)
  qed
qed

lemma jwt_Parse_key_error:
  assumes "jwt_contract verifies lib" and "jwt_parse lib opts now tok = JAskKey t k"
    and "keyfunc t s = (Inl e, s')"
  obtains e' where "jwt_Parse lib opts now tok keyfunc s = (Inl e', s')" and "set e \<subseteq> set e'"
proof -
  from assms(1,2) obtain e' where "k (Inl e) = Inl e'" "set e \<subseteq> set e'"
    unfolding jwt_contract_def by blast
  with assms(2,3) show thesis by (intro that) (simp_all add: jwt_Parse_def)
qed

section \<open>Encoding\<close>

text \<open>The encoder of the same alphabet, for the round trip.\<close>

definition b64_char :: "nat \<Rightarrow> char" where
  "b64_char v =
     (if v < 26 then char_of (v + 65) else if v < 52 then char_of (v + 71)
      else if v < 62 then char_of (v - 4) else if v = 62 then CHR ''-'' else CHR ''_'')"

fun b64_enc :: "nat list \<Rightarrow> nat list" where
  "b64_enc [] = []"
| "b64_enc [x] = [x div 4, x mod 4 * 16]"
| "b64_enc [x, y] = [x div 4, x mod 4 * 16 + y div 16, y mod 16 * 4]"
| "b64_enc (x # y # z # bs) =
     x div 4 # (x mod 4 * 16 + y div 16) # (y mod 16 * 4 + z div 64) # z mod 64 # b64_enc bs"

definition RawURLEncode :: "string \<Rightarrow> string" where
  "RawURLEncode s = map b64_char (b64_enc (map of_char s))"

lemma byte_char_of: "n < 256 \<Longrightarrow> byte_of (char_of n) = n"
  by (simp add: of_char_of)

lemma char_of_neq: "n < 256 \<Longrightarrow> byte_of c \<noteq> n \<Longrightarrow> char_of n \<noteq> c"
  using byte_char_of by metis

lemma b64_val_char:
  assumes "v < 64"
  shows "b64_val (b64_char v) = Some v" and "b64_char v \<noteq> CHR 0x0A" and "b64_char v \<noteq> CHR 0x0D"
proof -
  consider "v < 26" | "26 \<le> v" "v < 52" | "52 \<le> v" "v < 62" | "v = 62" | "v = 63"
    using assms by linarith
  then have "b64_val (b64_char v) = Some v \<and> b64_char v \<noteq> CHR 0x0A \<and> b64_char v \<noteq> CHR 0x0D"
    by cases (auto simp: b64_char_def b64_val_def byte_char_of char_of_neq Let_def)
  then show "b64_val (b64_char v) = Some v" "b64_char v \<noteq> CHR 0x0A" "b64_char v \<noteq> CHR 0x0D"
    by simp_all
qed

lemma b64_vals_encode: "\<forall>v \<in> set vs. v < 64 \<Longrightarrow> b64_vals (map b64_char vs) = Some vs"
  by (induction vs) (simp_all add: b64_val_char)

lemma b64_enc_bound: "\<forall>b \<in> set bs. b < 256 \<Longrightarrow> v \<in> set (b64_enc bs) \<Longrightarrow> v < (64 :: nat)"
  by (induction bs rule: b64_enc.induct) auto

lemma b64_groups_enc: "\<forall>b \<in> set bs. b < 256 \<Longrightarrow> b64_groups (b64_enc bs) = Some (map char_of bs)"
proof (induction bs rule: b64_enc.induct)
  case (4 x y z bs)
  have lt: "x < 256" "y < 256" "z < 256" using 4 by simp_all
  have "z div 64 < 4" using lt(3) by linarith
  then have mid: "(y mod 16 * 4 + z div 64) div 4 = y mod 16" by simp
  have e: "x div 4 * 4 + (x mod 4 * 16 + y div 16) div 16 = x"
    "((x mod 4 * 16 + y div 16) * 16 + (y mod 16 * 4 + z div 64) div 4) mod 256 = y"
    "((y mod 16 * 4 + z div 64) * 64 + z mod 64) mod 256 = z"
    unfolding mid using lt by simp_all
  have "b64_groups (b64_enc bs) = Some (map char_of bs)" using 4 by simp
  then show ?case
    unfolding b64_enc.simps b64_groups.simps b64_byte_def e using lt by simp
next
  case (3 x y)
  have lt: "x < 256" "y < 256" using 3 by simp_all
  then have e: "x div 4 * 4 + (x mod 4 * 16 + y div 16) div 16 = x"
    "((x mod 4 * 16 + y div 16) * 16 + y mod 16 * 4 div 4) mod 256 = y"
    by auto
  show ?case
    unfolding b64_enc.simps b64_groups.simps b64_byte_def e using lt by simp
next
  case (2 x)
  then show ?case by (simp add: b64_byte_def)
qed simp

lemma RawURLDecode_Encode: "RawURLDecode (RawURLEncode s) = Some s"
proof -
  have lt: "\<forall>b \<in> set (map of_char s). b < (256 :: nat)"
    by auto
  have "b64_vals (RawURLEncode s) = Some (b64_enc (map of_char s))"
    unfolding RawURLEncode_def using b64_enc_bound [OF lt] by (intro b64_vals_encode) blast
  then show ?thesis
    using b64_groups_enc [OF lt] by (simp add: RawURLDecode_def comp_def)
qed

text \<open>An encoded string holds no separator of a compact token.\<close>

lemma RawURLEncode_no_dot: "CHR ''.'' \<notin> set (RawURLEncode s)"
proof
  assume "CHR ''.'' \<in> set (RawURLEncode s)"
  then obtain v where v: "v \<in> set (b64_enc (map of_char s))" "b64_char v = CHR ''.''"
    by (auto simp: RawURLEncode_def)
  have "\<forall>b \<in> set (map of_char s). b < (256 :: nat)" by auto
  from b64_val_char(1) [OF b64_enc_bound [OF this v(1)]] v(2) show False
    by (simp add: b64_val_def)
qed

end
