(* ===== verification/Jwks.thy ===== *)
theory Jwks
  imports Jwt
begin

text \<open>
  \<open>internal/plugins/tokenvalidator/jwks.go\<close>: the key cache of one JWKS endpoint. It serves a
  key from memory until the TTL is over, then fetches the document again; when that fails it goes on
  serving what it has. The inputs of one lookup are the clock, the endpoint's answer and the clock when
  the fetched keys are stored. The methods run one at a time here; the code's lock covers each read
  and each store, not the fetch between them.
\<close>

section \<open>State\<close>

record jwks_validator =
  jv_url :: string
  jv_timeout :: int
  jv_ttl :: int
  jv_keys :: "(string \<times> rsa_key) list"
  jv_fetchAt :: "int option"
  jv_fetchCount :: int

definition newJWKSValidator :: "string \<Rightarrow> int \<Rightarrow> jwks_validator" where
  "newJWKSValidator url ttl =
     \<lparr>jv_url = url, jv_timeout = dur_seconds 10, jv_ttl = ttl, jv_keys = [], jv_fetchAt = None, jv_fetchCount = 0\<rparr>"

definition hitCount :: "jwks_validator \<Rightarrow> int" where
  "hitCount v = jv_fetchCount v"

text \<open>The outcome of \<open>client.Get\<close>: a transport error, or an answer's status and body.\<close>

datatype fetch_result = FetchErr | Fetched int string

record fetch_inputs =
  fi_now :: int
  fi_fetch :: "string \<Rightarrow> fetch_result"
  fi_done :: int

section \<open>Keys\<close>

definition rsaFromJWK :: "jwk \<Rightarrow> jwt_error + rsa_key" where
  "rsaFromJWK k =
     (case RawURLDecode (jwk_N k) of
        None \<Rightarrow> Inl [ErrOther]
      | Some nBytes \<Rightarrow>
          (case RawURLDecode (jwk_E k) of
             None \<Rightarrow> Inl [ErrOther]
           | Some eBytes \<Rightarrow>
               (let n = set_bytes 0 nBytes; e = int (set_bytes 0 eBytes) in
                if \<not> in_int64 e then Inl [ErrOther]
                else Inr \<lparr>rsa_N = n, rsa_E = e\<rparr>)))"

fun jwks_collect :: "(string \<times> rsa_key) list \<Rightarrow> jwk list \<Rightarrow> jwt_error + (string \<times> rsa_key) list" where
  "jwks_collect keys [] = Inr keys"
| "jwks_collect keys (k # ks) =
     (if Kty k \<noteq> ''RSA'' then jwks_collect keys ks
      else case rsaFromJWK k of
             Inl e \<Rightarrow> Inl e
           | Inr pub \<Rightarrow> jwks_collect (al_put (Kid k) pub keys) ks)"

section \<open>Fetching\<close>

text \<open>What a document publishes; the status of the answer is not looked at.\<close>

definition jwks_published :: "jwt_lib \<Rightarrow> fetch_result \<Rightarrow> jwt_error + (string \<times> rsa_key) list" where
  "jwks_published lib res =
     (case res of
        FetchErr \<Rightarrow> Inl [ErrOther]
      | Fetched status body \<Rightarrow>
          (case json_jwks lib body of
             None \<Rightarrow> Inl [ErrOther]
           | Some ks \<Rightarrow> jwks_collect [] ks))"

definition jwks_refresh ::
    "jwt_lib \<Rightarrow> fetch_inputs \<Rightarrow> jwks_validator \<Rightarrow> jwt_error option \<times> jwks_validator" where
  "jwks_refresh lib inp v =
     (let v = v\<lparr>jv_fetchCount := jv_fetchCount v + 1\<rparr> in
      case jwks_published lib (fi_fetch inp (jv_url v)) of
        Inl e \<Rightarrow> (Some e, v)
      | Inr keys \<Rightarrow> (None, v\<lparr>jv_keys := keys, jv_fetchAt := Some (fi_done inp)\<rparr>))"

definition jwks_expired :: "int \<Rightarrow> jwks_validator \<Rightarrow> bool" where
  "jwks_expired now v =
     (case jv_fetchAt v of None \<Rightarrow> True | Some t \<Rightarrow> t + jv_ttl v < now)"

definition getKey ::
    "jwt_lib \<Rightarrow> fetch_inputs \<Rightarrow> string \<Rightarrow> jwks_validator \<Rightarrow> (jwt_error + rsa_key) \<times> jwks_validator" where
  "getKey lib inp kid v =
     (if map_of (jv_keys v) kid \<noteq> None \<and> \<not> jwks_expired (fi_now inp) v
      then (Inr (the (map_of (jv_keys v) kid)), v)
      else
        (case jwks_refresh lib inp v of
           (Some err, v) \<Rightarrow>
             (case map_of (jv_keys v) kid of
                Some staleKey \<Rightarrow> (Inr staleKey, v)
              | None \<Rightarrow>
                  if jv_keys v = [] then (Inl (ErrJWKSUnavailable # err), v)
                  else (Inl err, v))
         | (None, v) \<Rightarrow>
             (case map_of (jv_keys v) kid of
                None \<Rightarrow> (Inl [ErrOther], v)
              | Some key \<Rightarrow> (Inr key, v))))"

section \<open>Validation\<close>

definition header_kid :: "jwt_token \<Rightarrow> string" where
  "header_kid t = get_str (jt_Header t) ''kid''"

definition rsa_keyfunc ::
    "jwt_lib \<Rightarrow> fetch_inputs \<Rightarrow> jwt_token \<Rightarrow> jwks_validator \<Rightarrow> (jwt_error + jwt_key) \<times> jwks_validator" where
  "rsa_keyfunc lib inp t v =
     (if jt_Method t \<noteq> SigningMethodRSA then (Inl [ErrOther], v)
      else case getKey lib inp (header_kid t) v of
             (Inl e, v) \<Rightarrow> (Inl e, v)
           | (Inr key, v) \<Rightarrow> (Inr (RsaKey key), v))"

definition jwks_validate ::
    "jwt_lib \<Rightarrow> fetch_inputs \<Rightarrow> int \<Rightarrow> string \<Rightarrow> string \<Rightarrow> jwks_validator \<Rightarrow>
       (jwt_error + config_map) \<times> jwks_validator" where
  "jwks_validate lib inp now tokenStr audience v =
     (let opts = \<lparr>po_methods = [''RS256''], po_expiration_required = True,
            po_audience = (if audience \<noteq> '''' then Some audience else None), po_leeway = None\<rparr>
      in case jwt_Parse lib opts now tokenStr (rsa_keyfunc lib inp) v of
           (res, v) \<Rightarrow> (as_map_claims res, v))"

definition with_opts :: "string list \<Rightarrow> int \<Rightarrow> parser_opts" where
  "with_opts methods skew =
     \<lparr>po_methods = methods, po_expiration_required = True, po_audience = None,
      po_leeway = (if skew > 0 then Some skew else None)\<rparr>"

definition validateWith ::
    "jwt_lib \<Rightarrow> fetch_inputs \<Rightarrow> int \<Rightarrow> string \<Rightarrow> string list \<Rightarrow> int \<Rightarrow> jwks_validator \<Rightarrow>
       (jwt_error + config_map) \<times> jwks_validator" where
  "validateWith lib inp now tokenStr methods skew v =
     (case jwt_Parse lib (with_opts methods skew) now tokenStr (rsa_keyfunc lib inp) v of
        (res, v) \<Rightarrow> (as_map_claims res, v))"

definition isJWKSUnavailable :: "jwt_error \<Rightarrow> bool" where
  "isJWKSUnavailable e \<longleftrightarrow> ErrJWKSUnavailable \<in> set e"

section \<open>The pool\<close>

text \<open>\<open>jwksPool\<close>: each issuer with the address of its validator.\<close>

type_synonym jwks_pool = "(string \<times> nat) list"

fun find_validator_loop :: "nat option \<Rightarrow> jwks_pool \<Rightarrow> string \<Rightarrow> nat option" where
  "find_validator_loop wildcard [] iss = wildcard"
| "find_validator_loop wildcard ((issuer, v) # es) iss =
     (if issuer = iss then Some v
      else find_validator_loop (if issuer = '''' then Some v else wildcard) es iss)"

definition findValidator :: "jwks_pool \<Rightarrow> string \<Rightarrow> nat option" where
  "findValidator p iss = find_validator_loop None p iss"

section \<open>Lemmas\<close>

lemma jwks_refresh_frame:
  "jv_url (snd (jwks_refresh lib inp v)) = jv_url v"
  "jv_ttl (snd (jwks_refresh lib inp v)) = jv_ttl v"
  "jv_fetchCount (snd (jwks_refresh lib inp v)) = jv_fetchCount v + 1"
  by (auto simp: jwks_refresh_def Let_def split: sum.splits)

lemma jwks_refresh_keys:
  "fst (jwks_refresh lib inp v) = Some e \<Longrightarrow>
     jv_keys (snd (jwks_refresh lib inp v)) = jv_keys v \<and> jv_fetchAt (snd (jwks_refresh lib inp v)) = jv_fetchAt v"
  "fst (jwks_refresh lib inp v) = None \<Longrightarrow>
     jwks_published lib (fi_fetch inp (jv_url v)) = Inr (jv_keys (snd (jwks_refresh lib inp v))) \<and>
     jv_fetchAt (snd (jwks_refresh lib inp v)) = Some (fi_done inp)"
  by (auto simp: jwks_refresh_def Let_def split: sum.splits)

lemma getKey_state:
  "snd (getKey lib inp kid v) =
     (if map_of (jv_keys v) kid \<noteq> None \<and> \<not> jwks_expired (fi_now inp) v then v
      else snd (jwks_refresh lib inp v))"
  by (auto simp: getKey_def split: prod.splits option.splits)

lemma getKey_frame:
  "jv_url (snd (getKey lib inp kid v)) = jv_url v"
  "jv_ttl (snd (getKey lib inp kid v)) = jv_ttl v"
  by (simp_all add: getKey_state jwks_refresh_frame)

lemma getKey_served:
  "fst (getKey lib inp kid v) = Inr key \<Longrightarrow> map_of (jv_keys (snd (getKey lib inp kid v))) kid = Some key"
  by (auto simp: getKey_def split: prod.splits option.splits if_splits)

lemma rsa_keyfunc_state:
  "snd (rsa_keyfunc lib inp t v) =
     (if jt_Method t = SigningMethodRSA then snd (getKey lib inp (header_kid t) v) else v)"
  by (auto simp: rsa_keyfunc_def split: prod.splits sum.splits)

lemma rsa_keyfunc_Inr:
  "rsa_keyfunc lib inp t v = (Inr k, v') \<Longrightarrow>
     \<exists>key. k = RsaKey key \<and> jt_Method t = SigningMethodRSA \<and> getKey lib inp (header_kid t) v = (Inr key, v')"
  by (auto simp: rsa_keyfunc_def split: prod.splits sum.splits if_splits)

lemma jwt_Parse_state:
  "snd (jwt_Parse lib opts now tok kf s) =
     (case jwt_parse lib opts now tok of JFail e \<Rightarrow> s | JAskKey t k \<Rightarrow> snd (kf t s))"
  by (auto simp: jwt_Parse_def split: jwt_step.splits prod.splits)

lemma validateWith_state:
  "snd (validateWith lib inp now tok ms skew v) = v \<or>
   (\<exists>kid. snd (validateWith lib inp now tok ms skew v) = snd (getKey lib inp kid v))"
  using jwt_Parse_state [of lib "with_opts ms skew" now tok "rsa_keyfunc lib inp" v]
  by (auto simp: validateWith_def rsa_keyfunc_state split: prod.splits jwt_step.splits if_splits)

subsection \<open>What a run of lookups can serve\<close>

text \<open>The key cache after a sequence of lookups.\<close>

definition getKey_run :: "jwt_lib \<Rightarrow> (fetch_inputs \<times> string) list \<Rightarrow> jwks_validator \<Rightarrow> jwks_validator" where
  "getKey_run lib evs v = fold (\<lambda>(inp, kid) v. snd (getKey lib inp kid v)) evs v"

lemma getKey_run_snoc [simp]:
  "getKey_run lib [] v = v"
  "getKey_run lib (evs @ [(inp, kid)]) v = snd (getKey lib inp kid (getKey_run lib evs v))"
  by (simp_all add: getKey_run_def)

lemma getKey_run_url [simp]: "jv_url (getKey_run lib evs v) = jv_url v"
  by (induction evs rule: rev_induct) (auto simp: getKey_frame split: prod.splits)

text \<open>The cached keys are those of one document that the endpoint served, or none.\<close>

lemma getKey_run_keys:
  assumes "jv_keys v = []"
  shows "jv_keys (getKey_run lib evs v) = [] \<or>
    (\<exists>(inp, kid) \<in> set evs. jwks_published lib (fi_fetch inp (jv_url v)) = Inr (jv_keys (getKey_run lib evs v)))"
proof (induction evs rule: rev_induct)
  case Nil
  then show ?case using assms by simp
next
  case (snoc ev evs)
  obtain inp kid where ev: "ev = (inp, kid)" by (cases ev)
  let ?v = "getKey_run lib evs v"
  show ?case
  proof (cases "fst (jwks_refresh lib inp ?v)")
    case None
    from jwks_refresh_keys(2) [OF this] show ?thesis
      using snoc ev by (auto simp: getKey_state)
  next
    case (Some e)
    from jwks_refresh_keys(1) [OF this] show ?thesis
      using snoc ev by (auto simp: getKey_state)
  qed
qed

lemma getKey_published:
  assumes "jv_keys v = []" and "fst (getKey lib inp kid (getKey_run lib evs v)) = Inr key"
  shows "\<exists>(i, k) \<in> set (evs @ [(inp, kid)]). \<exists>ks. jwks_published lib (fi_fetch i (jv_url v)) = Inr ks \<and>
    map_of ks kid = Some key"
  using getKey_served [OF assms(2)] getKey_run_keys [OF assms(1), of lib "evs @ [(inp, kid)]"]
  by fastforce

section \<open>Properties\<close>

text \<open>A lookup within the TTL makes no request: the cached key is served and the cache, with its
  count of fetches, is unchanged.\<close>

lemma jwks_live_hit_no_fetch:
  assumes "map_of (jv_keys v) kid = Some key" and "jv_fetchAt v = Some t" and "fi_now inp \<le> t + jv_ttl v"
  shows "getKey lib inp kid v = (Inr key, v)"
  using assms by (simp add: getKey_def jwks_expired_def)

text \<open>Every key the cache ever serves was published: after any sequence of lookups from a new
  validator, a key served for a kid stands under that kid in a document that the configured endpoint
  served during the sequence.\<close>

lemma jwks_serves_published_keys:
  assumes "fst (getKey lib inp kid (getKey_run lib evs (newJWKSValidator url ttl))) = Inr key"
  shows "\<exists>(i, k) \<in> set (evs @ [(inp, kid)]). \<exists>ks. jwks_published lib (fi_fetch i url) = Inr ks \<and>
    map_of ks kid = Some key"
  using getKey_published [OF _ assms] by (simp add: newJWKSValidator_def)

text \<open>C36: a failed refresh never loses a key and never fails a known one: with keys in the cache, a
  lookup whose fetch fails serves the stale key of its kid, and leaves the keys as they were; with none,
  it reports the endpoint as unavailable.\<close>

theorem jwks_stale_while_revalidate:
  assumes "jwks_expired (fi_now inp) v" and "jwks_published lib (fi_fetch inp (jv_url v)) = Inl e"
  shows "jv_keys (snd (getKey lib inp kid v)) = jv_keys v \<and>
    fst (getKey lib inp kid v) =
      (case map_of (jv_keys v) kid of
         Some key \<Rightarrow> Inr key
       | None \<Rightarrow> Inl (if jv_keys v = [] then ErrJWKSUnavailable # e else e))"
  using assms by (auto simp: getKey_def jwks_refresh_def Let_def split: option.splits)

text \<open>The status of the endpoint's answer is ignored. An error answer whose body is JSON without
  keys counts as a successful refresh: it empties the cache, and the key that was known is then not
  found, instead of being served stale.\<close>

lemma jwks_error_body_empties_cache:
  assumes "jwks_expired (fi_now inp) v" and "fi_fetch inp (jv_url v) = Fetched 503 body"
    and "json_jwks lib body = Some []"
  shows "fst (getKey lib inp kid v) = Inl [ErrOther] \<and> jv_keys (snd (getKey lib inp kid v)) = [] \<and>
    jv_fetchAt (snd (getKey lib inp kid v)) = Some (fi_done inp)"
  using assms by (simp add: getKey_def jwks_refresh_def jwks_published_def Let_def)

text \<open>The validator of an issuer is the first entry configured with it, and no other; only an entry
  without an issuer, which the single-issuer form makes, takes the tokens of the rest.\<close>

lemma findValidator_exact:
  "findValidator p iss =
     (case map_of p iss of
        Some v \<Rightarrow> Some v
      | None \<Rightarrow> map_of (rev p) '''')"
proof -
  have "find_validator_loop w p iss =
      (case map_of p iss of Some v \<Rightarrow> Some v
       | None \<Rightarrow> (case map_of (rev p) '''' of Some v \<Rightarrow> Some v | None \<Rightarrow> w))" for w
    by (induction p arbitrary: w) (auto simp: map_add_def split: option.splits)
  then show ?thesis by (simp add: findValidator_def split: option.splits)
qed

section \<open>Witnesses\<close>

definition ex_key :: rsa_key where "ex_key = \<lparr>rsa_N = 3233, rsa_E = 17\<rparr>"

definition ex_jv :: jwks_validator where
  "ex_jv = (newJWKSValidator ''http://idp/keys'' 600)\<lparr>jv_keys := [(''k1'', ex_key)], jv_fetchAt := Some 100\<rparr>"

definition ex_fetch :: "int \<Rightarrow> fetch_result \<Rightarrow> fetch_inputs" where
  "ex_fetch now res = \<lparr>fi_now = now, fi_fetch = (\<lambda>_. res), fi_done = now\<rparr>"

definition ex_jwt_lib :: jwt_lib where
  "ex_jwt_lib = \<lparr>jwt_parse = (\<lambda>opts now tok. JFail [ErrOther]),
     json_jwks = (\<lambda>body. if body = ''{}'' then Some []
        else if body = ''k1'' then Some [\<lparr>Kty = ''RSA'', Kid = ''k1'', jwk_N = ''DKE'', jwk_E = ''EQ''\<rparr>] else None)\<rparr>"

lemma jwks_live_hit_no_fetch_witness:
  "getKey ex_jwt_lib (ex_fetch 650 FetchErr) ''k1'' ex_jv = (Inr ex_key, ex_jv)"
  by (rule jwks_live_hit_no_fetch [where t = 100]) (simp_all add: ex_jv_def ex_fetch_def newJWKSValidator_def)

lemma ex_key_decoded: "rsaFromJWK \<lparr>Kty = ''RSA'', Kid = ''k1'', jwk_N = ''DKE'', jwk_E = ''EQ''\<rparr> = Inr ex_key"
  by code_simp

lemma ex_published: "jwks_published ex_jwt_lib (Fetched 200 ''k1'') = Inr [(''k1'', ex_key)]"
  by (simp add: jwks_published_def ex_jwt_lib_def ex_key_decoded)

lemma ex_getKey:
  "fst (getKey ex_jwt_lib (ex_fetch 5 (Fetched 200 ''k1'')) ''k1''
     (getKey_run ex_jwt_lib [] (newJWKSValidator ''http://idp/keys'' 600))) = Inr ex_key"
  by (simp add: getKey_def jwks_refresh_def ex_fetch_def ex_published newJWKSValidator_def jwks_expired_def Let_def)

lemma jwks_serves_published_keys_witness:
  "\<exists>(i, k) \<in> set ([] @ [(ex_fetch 5 (Fetched 200 ''k1''), ''k1'')]). \<exists>ks.
     jwks_published ex_jwt_lib (fi_fetch i ''http://idp/keys'') = Inr ks \<and> map_of ks ''k1'' = Some ex_key"
  by (rule jwks_serves_published_keys [OF ex_getKey])

lemma jwks_stale_while_revalidate_witness:
  "fst (getKey ex_jwt_lib (ex_fetch 900 FetchErr) ''k1'' ex_jv) = Inr ex_key"
  using jwks_stale_while_revalidate [of "ex_fetch 900 FetchErr" ex_jv ex_jwt_lib "[ErrOther]" "''k1''"]
  by (simp add: ex_jv_def ex_fetch_def newJWKSValidator_def jwks_expired_def jwks_published_def)

lemma jwks_error_body_empties_cache_witness:
  "fst (getKey ex_jwt_lib (ex_fetch 900 (Fetched 503 ''{}'')) ''k1'' ex_jv) = Inl [ErrOther]"
  using jwks_error_body_empties_cache [of "ex_fetch 900 (Fetched 503 ''{}'')" ex_jv "''{}''" ex_jwt_lib "''k1''"]
  by (simp add: ex_jv_def ex_fetch_def newJWKSValidator_def jwks_expired_def ex_jwt_lib_def)

end
