(* ===== verification/TokenValidator.thy ===== *)
theory TokenValidator
  imports Response Jwks
begin

text \<open>
  \<open>internal/plugins/tokenvalidator/plugin.go\<close>: the configuration of the token validator in its
  two forms, and its handlers. \<open>token_validator\<close> is the plugin's struct; the validators that the
  code points to live in \<open>tv_heap\<close>, because in the single-issuer form of v2 \<open>jwksVal\<close>
  and the pool's entry are the same object. The inputs of a request are the answer of the one JWKS
  lookup it can make and the time at which the token library reads the clock.
\<close>

section \<open>Failure codes\<close>

record failure_codes =
  fc_MissingToken :: int
  fc_InvalidSignature :: int
  fc_Expired :: int
  fc_NotYetValid :: int
  fc_UnknownIssuer :: int
  fc_AudienceMismatch :: int
  fc_RequiredClaimMissing :: int
  fc_DisallowedAlgorithm :: int
  fc_OversizedToken :: int
  fc_JWKSUnavailable :: int

definition defaultFailureCodes :: failure_codes where
  "defaultFailureCodes =
     \<lparr>fc_MissingToken = 401, fc_InvalidSignature = 401, fc_Expired = 401, fc_NotYetValid = 401,
      fc_UnknownIssuer = 401, fc_AudienceMismatch = 401, fc_RequiredClaimMissing = 401,
      fc_DisallowedAlgorithm = 401, fc_OversizedToken = 400, fc_JWKSUnavailable = 503\<rparr>"

definition defaultFailureCodesV1 :: failure_codes where
  "defaultFailureCodesV1 =
     \<lparr>fc_MissingToken = 403, fc_InvalidSignature = 403, fc_Expired = 403, fc_NotYetValid = 403,
      fc_UnknownIssuer = 403, fc_AudienceMismatch = 403, fc_RequiredClaimMissing = 403,
      fc_DisallowedAlgorithm = 403, fc_OversizedToken = 400, fc_JWKSUnavailable = 503\<rparr>"

definition failure_code :: "config_map \<Rightarrow> string \<Rightarrow> int \<Rightarrow> int" where
  "failure_code m key d =
     (case map_of m key of
        None \<Rightarrow> d
      | Some v \<Rightarrow> (case int_of_any v of Some n \<Rightarrow> n | None \<Rightarrow> d))"

definition parseFailureCodes :: "config_map \<Rightarrow> failure_codes \<Rightarrow> failure_codes" where
  "parseFailureCodes m def =
     \<lparr>fc_MissingToken = failure_code m ''missing_token'' (fc_MissingToken def),
      fc_InvalidSignature = failure_code m ''invalid_signature'' (fc_InvalidSignature def),
      fc_Expired = failure_code m ''expired'' (fc_Expired def),
      fc_NotYetValid = failure_code m ''not_yet_valid'' (fc_NotYetValid def),
      fc_UnknownIssuer = failure_code m ''unknown_issuer'' (fc_UnknownIssuer def),
      fc_AudienceMismatch = failure_code m ''audience_mismatch'' (fc_AudienceMismatch def),
      fc_RequiredClaimMissing = failure_code m ''required_claim_missing'' (fc_RequiredClaimMissing def),
      fc_DisallowedAlgorithm = failure_code m ''disallowed_algorithm'' (fc_DisallowedAlgorithm def),
      fc_OversizedToken = failure_code m ''oversized_token'' (fc_OversizedToken def),
      fc_JWKSUnavailable = failure_code m ''jwks_unavailable'' (fc_JWKSUnavailable def)\<rparr>"

section \<open>State\<close>

record token_validator =
  tv_testMode :: bool
  tv_hs256Key :: string
  tv_jwksVal :: "nat option"
  tv_audience :: string
  tv_v2mode :: bool
  tv_issuersPool :: "jwks_pool option"
  tv_algorithms :: "string list"
  tv_audiences :: "string list"
  tv_clockSkew :: int
  tv_requiredClaims :: "string list"
  tv_propagateMode :: string
  tv_propagateClaims :: "string list"
  tv_tokenHeader :: string
  tv_tokenScheme :: string
  tv_onFailure :: failure_codes
  tv_maxTokenBytes :: int
  tv_heap :: "jwks_validator list"

record tv_inputs =
  tvi_fetch :: fetch_inputs
  tvi_now :: int

definition no_failure_codes :: failure_codes where
  "no_failure_codes = \<lparr>fc_MissingToken = 0, fc_InvalidSignature = 0, fc_Expired = 0, fc_NotYetValid = 0,
     fc_UnknownIssuer = 0, fc_AudienceMismatch = 0, fc_RequiredClaimMissing = 0,
     fc_DisallowedAlgorithm = 0, fc_OversizedToken = 0, fc_JWKSUnavailable = 0\<rparr>"

text \<open>The zero value that \<open>init()\<close> registers.\<close>

definition tv_zero :: token_validator where
  "tv_zero = \<lparr>tv_testMode = False, tv_hs256Key = '''', tv_jwksVal = None, tv_audience = '''',
     tv_v2mode = False, tv_issuersPool = None, tv_algorithms = [], tv_audiences = [], tv_clockSkew = 0,
     tv_requiredClaims = [], tv_propagateMode = '''', tv_propagateClaims = [], tv_tokenHeader = '''',
     tv_tokenScheme = '''', tv_onFailure = no_failure_codes, tv_maxTokenBytes = 0, tv_heap = []\<rparr>"

definition alloc_validator :: "string \<Rightarrow> int \<Rightarrow> token_validator \<Rightarrow> nat \<times> token_validator" where
  "alloc_validator url ttl tv =
     (length (tv_heap tv), tv\<lparr>tv_heap := tv_heap tv @ [newJWKSValidator url ttl]\<rparr>)"

section \<open>Init, version 1\<close>

definition v2_keys :: "string list" where
  "v2_keys = [''issuers'', ''audiences'', ''algorithms'', ''clock_skew_seconds'', ''required_claims'',
     ''propagate_claims'', ''token'', ''on_failure'', ''max_token_bytes'']"

definition isV2Config :: "config_map \<Rightarrow> bool" where
  "isV2Config raw \<longleftrightarrow> list_ex (\<lambda>k. map_of raw k \<noteq> None) v2_keys"

definition initV1 :: "map_config \<Rightarrow> token_validator \<Rightarrow> string + token_validator" where
  "initV1 cfg tv =
     (let testMode = GetBool cfg ''test_mode'';
          jwksURL = GetString cfg ''jwks_url'';
          jwtSecret = GetString cfg ''jwt_secret'';
          audience = GetString cfg ''audience'';
          ttlSecs = int_or (GetInt cfg ''cache_ttl_seconds'') 600
      in if testMode then
           (if jwtSecret = '''' then Inl ''token-validator: test_mode is true but jwt_secret is empty''
            else Inr (tv\<lparr>tv_testMode := True, tv_hs256Key := jwtSecret, tv_audience := audience\<rparr>))
         else if jwksURL \<noteq> '''' then
           (case alloc_validator jwksURL (dur_seconds ttlSecs) tv of
              (a, tv) \<Rightarrow> Inr (tv\<lparr>tv_jwksVal := Some a, tv_audience := audience\<rparr>))
         else Inl (''token-validator: neither jwks_url nor test_mode+jwt_secret is configured; '' @
                   ''set GATEWAY_JWT_JWKS_URL or GATEWAY_JWT_SECRET+test_mode''))"

section \<open>Init, version 2\<close>

record issuer_cfg =
  ic_issuer :: string
  ic_jwksURL :: string
  ic_ttl :: int

definition parse_issuer :: "nat \<Rightarrow> any \<Rightarrow> string + issuer_cfg" where
  "parse_issuer i item =
     (case map_of_any item of
        None \<Rightarrow> Inl (''['' @ itoa (int i) @ ''] must be a map'')
      | Some m \<Rightarrow>
          if get_str m ''jwks_url'' = '''' then Inl (''['' @ itoa (int i) @ '']: jwks_url is required'')
          else Inr \<lparr>ic_issuer = get_str m ''issuer'', ic_jwksURL = get_str m ''jwks_url'',
                 ic_ttl = failure_code m ''jwks_cache_ttl_seconds'' 600\<rparr>)"

fun parse_issuer_items :: "nat \<Rightarrow> any list \<Rightarrow> string + issuer_cfg list" where
  "parse_issuer_items i [] = Inr []"
| "parse_issuer_items i (item # items) =
     and_then (parse_issuer i item) (\<lambda>ic.
       and_then (parse_issuer_items (Suc i) items) (\<lambda>ics. Inr (ic # ics)))"

definition parseIssuers :: "config_map \<Rightarrow> string + issuer_cfg list" where
  "parseIssuers raw =
     (case map_of raw ''issuers'' of
        None \<Rightarrow> Inr []
      | Some (AList items) \<Rightarrow> parse_issuer_items 0 items
      | Some v \<Rightarrow> Inl ''must be a list'')"

text \<open>The loop over the issuers, with the pool built so far.\<close>

fun build_pool ::
    "go_lib \<Rightarrow> issuer_cfg list \<Rightarrow> jwks_pool \<Rightarrow> token_validator \<Rightarrow> string + token_validator" where
  "build_pool lib [] pool tv = Inr (tv\<lparr>tv_issuersPool := Some pool\<rparr>)"
| "build_pool lib (ic # ics) pool tv =
     (if ic_issuer ic = '''' then Inl ''token-validator: issuers[].issuer must be non-empty in v2 mode''
      else if \<not> url_request_uri lib (ic_jwksURL ic)
      then Inl (''token-validator: issuers[].jwks_url '' @ fmt_quote lib (ic_jwksURL ic) @ '' is not a valid URL: '')
      else case alloc_validator (ic_jwksURL ic) (dur_seconds (ic_ttl ic)) tv of
             (a, tv) \<Rightarrow> build_pool lib ics (pool @ [(ic_issuer ic, a)]) tv)"

text \<open>Step 1: the result also says whether the single-issuer shim fired, and the default codes.\<close>

definition v2_issuers ::
    "go_lib \<Rightarrow> map_config \<Rightarrow> config_map \<Rightarrow> token_validator \<Rightarrow> string + token_validator \<times> bool \<times> failure_codes" where
  "v2_issuers lib cfg raw tv =
     (if GetBool cfg ''test_mode'' then
        (if GetString cfg ''jwt_secret'' = ''''
         then Inl ''token-validator: test_mode is true but jwt_secret is empty''
         else Inr (tv\<lparr>tv_testMode := True, tv_hs256Key := GetString cfg ''jwt_secret''\<rparr>, False, defaultFailureCodes))
      else case parseIssuers raw of
             Inl e \<Rightarrow> Inl (''token-validator: issuers: '' @ e)
           | Inr [] \<Rightarrow>
               (let jwksURL = GetString cfg ''jwks_url'' in
                if jwksURL = '''' then
                  Inl (''token-validator: issuers list is empty and test_mode is false; '' @
                       ''set issuers or test_mode+jwt_secret'')
                else
                  (let ttlSecs = int_or (GetInt cfg ''cache_ttl_seconds'') 600 in
                   case alloc_validator jwksURL (dur_seconds ttlSecs) tv of
                     (a, tv) \<Rightarrow> Inr (tv\<lparr>tv_jwksVal := Some a, tv_issuersPool := Some [('''', a)]\<rparr>,
                                  True, defaultFailureCodesV1)))
           | Inr ics \<Rightarrow>
               and_then (build_pool lib ics [] tv) (\<lambda>tv. Inr (tv, False, defaultFailureCodes)))"

definition v2_algorithms :: "map_config \<Rightarrow> token_validator \<Rightarrow> string + token_validator" where
  "v2_algorithms cfg tv =
     (if GetBool cfg ''test_mode'' then Inr (tv\<lparr>tv_algorithms := [''HS256'']\<rparr>)
      else let algs = GetStringSlice cfg ''algorithms'';
               algs = (if algs = [] then [''RS256'', ''ES256''] else algs)
           in if list_ex (\<lambda>a. equal_fold a ''none'') algs
              then Inl (''token-validator: algorithm '' @ [CHR 0x22] @ ''none'' @ [CHR 0x22] @ '' is forbidden '')
              else Inr (tv\<lparr>tv_algorithms := algs\<rparr>))"

definition v2_audiences :: "map_config \<Rightarrow> bool \<Rightarrow> token_validator \<Rightarrow> token_validator" where
  "v2_audiences cfg v1Shim tv =
     (let auds = GetStringSlice cfg ''audiences'' in
      if auds \<noteq> [] then tv\<lparr>tv_audiences := auds\<rparr>
      else if \<not> v1Shim then tv
      else if GetString cfg ''audience'' \<noteq> '''' then tv\<lparr>tv_audiences := [GetString cfg ''audience'']\<rparr>
      else tv)"

definition v2_skew :: "map_config \<Rightarrow> token_validator \<Rightarrow> string + token_validator" where
  "v2_skew cfg tv =
     (let skewSecs = GetInt cfg ''clock_skew_seconds'';
          skewSecs = (if skewSecs = 0 then 60 else skewSecs)
      in if skewSecs < 0 \<or> skewSecs > 600
         then Inl (''token-validator: clock_skew_seconds must be 0..600, got '' @ itoa skewSecs)
         else Inr (tv\<lparr>tv_clockSkew := dur_seconds skewSecs\<rparr>))"

definition v2_required :: "map_config \<Rightarrow> token_validator \<Rightarrow> token_validator" where
  "v2_required cfg tv =
     (let rc = GetStringSlice cfg ''required_claims'' in
      tv\<lparr>tv_requiredClaims := (if rc \<noteq> [] then rc else [''sub''])\<rparr>)"

fun strings_only :: "any list \<Rightarrow> string list option" where
  "strings_only [] = Some []"
| "strings_only (x # xs) =
     (case str_of x of None \<Rightarrow> None | Some s \<Rightarrow> map_option (\<lambda>ss. s # ss) (strings_only xs))"

text \<open>\<open>None\<close> is the error; an absent key is Go's nil.\<close>

definition stringSliceFromAny :: "any option \<Rightarrow> string list option" where
  "stringSliceFromAny v =
     (case v of
        None \<Rightarrow> Some []
      | Some ANil \<Rightarrow> Some []
      | Some (AStrs ss) \<Rightarrow> Some ss
      | Some (AList xs) \<Rightarrow> strings_only xs
      | Some x \<Rightarrow> None)"

definition v2_propagate :: "go_lib \<Rightarrow> config_map \<Rightarrow> token_validator \<Rightarrow> string + token_validator" where
  "v2_propagate lib raw tv0 =
     (let tv = tv0\<lparr>tv_propagateMode := ''all''\<rparr> in
      case Option.bind (map_of raw ''propagate_claims'') map_of_any of
        None \<Rightarrow> Inr tv
      | Some pcRaw \<Rightarrow>
          (let mode = get_str pcRaw ''mode'';
               tv = (if mode \<noteq> '''' then tv\<lparr>tv_propagateMode := mode\<rparr> else tv)
           in if tv_propagateMode tv \<noteq> ''all'' \<and> tv_propagateMode tv \<noteq> ''allowlist''
              then Inl (''token-validator: propagate_claims.mode must be '' @ [CHR 0x22] @ ''all'' @ [CHR 0x22] @
                     '' or '' @ [CHR 0x22] @ ''allowlist'' @ [CHR 0x22] @ '', got '' @ fmt_quote lib (tv_propagateMode tv))
              else if tv_propagateMode tv = ''allowlist'' then
                (case stringSliceFromAny (map_of pcRaw ''claims'') of
                   Some (c # cs) \<Rightarrow> Inr (tv\<lparr>tv_propagateClaims := c # cs\<rparr>)
                 | _ \<Rightarrow> Inl ''token-validator: propagate_claims.mode=allowlist requires non-empty claims list'')
              else Inr tv))"

definition v2_token :: "config_map \<Rightarrow> token_validator \<Rightarrow> string + token_validator" where
  "v2_token raw tv =
     (let tv = tv\<lparr>tv_tokenHeader := ''Authorization'', tv_tokenScheme := ''Bearer''\<rparr> in
      case Option.bind (map_of raw ''token'') map_of_any of
        None \<Rightarrow> Inr tv
      | Some tokenRaw \<Rightarrow>
          (let tv = (case Option.bind (map_of tokenRaw ''header'') str_of of
                       Some h \<Rightarrow> if h \<noteq> '''' then tv\<lparr>tv_tokenHeader := h\<rparr> else tv
                     | None \<Rightarrow> tv)
           in if tv_tokenHeader tv = '''' then Inl ''token-validator: token.header must not be empty''
              else Inr (case Option.bind (map_of tokenRaw ''scheme'') str_of of
                          Some s \<Rightarrow> tv\<lparr>tv_tokenScheme := s\<rparr>
                        | None \<Rightarrow> tv)))"

definition v2_maxbytes :: "map_config \<Rightarrow> token_validator \<Rightarrow> string + token_validator" where
  "v2_maxbytes cfg tv =
     (let maxBytes = GetInt cfg ''max_token_bytes'';
          maxBytes = (if maxBytes = 0 then 8192 else maxBytes)
      in if maxBytes < 0 \<or> maxBytes > 65536
         then Inl (''token-validator: max_token_bytes must be 1..65536, got '' @ itoa maxBytes)
         else Inr (tv\<lparr>tv_maxTokenBytes := maxBytes\<rparr>))"

definition v2_codes :: "config_map \<Rightarrow> failure_codes \<Rightarrow> token_validator \<Rightarrow> token_validator" where
  "v2_codes raw failDefaults tv =
     (case Option.bind (map_of raw ''on_failure'') map_of_any of
        Some fcRaw \<Rightarrow> tv\<lparr>tv_onFailure := parseFailureCodes fcRaw failDefaults\<rparr>
      | None \<Rightarrow> tv\<lparr>tv_onFailure := failDefaults\<rparr>)"

definition initV2 :: "go_lib \<Rightarrow> map_config \<Rightarrow> config_map \<Rightarrow> token_validator \<Rightarrow> string + token_validator" where
  "initV2 lib cfg raw tv =
     and_then (v2_issuers lib cfg raw tv) (\<lambda>(tv, v1Shim, failDefaults).
     and_then (v2_algorithms cfg tv) (\<lambda>tv.
     and_then (v2_skew cfg (v2_audiences cfg v1Shim tv)) (\<lambda>tv.
     and_then (v2_propagate lib raw (v2_required cfg tv)) (\<lambda>tv.
     and_then (v2_token raw tv) (\<lambda>tv.
     and_then (v2_maxbytes cfg tv) (\<lambda>tv.
     Inr (v2_codes raw failDefaults tv)))))))"

definition tv_Init :: "go_lib \<Rightarrow> map_config \<Rightarrow> token_validator \<Rightarrow> string + token_validator" where
  "tv_Init lib cfg tv =
     (if \<not> GetBool cfg ''enabled'' then Inl (''token-validator cannot be disabled (always-on '' @ [CHR 0xC2, CHR 0xA7] @ ''5)'')
      else let raw = Raw cfg; tv = tv\<lparr>tv_v2mode := isV2Config raw\<rparr>
           in if tv_v2mode tv then initV2 lib cfg raw tv else initV1 cfg tv)"

section \<open>Reading the token\<close>

definition extractBearer :: "http_request \<Rightarrow> string option" where
  "extractBearer r =
     (case cut_prefix (req_header r ''Authorization'') ''Bearer '' of
        (after, ok) \<Rightarrow> if \<not> ok \<or> after = '''' then None else Some after)"

definition extractTokenV2 :: "token_validator \<Rightarrow> http_request \<Rightarrow> string option" where
  "extractTokenV2 tv r =
     (let val = req_header r (tv_tokenHeader tv) in
      if val = '''' then None
      else if tv_tokenScheme tv = '''' then Some val
      else case cut_prefix val (tv_tokenScheme tv @ '' '') of
             (after, ok) \<Rightarrow> if \<not> ok \<or> after = '''' then None else Some after)"

text \<open>One field of a JSON object in a part of the token, \<open>""\<close> when anything is wrong.\<close>

definition peek :: "go_lib \<Rightarrow> nat \<Rightarrow> string \<Rightarrow> string \<Rightarrow> string" where
  "peek lib i key tokenStr =
     (let parts = split_n 3 (CHR ''.'') tokenStr in
      if length parts \<noteq> 3 then ''''
      else case RawURLDecode (parts ! i) of
             None \<Rightarrow> ''''
           | Some bs \<Rightarrow> (case json_object lib bs of None \<Rightarrow> '''' | Some m \<Rightarrow> get_str m key))"

definition peekAlgorithm :: "go_lib \<Rightarrow> string \<Rightarrow> string" where
  "peekAlgorithm lib tokenStr = peek lib 0 ''alg'' tokenStr"

definition peekIssuer :: "go_lib \<Rightarrow> string \<Rightarrow> string" where
  "peekIssuer lib tokenStr = peek lib 1 ''iss'' tokenStr"

section \<open>Claims\<close>

definition claimStr :: "config_map \<Rightarrow> string \<Rightarrow> string" where
  "claimStr mc key = get_str mc key"

definition claimStrSlice :: "config_map \<Rightarrow> string \<Rightarrow> string list" where
  "claimStrSlice mc key =
     (case map_of mc key of
        Some (AList arr) \<Rightarrow> List.map_filter str_of arr
      | _ \<Rightarrow> [])"

fun allowed_claims :: "config_map \<Rightarrow> string list \<Rightarrow> config_map \<Rightarrow> config_map" where
  "allowed_claims mc [] filtered = filtered"
| "allowed_claims mc (k # allow) filtered =
     (case map_of mc k of
        Some v \<Rightarrow> allowed_claims mc allow (al_put k v filtered)
      | None \<Rightarrow> allowed_claims mc allow filtered)"

definition propagateClaimsToCtx :: "ctx \<Rightarrow> config_map \<Rightarrow> string \<Rightarrow> string list \<Rightarrow> ctx" where
  "propagateClaimsToCtx c mc mode allow =
     (if mode = ''allowlist'' then WithJWTClaims c (allowed_claims mc allow [])
      else WithJWTClaims c mc)"

fun token_auds :: "any \<Rightarrow> string list" where
  "token_auds (AStr v) = [v]"
| "token_auds (AList vs) = List.map_filter str_of vs"
| "token_auds (AStrs vs) = vs"
| "token_auds v = []"

definition checkAudiences :: "config_map \<Rightarrow> string list \<Rightarrow> bool" where
  "checkAudiences mc audiences =
     (case map_of mc ''aud'' of
        None \<Rightarrow> False
      | Some aud \<Rightarrow> list_ex (\<lambda>ta. list_ex (\<lambda>ca. ta = ca) audiences) (token_auds aud))"

fun checkRequiredClaims :: "config_map \<Rightarrow> string list \<Rightarrow> string" where
  "checkRequiredClaims mc [] = ''''"
| "checkRequiredClaims mc (name # required) =
     (case map_of mc name of
        None \<Rightarrow> name
      | Some v \<Rightarrow> if str_of v = Some '''' then name else checkRequiredClaims mc required)"

text \<open>The actor fields that both handlers store.\<close>

definition with_actor :: "config_map \<Rightarrow> ctx \<Rightarrow> ctx" where
  "with_actor mc c =
     (let c = WithActorSubject c (claimStr mc ''sub'');
          c = WithActorRoles c (claimStrSlice mc ''roles'');
          tid = claimStr mc ''tenant_id''
      in if tid \<noteq> '''' then WithTenantID c tid else c)"

section \<open>Error answers\<close>

definition trace_ids :: "http_request \<Rightarrow> trace" where
  "trace_ids r =
     (let corrID = CorrelationID (r_ctx r);
          corrID = (if corrID = '''' then req_header r ''X-Correlation-ID'' else corrID);
          reqID = RequestID (r_ctx r);
          reqID = (if reqID = '''' then req_header r ''X-Request-ID'' else reqID)
      in trace_of corrID reqID '''')"

definition writeForbidden :: "writer \<Rightarrow> http_request \<Rightarrow> string \<Rightarrow> string \<Rightarrow> writer" where
  "writeForbidden w r code msg =
     WriteError w 403 \<lparr>ErrType = ''forbidden'', Code = code, Message = msg, RetryAfter = 0, Trace = trace_ids r\<rparr>"

definition writeMissingToken :: "writer \<Rightarrow> http_request \<Rightarrow> writer" where
  "writeMissingToken w r =
     WriteError
       (set_header ''WWW-Authenticate''
          (''Bearer realm='' @ [CHR 0x22] @ ''yaagents-gateway'' @ [CHR 0x22]) w)
       401 \<lparr>ErrType = ''unauthorized'', Code = ''MISSING_TOKEN'',
            Message = ''Authorization header with Bearer token is required'', RetryAfter = 0, Trace = trace_ids r\<rparr>"

definition v2_error_body :: "http_request \<Rightarrow> string \<Rightarrow> string \<Rightarrow> error_body" where
  "v2_error_body r code msg =
     \<lparr>ErrType = ''error'', Code = code, Message = msg, RetryAfter = 0, Trace = trace_ids r\<rparr>"

definition writeV2Error :: "writer \<Rightarrow> http_request \<Rightarrow> int \<Rightarrow> string \<Rightarrow> string \<Rightarrow> writer" where
  "writeV2Error w r status code msg = WriteError w status (v2_error_body r code msg)"

section \<open>Validation\<close>

definition hmac_keyfunc :: "string \<Rightarrow> jwt_token \<Rightarrow> 's \<Rightarrow> (jwt_error + jwt_key) \<times> 's" where
  "hmac_keyfunc key t s =
     (if jt_Method t \<noteq> SigningMethodHMAC then (Inl [ErrOther], s) else (Inr (HmacKey key), s))"

definition validateHS256 :: "jwt_lib \<Rightarrow> int \<Rightarrow> string \<Rightarrow> string \<Rightarrow> string \<Rightarrow> jwt_error + config_map" where
  "validateHS256 jl now tokenStr key audience =
     (let opts = \<lparr>po_methods = [''HS256''], po_expiration_required = True,
            po_audience = (if audience \<noteq> '''' then Some audience else None), po_leeway = None\<rparr>
      in as_map_claims (fst (jwt_Parse jl opts now tokenStr (hmac_keyfunc key) ())))"

definition validateHS256V2 :: "jwt_lib \<Rightarrow> int \<Rightarrow> string \<Rightarrow> string \<Rightarrow> int \<Rightarrow> jwt_error + config_map" where
  "validateHS256V2 jl now tokenStr key skew =
     as_map_claims (fst (jwt_Parse jl (with_opts [''HS256''] skew) now tokenStr (hmac_keyfunc key) ()))"

text \<open>An operation on the validator at an address.\<close>

definition at_addr ::
    "nat \<Rightarrow> (jwks_validator \<Rightarrow> 'a \<times> jwks_validator) \<Rightarrow> token_validator \<Rightarrow> 'a \<times> token_validator" where
  "at_addr a f tv =
     (case f (tv_heap tv ! a) of (x, v) \<Rightarrow> (x, tv\<lparr>tv_heap := (tv_heap tv)[a := v]\<rparr>))"

text \<open>\<open>None\<close> is a call on a nil validator, which panics.\<close>

definition tv_validate ::
    "jwt_lib \<Rightarrow> tv_inputs \<Rightarrow> string \<Rightarrow> token_validator \<Rightarrow> (jwt_error + config_map) option \<times> token_validator" where
  "tv_validate jl inp tokenStr tv =
     (if tv_testMode tv
      then (Some (validateHS256 jl (tvi_now inp) tokenStr (tv_hs256Key tv) (tv_audience tv)), tv)
      else case tv_jwksVal tv of
             None \<Rightarrow> (None, tv)
           | Some a \<Rightarrow>
               (case at_addr a (jwks_validate jl (tvi_fetch inp) (tvi_now inp) tokenStr (tv_audience tv)) tv of
                  (res, tv) \<Rightarrow> (Some res, tv)))"

section \<open>Handlers\<close>

definition handleV1 :: "jwt_lib \<Rightarrow> tv_inputs \<Rightarrow> token_validator decision" where
  "handleV1 jl inp r w tv =
     (case extractBearer r of
        None \<Rightarrow> (Respond (writeMissingToken w r), tv)
      | Some tokenStr \<Rightarrow>
          (case tv_validate jl inp tokenStr tv of
             (None, tv) \<Rightarrow> (Respond (panic w), tv)
           | (Some (Inl err), tv) \<Rightarrow>
               (Respond (writeForbidden w r ''INVALID_TOKEN'' ''token validation failed''), tv)
           | (Some (Inr mc), tv) \<Rightarrow>
               (Next (with_context r (WithJWTClaims (with_actor mc (r_ctx r)) mc)) w, tv)))"

text \<open>The algorithm check before the signature: \<open>None\<close> when the token may go on.\<close>

definition v2_precheck :: "go_lib \<Rightarrow> token_validator \<Rightarrow> string \<Rightarrow> (int \<times> string \<times> string) option" where
  "v2_precheck lib tv tokenStr =
     (if tv_testMode tv then None
      else let alg = peekAlgorithm lib tokenStr in
        if alg = '''' then
          Some (fc_InvalidSignature (tv_onFailure tv), ''INVALID_TOKEN'', ''malformed JWT: cannot decode header'')
        else if \<not> list_ex (\<lambda>a. a = alg) (tv_algorithms tv) then
          Some (fc_DisallowedAlgorithm (tv_onFailure tv), ''DISALLOWED_ALGORITHM'',
            ''algorithm '' @ fmt_quote lib alg @ '' is not allowed'')
        else None)"

datatype v2_result = Panicked | UnknownIssuer string | Validated "jwt_error + config_map"

definition v2_validate ::
    "go_lib \<Rightarrow> jwt_lib \<Rightarrow> tv_inputs \<Rightarrow> string \<Rightarrow> token_validator \<Rightarrow> v2_result \<times> token_validator" where
  "v2_validate lib jl inp tokenStr tv =
     (if tv_testMode tv
      then (Validated (validateHS256V2 jl (tvi_now inp) tokenStr (tv_hs256Key tv) (tv_clockSkew tv)), tv)
      else case tv_issuersPool tv of
             None \<Rightarrow> (Panicked, tv)
           | Some pool \<Rightarrow>
               (let iss = peekIssuer lib tokenStr in
                case findValidator pool iss of
                  None \<Rightarrow> (UnknownIssuer iss, tv)
                | Some a \<Rightarrow>
                    (case at_addr a (validateWith jl (tvi_fetch inp) (tvi_now inp) tokenStr (tv_algorithms tv) (tv_clockSkew tv)) tv of
                       (res, tv) \<Rightarrow> (Validated res, tv))))"

definition v2_validation_error :: "token_validator \<Rightarrow> jwt_error \<Rightarrow> int \<times> string \<times> string" where
  "v2_validation_error tv err =
     (if isJWKSUnavailable err then
        (fc_JWKSUnavailable (tv_onFailure tv), ''JWKS_UNAVAILABLE'', ''JWKS service unavailable; try again later'')
      else if ErrTokenExpired \<in> set err then
        (fc_Expired (tv_onFailure tv), ''TOKEN_EXPIRED'', ''token has expired'')
      else if ErrTokenNotValidYet \<in> set err then
        (fc_NotYetValid (tv_onFailure tv), ''TOKEN_NOT_YET_VALID'', ''token is not yet valid'')
      else (fc_InvalidSignature (tv_onFailure tv), ''INVALID_TOKEN'', ''token validation failed''))"

text \<open>The audience and required-claims checks: \<open>None\<close> when the claims pass.\<close>

definition v2_claims_check :: "go_lib \<Rightarrow> token_validator \<Rightarrow> config_map \<Rightarrow> (int \<times> string \<times> string) option" where
  "v2_claims_check lib tv mc =
     (if tv_audiences tv \<noteq> [] \<and> \<not> checkAudiences mc (tv_audiences tv) then
        Some (fc_AudienceMismatch (tv_onFailure tv), ''AUDIENCE_MISMATCH'',
          ''token audience does not match configured audiences'')
      else let missing = checkRequiredClaims mc (tv_requiredClaims tv) in
        if missing \<noteq> '''' then
          Some (fc_RequiredClaimMissing (tv_onFailure tv), ''REQUIRED_CLAIM_MISSING'',
            ''required claim '' @ fmt_quote lib missing @ '' is missing or empty'')
        else None)"

definition v2_reject :: "writer \<Rightarrow> http_request \<Rightarrow> int \<times> string \<times> string \<Rightarrow> verdict" where
  "v2_reject w r e = (case e of (status, code, msg) \<Rightarrow> Respond (writeV2Error w r status code msg))"

definition v2_context :: "token_validator \<Rightarrow> config_map \<Rightarrow> ctx \<Rightarrow> ctx" where
  "v2_context tv mc c = with_actor mc (propagateClaimsToCtx c mc (tv_propagateMode tv) (tv_propagateClaims tv))"

definition handleV2 :: "go_lib \<Rightarrow> jwt_lib \<Rightarrow> tv_inputs \<Rightarrow> token_validator decision" where
  "handleV2 lib jl inp r w tv =
     (case extractTokenV2 tv r of
        None \<Rightarrow> (v2_reject w r (fc_MissingToken (tv_onFailure tv), ''MISSING_TOKEN'', ''token is required''), tv)
      | Some tokenStr \<Rightarrow>
          if tv_maxTokenBytes tv > 0 \<and> int (length tokenStr) > tv_maxTokenBytes tv then
            (v2_reject w r (fc_OversizedToken (tv_onFailure tv), ''OVERSIZED_TOKEN'',
               ''token exceeds maximum size of '' @ itoa (tv_maxTokenBytes tv) @ '' bytes''), tv)
          else
            (case v2_precheck lib tv tokenStr of
               Some e \<Rightarrow> (v2_reject w r e, tv)
             | None \<Rightarrow>
                 (case v2_validate lib jl inp tokenStr tv of
                    (Panicked, tv) \<Rightarrow> (Respond (panic w), tv)
                  | (UnknownIssuer iss, tv) \<Rightarrow>
                      (v2_reject w r (fc_UnknownIssuer (tv_onFailure tv), ''UNKNOWN_ISSUER'',
                         ''issuer '' @ fmt_quote lib iss @ '' is not configured''), tv)
                  | (Validated (Inl err), tv) \<Rightarrow> (v2_reject w r (v2_validation_error tv err), tv)
                  | (Validated (Inr mc), tv) \<Rightarrow>
                      (case v2_claims_check lib tv mc of
                         Some e \<Rightarrow> (v2_reject w r e, tv)
                       | None \<Rightarrow> (Next (with_context r (v2_context tv mc (r_ctx r))) w, tv)))))"

definition tv_handle :: "go_lib \<Rightarrow> jwt_lib \<Rightarrow> tv_inputs \<Rightarrow> token_validator decision" where
  "tv_handle lib jl inp r w tv =
     (if tv_v2mode tv then handleV2 lib jl inp r w tv else handleV1 jl inp r w tv)"

section \<open>What Init establishes\<close>

lemma v2_algorithms_Inr:
  assumes "v2_algorithms cfg tv = Inr tv'"
  obtains algs where "tv' = tv\<lparr>tv_algorithms := algs\<rparr>" and "algs \<noteq> []"
    and "\<forall>a \<in> set algs. \<not> equal_fold a ''none''"
proof (cases "GetBool cfg ''test_mode''")
  case True
  have "\<not> equal_fold ''HS256'' ''none''" by (simp add: equal_fold_def)
  with True assms show thesis by (intro that [of "[''HS256'']"]) (auto simp: v2_algorithms_def)
next
  case False
  let ?algs = "if GetStringSlice cfg ''algorithms'' = [] then [''RS256'', ''ES256''] else GetStringSlice cfg ''algorithms''"
  from False assms have "tv' = tv\<lparr>tv_algorithms := ?algs\<rparr>" "\<not> list_ex (\<lambda>a. equal_fold a ''none'') ?algs"
    by (simp_all add: v2_algorithms_def Let_def split: if_split_asm)
  then show thesis by (intro that [of ?algs]) (auto simp: list_ex_iff)
qed

lemma v2_audiences_frame:
  obtains auds where "v2_audiences cfg shim tv = tv\<lparr>tv_audiences := auds\<rparr>"
proof -
  have "v2_audiences cfg shim tv = tv\<lparr>tv_audiences := tv_audiences (v2_audiences cfg shim tv)\<rparr>"
    by (simp add: v2_audiences_def Let_def)
  then show thesis by (rule that)
qed

lemma v2_skew_Inr:
  assumes "v2_skew cfg tv = Inr tv'"
  obtains s where "tv' = tv\<lparr>tv_clockSkew := s * second_ns\<rparr>" and "1 \<le> s" and "s \<le> 600"
proof -
  let ?s = "if GetInt cfg ''clock_skew_seconds'' = 0 then 60 else GetInt cfg ''clock_skew_seconds''"
  from assms have s: "0 \<le> ?s" "?s \<le> 600" "tv' = tv\<lparr>tv_clockSkew := dur_seconds ?s\<rparr>"
    unfolding v2_skew_def Let_def by (simp_all only: split: if_split_asm) auto
  moreover from s(1,2) have "dur_seconds ?s = ?s * second_ns" by (intro dur_seconds_exact) linarith
  ultimately show thesis by (intro that [of ?s]) auto
qed

lemma v2_propagate_Inr:
  assumes "v2_propagate lib raw tv = Inr tv'"
  obtains m cs where "tv' = tv\<lparr>tv_propagateMode := m, tv_propagateClaims := cs\<rparr>"
    and "m = ''all'' \<or> m = ''allowlist'' \<and> cs \<noteq> []"
proof (cases "Option.bind (map_of raw ''propagate_claims'') map_of_any")
  case None
  with assms show thesis
    by (intro that [where m = "''all''" and cs = "tv_propagateClaims tv"]) (auto simp: v2_propagate_def Let_def)
next
  case (Some pc)
  let ?m = "if get_str pc ''mode'' = '''' then ''all'' else get_str pc ''mode''"
  consider "?m = ''all''" | "?m = ''allowlist''"
    using assms Some by (auto simp: v2_propagate_def Let_def split: if_split_asm)
  then show thesis
  proof cases
    case 1
    then show thesis using assms Some
      by (intro that [where m = "''all''" and cs = "tv_propagateClaims tv"])
        (auto simp: v2_propagate_def Let_def split: if_split_asm)
  next
    case 2
    then have "get_str pc ''mode'' = ''allowlist''" by (auto split: if_split_asm)
    with assms Some obtain c cs where "stringSliceFromAny (map_of pc ''claims'') = Some (c # cs)"
      "tv' = tv\<lparr>tv_propagateMode := ''allowlist'', tv_propagateClaims := c # cs\<rparr>"
      by (auto simp: v2_propagate_def Let_def split: option.splits list.splits)
    then show thesis by (intro that [where m = "''allowlist''" and cs = "c # cs"]) auto
  qed
qed

lemma v2_token_Inr:
  assumes "v2_token raw tv = Inr tv'"
  obtains h s where "tv' = tv\<lparr>tv_tokenHeader := h, tv_tokenScheme := s\<rparr>" and "h \<noteq> ''''"
proof (rule that [where h = "tv_tokenHeader tv'" and s = "tv_tokenScheme tv'"])
  show "tv' = tv\<lparr>tv_tokenHeader := tv_tokenHeader tv', tv_tokenScheme := tv_tokenScheme tv'\<rparr>"
    using assms unfolding v2_token_def Let_def by (simp split: option.split_asm if_split_asm) (drule sym, simp)+
  show "tv_tokenHeader tv' \<noteq> ''''"
    using assms unfolding v2_token_def Let_def by (simp split: option.split_asm if_split_asm) (drule sym, simp)+
qed

lemma v2_maxbytes_Inr:
  assumes "v2_maxbytes cfg tv = Inr tv'"
  obtains n where "tv' = tv\<lparr>tv_maxTokenBytes := n\<rparr>" and "1 \<le> n" and "n \<le> 65536"
proof (rule that [where n = "if GetInt cfg ''max_token_bytes'' = 0 then 8192 else GetInt cfg ''max_token_bytes''"])
qed (use assms in \<open>auto simp: v2_maxbytes_def Let_def split: if_split_asm\<close>)

lemma v2_codes_frame:
  "v2_codes raw fd tv =
     tv\<lparr>tv_onFailure := (case Option.bind (map_of raw ''on_failure'') map_of_any of
        Some m \<Rightarrow> parseFailureCodes m fd | None \<Rightarrow> fd)\<rparr>"
  by (simp add: v2_codes_def split: option.splits)

text \<open>The checked settings of a v2 configuration.\<close>

definition v2_settings_ok :: "token_validator \<Rightarrow> bool" where
  "v2_settings_ok tv \<longleftrightarrow>
     tv_algorithms tv \<noteq> [] \<and> (\<forall>a \<in> set (tv_algorithms tv). \<not> equal_fold a ''none'') \<and>
     second_ns \<le> tv_clockSkew tv \<and> tv_clockSkew tv \<le> 600 * second_ns \<and>
     tv_requiredClaims tv \<noteq> [] \<and>
     (tv_propagateMode tv = ''all'' \<or> tv_propagateMode tv = ''allowlist'' \<and> tv_propagateClaims tv \<noteq> []) \<and>
     tv_tokenHeader tv \<noteq> '''' \<and> 1 \<le> tv_maxTokenBytes tv \<and> tv_maxTokenBytes tv \<le> 65536"

lemma initV2_Inr:
  assumes "initV2 lib cfg raw tv0 = Inr tv"
  obtains tv1 shim fd where "v2_issuers lib cfg raw tv0 = Inr (tv1, shim, fd)"
    and "v2_settings_ok tv"
    and "tv_testMode tv = tv_testMode tv1" "tv_v2mode tv = tv_v2mode tv1" "tv_jwksVal tv = tv_jwksVal tv1"
      "tv_issuersPool tv = tv_issuersPool tv1" "tv_heap tv = tv_heap tv1" "tv_hs256Key tv = tv_hs256Key tv1"
    and "tv_onFailure tv = (case Option.bind (map_of raw ''on_failure'') map_of_any of
        Some m \<Rightarrow> parseFailureCodes m fd | None \<Rightarrow> fd)"
proof -
  from assms obtain p where p: "v2_issuers lib cfg raw tv0 = Inr p"
    unfolding initV2_def and_then_eq_Inr by blast
  obtain tv1 shim fd where "p = (tv1, shim, fd)" by (cases p)
  with p have 1: "v2_issuers lib cfg raw tv0 = Inr (tv1, shim, fd)" by simp
  from assms obtain tv2 tv3 tv4 tv5 tv6 where
    2: "v2_algorithms cfg tv1 = Inr tv2"
    and 3: "v2_skew cfg (v2_audiences cfg shim tv2) = Inr tv3"
    and 4: "v2_propagate lib raw (v2_required cfg tv3) = Inr tv4"
    and 5: "v2_token raw tv4 = Inr tv5"
    and 6: "v2_maxbytes cfg tv5 = Inr tv6"
    and 7: "tv = v2_codes raw fd tv6"
    unfolding initV2_def 1 and_then_simps prod.case and_then_eq_Inr by blast
  obtain algs where a: "tv2 = tv1\<lparr>tv_algorithms := algs\<rparr>" "algs \<noteq> []" "\<forall>a \<in> set algs. \<not> equal_fold a ''none''"
    using v2_algorithms_Inr [OF 2] .
  obtain auds where b: "v2_audiences cfg shim tv2 = tv2\<lparr>tv_audiences := auds\<rparr>" by (rule v2_audiences_frame)
  obtain s where c: "tv3 = (tv2\<lparr>tv_audiences := auds\<rparr>)\<lparr>tv_clockSkew := s * second_ns\<rparr>" "1 \<le> s" "s \<le> 600"
    using v2_skew_Inr [OF 3 [unfolded b]] .
  obtain m cs where d: "tv4 = (v2_required cfg tv3)\<lparr>tv_propagateMode := m, tv_propagateClaims := cs\<rparr>"
      "m = ''all'' \<or> m = ''allowlist'' \<and> cs \<noteq> []"
    using v2_propagate_Inr [OF 4] .
  obtain h sch where e: "tv5 = tv4\<lparr>tv_tokenHeader := h, tv_tokenScheme := sch\<rparr>" "h \<noteq> ''''"
    using v2_token_Inr [OF 5] .
  obtain n where f: "tv6 = tv5\<lparr>tv_maxTokenBytes := n\<rparr>" "1 \<le> n" "n \<le> 65536"
    using v2_maxbytes_Inr [OF 6] .
  have tv: "tv = tv6\<lparr>tv_onFailure := (case Option.bind (map_of raw ''on_failure'') map_of_any of
        Some m \<Rightarrow> parseFailureCodes m fd | None \<Rightarrow> fd)\<rparr>"
    using 7 by (simp add: v2_codes_frame)
  have "v2_settings_ok tv"
    using a b c d e f by (simp add: tv v2_settings_ok_def v2_required_def Let_def)
  then show thesis
    by (intro that [OF 1]) (simp_all add: tv a b c d e f v2_required_def Let_def)
qed

text \<open>Every address the plugin holds is one of its validators, and the mode that is on has its keys.\<close>

definition tv_addrs_ok :: "token_validator \<Rightarrow> bool" where
  "tv_addrs_ok tv \<longleftrightarrow>
     (\<forall>a. tv_jwksVal tv = Some a \<longrightarrow> a < length (tv_heap tv)) \<and>
     (\<forall>pool. tv_issuersPool tv = Some pool \<longrightarrow> (\<forall>a \<in> snd ` set pool. a < length (tv_heap tv)))"

definition tv_wf :: "token_validator \<Rightarrow> bool" where
  "tv_wf tv \<longleftrightarrow> tv_addrs_ok tv \<and>
     (if tv_testMode tv then True
      else if tv_v2mode tv then tv_issuersPool tv \<noteq> None
      else tv_jwksVal tv \<noteq> None)"

lemma tv_addrs_zero [simp]: "tv_addrs_ok tv_zero"
  by (simp add: tv_addrs_ok_def tv_zero_def)

lemma build_pool_Inr:
  assumes "build_pool lib ics pool tv0 = Inr tv"
  shows "\<exists>ps vs. tv = tv0\<lparr>tv_issuersPool := Some (pool @ ps), tv_heap := tv_heap tv0 @ vs\<rparr> \<and>
    length ps = length ics \<and> length vs = length ics \<and>
    (\<forall>i < length ics. ps ! i = (ic_issuer (ics ! i), length (tv_heap tv0) + i) \<and>
       vs ! i = newJWKSValidator (ic_jwksURL (ics ! i)) (dur_seconds (ic_ttl (ics ! i))) \<and>
       ic_issuer (ics ! i) \<noteq> '''')"
  using assms
proof (induction ics arbitrary: pool tv0)
  case Nil
  then show ?case by (intro exI [of _ "[]"]) auto
next
  case (Cons ic ics)
  let ?a = "length (tv_heap tv0)" and ?v = "newJWKSValidator (ic_jwksURL ic) (dur_seconds (ic_ttl ic))"
  from Cons.prems have ne: "ic_issuer ic \<noteq> ''''"
    and rest: "build_pool lib ics (pool @ [(ic_issuer ic, ?a)]) (tv0\<lparr>tv_heap := tv_heap tv0 @ [?v]\<rparr>) = Inr tv"
    by (auto simp: alloc_validator_def split: if_split_asm)
  from Cons.IH [OF rest] obtain ps vs where
    "tv = tv0\<lparr>tv_issuersPool := Some ((pool @ [(ic_issuer ic, ?a)]) @ ps), tv_heap := (tv_heap tv0 @ [?v]) @ vs\<rparr>"
    "length ps = length ics" "length vs = length ics"
    and nth: "\<forall>i < length ics. ps ! i = (ic_issuer (ics ! i), Suc ?a + i) \<and>
       vs ! i = newJWKSValidator (ic_jwksURL (ics ! i)) (dur_seconds (ic_ttl (ics ! i))) \<and> ic_issuer (ics ! i) \<noteq> ''''"
    by auto
  then show ?case using ne
    by (intro exI [of _ "(ic_issuer ic, ?a) # ps"] exI [of _ "?v # vs"]) (auto simp: nth_Cons split: nat.splits)
qed

interpretation tv_mw: middleware "middleware_of get put (tv_handle lib jl inp)" for get put lib jl inp
  by (rule middleware_middleware_of)

end
