(* ===== verification/TokenSafety.thy ===== *)
theory TokenSafety
  imports TokenValidator
begin

text \<open>
  What the token validator guarantees: Init leaves a well-formed plugin with the checked settings, the
  handlers keep it well-formed and change nothing of it but the key caches, and a request that gets past
  the plugin carried a token that was accepted under a key its issuer published.
\<close>

section \<open>Init\<close>

lemma alloc_validator_simps:
  "fst (alloc_validator url ttl tv) = length (tv_heap tv)"
  "snd (alloc_validator url ttl tv) = tv\<lparr>tv_heap := tv_heap tv @ [newJWKSValidator url ttl]\<rparr>"
  by (simp_all add: alloc_validator_def)

lemma tv_addrs_ok_more:
  assumes "tv_addrs_ok tv" and "tv_heap tv' = tv_heap tv @ vs"
    and "tv_jwksVal tv' = tv_jwksVal tv \<or> (\<exists>a. tv_jwksVal tv' = Some a \<and> a < length (tv_heap tv'))"
    and "tv_issuersPool tv' = tv_issuersPool tv \<or>
      (\<exists>p. tv_issuersPool tv' = Some p \<and> (\<forall>a \<in> snd ` set p. a < length (tv_heap tv')))"
  shows "tv_addrs_ok tv'"
  unfolding tv_addrs_ok_def
proof (intro conjI allI impI)
  fix a assume "tv_jwksVal tv' = Some a"
  with assms(1-3) show "a < length (tv_heap tv')"
    by (auto simp: tv_addrs_ok_def intro: trans_less_add1)
next
  fix p assume p: "tv_issuersPool tv' = Some p"
  have "length (tv_heap tv) \<le> length (tv_heap tv')" using assms(2) by simp
  with assms p show "\<forall>a \<in> snd ` set p. a < length (tv_heap tv')"
    by (force simp: tv_addrs_ok_def)
qed

lemma initV1_wf:
  assumes "initV1 cfg tv0 = Inr tv" and "tv_addrs_ok tv0" and "\<not> tv_v2mode tv0"
  shows "tv_wf tv" and "\<not> tv_v2mode tv"
proof -
  from assms(1) consider (test) "tv = tv0\<lparr>tv_testMode := True, tv_hs256Key := tv_hs256Key tv, tv_audience := tv_audience tv\<rparr>"
    | (jwks) url ttl where "tv = tv0\<lparr>tv_heap := tv_heap tv0 @ [newJWKSValidator url ttl],
        tv_jwksVal := Some (length (tv_heap tv0)), tv_audience := tv_audience tv\<rparr>"
    unfolding initV1_def Let_def alloc_validator_def prod.case
    by (auto split: if_split_asm)
  then have "tv_wf tv \<and> \<not> tv_v2mode tv"
  proof cases
    case test
    have "tv_addrs_ok tv" using assms(2) by (subst test) (simp add: tv_addrs_ok_def)
    moreover have "tv_testMode tv" by (subst test) simp
    moreover have "\<not> tv_v2mode tv" using assms(3) by (subst test) simp
    ultimately show ?thesis by (simp add: tv_wf_def)
  next
    case jwks
    have "tv_addrs_ok tv"
      by (rule tv_addrs_ok_more [OF assms(2), of _ "[newJWKSValidator url ttl]"]) (subst jwks, simp)+
    moreover have "\<not> tv_v2mode tv" using assms(3) by (subst jwks) simp
    moreover have "tv_jwksVal tv \<noteq> None" by (subst jwks) simp
    ultimately show ?thesis by (simp add: tv_wf_def)
  qed
  then show "tv_wf tv" and "\<not> tv_v2mode tv" by simp_all
qed

text \<open>What step 1 of the v2 form leaves behind: the HMAC key, or a pool of new validators.\<close>

definition pool_of :: "issuer_cfg list \<Rightarrow> token_validator \<Rightarrow> token_validator \<Rightarrow> bool" where
  "pool_of ics tv0 tv \<longleftrightarrow>
     tv_issuersPool tv = Some (map (\<lambda>i. (ic_issuer (ics ! i), length (tv_heap tv0) + i)) [0..<length ics]) \<and>
     tv_heap tv = tv_heap tv0 @ map (\<lambda>ic. newJWKSValidator (ic_jwksURL ic) (dur_seconds (ic_ttl ic))) ics"

lemma build_pool_pool_of:
  assumes "build_pool lib ics [] tv0 = Inr tv"
  shows "pool_of ics tv0 tv" and "\<forall>ic \<in> set ics. ic_issuer ic \<noteq> ''''"
    and "tv = tv0\<lparr>tv_issuersPool := tv_issuersPool tv, tv_heap := tv_heap tv\<rparr>"
proof -
  from build_pool_Inr [OF assms] obtain ps vs where
    tv: "tv = tv0\<lparr>tv_issuersPool := Some ps, tv_heap := tv_heap tv0 @ vs\<rparr>"
    and len: "length ps = length ics" "length vs = length ics"
    and nth: "\<forall>i < length ics. ps ! i = (ic_issuer (ics ! i), length (tv_heap tv0) + i) \<and>
       vs ! i = newJWKSValidator (ic_jwksURL (ics ! i)) (dur_seconds (ic_ttl (ics ! i))) \<and> ic_issuer (ics ! i) \<noteq> ''''"
    by auto
  have "ps = map (\<lambda>i. (ic_issuer (ics ! i), length (tv_heap tv0) + i)) [0..<length ics]"
    by (rule nth_equalityI) (use len nth in auto)
  moreover have "vs = map (\<lambda>ic. newJWKSValidator (ic_jwksURL ic) (dur_seconds (ic_ttl ic))) ics"
    by (rule nth_equalityI) (use len nth in auto)
  ultimately show "pool_of ics tv0 tv" using tv by (simp add: pool_of_def)
  show "\<forall>ic \<in> set ics. ic_issuer ic \<noteq> ''''" using nth by (auto simp: in_set_conv_nth)
  show "tv = tv0\<lparr>tv_issuersPool := tv_issuersPool tv, tv_heap := tv_heap tv\<rparr>" using tv by simp
qed

lemma pool_of_addrs:
  assumes "pool_of ics tv0 tv" and "tv_issuersPool tv = Some p" and "a \<in> snd ` set p"
  shows "a < length (tv_heap tv)"
  using assms by (auto simp: pool_of_def)

text \<open>The issuers of a configuration: its list, or the one endpoint of the single-issuer form.\<close>

definition config_issuers :: "map_config \<Rightarrow> issuer_cfg list" where
  "config_issuers cfg =
     (case parseIssuers (Raw cfg) of
        Inr (ic # ics) \<Rightarrow> ic # ics
      | _ \<Rightarrow> [\<lparr>ic_issuer = '''', ic_jwksURL = GetString cfg ''jwks_url'',
               ic_ttl = int_or (GetInt cfg ''cache_ttl_seconds'') 600\<rparr>])"

lemma v2_issuers_test:
  assumes "v2_issuers lib cfg raw tv0 = Inr (tv, shim, fd)" and "GetBool cfg ''test_mode''"
  shows "tv = tv0\<lparr>tv_testMode := True, tv_hs256Key := GetString cfg ''jwt_secret''\<rparr>"
    and "GetString cfg ''jwt_secret'' \<noteq> ''''" and "\<not> shim" and "fd = defaultFailureCodes"
  using assms by (auto simp: v2_issuers_def split: if_split_asm)

lemma v2_issuers_pool:
  assumes "v2_issuers lib cfg (Raw cfg) tv0 = Inr (tv, shim, fd)" and "\<not> GetBool cfg ''test_mode''"
  shows "pool_of (config_issuers cfg) tv0 tv" and "tv_testMode tv = tv_testMode tv0"
    and "tv_v2mode tv = tv_v2mode tv0"
    and "tv_jwksVal tv = tv_jwksVal tv0 \<or> tv_jwksVal tv = Some (length (tv_heap tv0))"
    and "fd = (if shim then defaultFailureCodesV1 else defaultFailureCodes)"
    and "shim \<longleftrightarrow> parseIssuers (Raw cfg) = Inr []"
proof -
  obtain ics where ics: "parseIssuers (Raw cfg) = Inr ics"
    using assms by (cases "parseIssuers (Raw cfg)") (auto simp: v2_issuers_def)
  have "pool_of (config_issuers cfg) tv0 tv \<and> tv_testMode tv = tv_testMode tv0 \<and> tv_v2mode tv = tv_v2mode tv0 \<and>
      (tv_jwksVal tv = tv_jwksVal tv0 \<or> tv_jwksVal tv = Some (length (tv_heap tv0))) \<and>
      fd = (if shim then defaultFailureCodesV1 else defaultFailureCodes) \<and> shim = (parseIssuers (Raw cfg) = Inr [])"
    (is ?goal)
  proof (cases ics)
    case Nil
    then show ?goal
      using assms ics
      by (auto simp: v2_issuers_def Let_def alloc_validator_def pool_of_def config_issuers_def split: if_split_asm)
  next
    case (Cons ic rest)
    then have b: "build_pool lib ics [] tv0 = Inr tv" "\<not> shim" "fd = defaultFailureCodes"
      using assms ics by (auto simp: v2_issuers_def and_then_eq_Inr simp del: build_pool.simps)
    note pool = build_pool_pool_of [OF b(1)]
    have "tv_testMode tv = tv_testMode tv0" "tv_v2mode tv = tv_v2mode tv0" "tv_jwksVal tv = tv_jwksVal tv0"
      by (subst pool(3), simp)+
    then show ?goal
      using pool(1) b Cons ics by (simp add: config_issuers_def)
  qed
  then show "pool_of (config_issuers cfg) tv0 tv" "tv_testMode tv = tv_testMode tv0" "tv_v2mode tv = tv_v2mode tv0"
    "tv_jwksVal tv = tv_jwksVal tv0 \<or> tv_jwksVal tv = Some (length (tv_heap tv0))"
    "fd = (if shim then defaultFailureCodesV1 else defaultFailureCodes)"
    "shim \<longleftrightarrow> parseIssuers (Raw cfg) = Inr []"
    by blast+
qed

text \<open>Everything Init guarantees, in one place.\<close>

lemma tv_Init_facts:
  assumes "tv_Init lib cfg tv0 = Inr tv" and "tv_addrs_ok tv0"
  shows "GetBool cfg ''enabled''" and "tv_v2mode tv = isV2Config (Raw cfg)" and "tv_wf tv"
    and "tv_v2mode tv \<Longrightarrow> v2_settings_ok tv"
    and "tv_v2mode tv \<Longrightarrow> \<not> GetBool cfg ''test_mode'' \<Longrightarrow>
      pool_of (config_issuers cfg) tv0 tv \<and> tv_testMode tv = tv_testMode tv0"
proof -
  let ?raw = "Raw cfg" and ?tv0 = "tv0\<lparr>tv_v2mode := isV2Config (Raw cfg)\<rparr>"
  have ok0: "tv_addrs_ok ?tv0" using assms(2) by (simp add: tv_addrs_ok_def)
  show en: "GetBool cfg ''enabled''" using assms(1) by (auto simp: tv_Init_def split: if_split_asm)
  have "tv_v2mode tv = isV2Config ?raw \<and> tv_wf tv \<and> (tv_v2mode tv \<longrightarrow> v2_settings_ok tv \<and>
      (\<not> GetBool cfg ''test_mode'' \<longrightarrow> pool_of (config_issuers cfg) tv0 tv \<and> tv_testMode tv = tv_testMode tv0))"
  proof (cases "isV2Config ?raw")
    case False
    then have "initV1 cfg ?tv0 = Inr tv" using assms(1) en by (simp add: tv_Init_def Let_def)
    from initV1_wf [OF this ok0] False show ?thesis by simp
  next
    case True
    then have init: "initV2 lib cfg ?raw ?tv0 = Inr tv" using assms(1) en by (simp add: tv_Init_def Let_def)
    from initV2_Inr [OF init] obtain tv1 shim fd where
      1: "v2_issuers lib cfg ?raw ?tv0 = Inr (tv1, shim, fd)" and set: "v2_settings_ok tv"
      and same: "tv_testMode tv = tv_testMode tv1" "tv_v2mode tv = tv_v2mode tv1" "tv_jwksVal tv = tv_jwksVal tv1"
        "tv_issuersPool tv = tv_issuersPool tv1" "tv_heap tv = tv_heap tv1" .
    show ?thesis
    proof (cases "GetBool cfg ''test_mode''")
      case test: True
      note t = v2_issuers_test [OF 1 test]
      have "tv_wf tv1" using ok0 by (simp add: t(1) tv_wf_def tv_addrs_ok_def)
      then have "tv_wf tv" using same by (simp add: tv_wf_def tv_addrs_ok_def)
      then show ?thesis using test set same True by (simp add: t(1))
    next
      case pool: False
      note p = v2_issuers_pool [OF 1 pool]
      have "config_issuers cfg \<noteq> []" by (auto simp: config_issuers_def split: sum.splits list.splits)
      then have len: "length (tv_heap tv0) < length (tv_heap tv1)" using p(1) by (simp add: pool_of_def)
      have "tv_addrs_ok tv1"
      proof (rule tv_addrs_ok_more [OF ok0])
        show "tv_heap tv1 = tv_heap ?tv0 @ map (\<lambda>ic. newJWKSValidator (ic_jwksURL ic) (dur_seconds (ic_ttl ic))) (config_issuers cfg)"
          using p(1) by (simp add: pool_of_def)
        show "tv_jwksVal tv1 = tv_jwksVal ?tv0 \<or> (\<exists>a. tv_jwksVal tv1 = Some a \<and> a < length (tv_heap tv1))"
          using p(4) len by auto
        show "tv_issuersPool tv1 = tv_issuersPool ?tv0 \<or>
            (\<exists>p. tv_issuersPool tv1 = Some p \<and> (\<forall>a \<in> snd ` set p. a < length (tv_heap tv1)))"
          using p(1) pool_of_addrs [OF p(1)] by (auto simp: pool_of_def)
      qed
      then have "tv_addrs_ok tv" using same by (simp add: tv_addrs_ok_def)
      then have "tv_wf tv" using same True p by (simp add: tv_wf_def pool_of_def)
      then show ?thesis using set same True p by (simp add: pool_of_def)
    qed
  qed
  then show "tv_v2mode tv = isV2Config ?raw" "tv_wf tv" "tv_v2mode tv \<Longrightarrow> v2_settings_ok tv"
    "tv_v2mode tv \<Longrightarrow> \<not> GetBool cfg ''test_mode'' \<Longrightarrow>
      pool_of (config_issuers cfg) tv0 tv \<and> tv_testMode tv = tv_testMode tv0"
    by blast+
qed

section \<open>What a request changes\<close>

lemma rsa_parse_state:
  "snd (jwt_Parse jl opts now tok (rsa_keyfunc jl fi) v) = v \<or>
   (\<exists>kid. snd (jwt_Parse jl opts now tok (rsa_keyfunc jl fi) v) = snd (getKey jl fi kid v))"
  by (auto simp: jwt_Parse_state rsa_keyfunc_state split: jwt_step.splits if_splits)

lemma jwks_validate_state:
  "snd (jwks_validate jl fi now tok aud v) = v \<or>
   (\<exists>kid. snd (jwks_validate jl fi now tok aud v) = snd (getKey jl fi kid v))"
  unfolding jwks_validate_def Let_def by (simp add: case_prod_beta rsa_parse_state)

lemma at_addr_snd:
  "snd (at_addr a f tv) = tv\<lparr>tv_heap := (tv_heap tv)[a := snd (f (tv_heap tv ! a))]\<rparr>"
  by (simp add: at_addr_def split: prod.splits)

lemma at_addr_fst: "fst (at_addr a f tv) = fst (f (tv_heap tv ! a))"
  by (simp add: at_addr_def split: prod.splits)

text \<open>One request does one lookup in one of the validators, or changes nothing.\<close>

definition one_lookup :: "jwt_lib \<Rightarrow> fetch_inputs \<Rightarrow> token_validator \<Rightarrow> token_validator \<Rightarrow> bool" where
  "one_lookup jl fi tv tv' \<longleftrightarrow> tv' = tv \<or>
     (\<exists>a kid. tv' = tv\<lparr>tv_heap := (tv_heap tv)[a := snd (getKey jl fi kid (tv_heap tv ! a))]\<rparr>)"

lemma one_lookup_at_addr:
  assumes "\<And>v. snd (f v) = v \<or> (\<exists>kid. snd (f v) = snd (getKey jl fi kid v))"
  shows "one_lookup jl fi tv (snd (at_addr a f tv))"
  using assms [of "tv_heap tv ! a"]
proof
  assume "snd (f (tv_heap tv ! a)) = tv_heap tv ! a"
  then show ?thesis by (simp add: one_lookup_def at_addr_snd)
next
  assume "\<exists>kid. snd (f (tv_heap tv ! a)) = snd (getKey jl fi kid (tv_heap tv ! a))"
  then show ?thesis unfolding one_lookup_def at_addr_snd by metis
qed

lemma one_lookup_refl [simp]: "one_lookup jl fi tv tv"
  by (simp add: one_lookup_def)

lemma tv_validate_lookup: "one_lookup jl (tvi_fetch inp) tv (snd (tv_validate jl inp tok tv))"
proof -
  have "one_lookup jl (tvi_fetch inp) tv
      (snd (at_addr a (jwks_validate jl (tvi_fetch inp) (tvi_now inp) tok (tv_audience tv)) tv))" for a
    by (rule one_lookup_at_addr) (rule jwks_validate_state)
  then show ?thesis by (simp add: tv_validate_def case_prod_beta split: option.split)
qed

lemma v2_validate_lookup: "one_lookup jl (tvi_fetch inp) tv (snd (v2_validate lib jl inp tok tv))"
proof -
  have "one_lookup jl (tvi_fetch inp) tv
      (snd (at_addr a (validateWith jl (tvi_fetch inp) (tvi_now inp) tok (tv_algorithms tv) (tv_clockSkew tv)) tv))" for a
    by (rule one_lookup_at_addr) (rule validateWith_state)
  then show ?thesis by (simp add: v2_validate_def Let_def case_prod_beta split: option.split)
qed

lemma handleV1_lookup: "one_lookup jl (tvi_fetch inp) tv (snd (handleV1 jl inp r w tv))"
proof (cases "extractBearer r")
  case None
  then show ?thesis by (simp add: handleV1_def)
next
  case (Some tok)
  with tv_validate_lookup [of jl inp tv tok] show ?thesis
    by (cases "tv_validate jl inp tok tv") (auto simp: handleV1_def split: option.splits sum.splits)
qed

lemma handleV2_lookup: "one_lookup jl (tvi_fetch inp) tv (snd (handleV2 lib jl inp r w tv))"
proof (cases "extractTokenV2 tv r")
  case None
  then show ?thesis by (simp add: handleV2_def)
next
  case (Some tok)
  with v2_validate_lookup [of jl inp tv lib tok] show ?thesis
    by (cases "v2_validate lib jl inp tok tv")
      (auto simp: handleV2_def split: option.splits sum.splits v2_result.splits)
qed

lemma tv_handle_lookup: "one_lookup jl (tvi_fetch inp) tv (snd (tv_handle lib jl inp r w tv))"
  by (simp add: tv_handle_def handleV1_lookup handleV2_lookup)

section \<open>Runs\<close>

type_synonym tv_event = "tv_inputs \<times> http_request \<times> writer"

definition tv_run :: "go_lib \<Rightarrow> jwt_lib \<Rightarrow> tv_event list \<Rightarrow> token_validator \<Rightarrow> token_validator" where
  "tv_run lib jl evs tv = fold (\<lambda>(inp, r, w) tv. snd (tv_handle lib jl inp r w tv)) evs tv"

lemma tv_run_snoc [simp]:
  "tv_run lib jl [] tv = tv"
  "tv_run lib jl (evs @ [(inp, r, w)]) tv = snd (tv_handle lib jl inp r w (tv_run lib jl evs tv))"
  by (simp_all add: tv_run_def)

text \<open>After a run the configuration is the same, and each key cache has gone through lookups with
  answers of the run.\<close>

definition tracks :: "jwt_lib \<Rightarrow> tv_event list \<Rightarrow> token_validator \<Rightarrow> token_validator \<Rightarrow> bool" where
  "tracks jl evs tv tv' \<longleftrightarrow>
     tv' = tv\<lparr>tv_heap := tv_heap tv'\<rparr> \<and> length (tv_heap tv') = length (tv_heap tv) \<and>
     (\<forall>a < length (tv_heap tv). \<exists>l. tv_heap tv' ! a = getKey_run jl l (tv_heap tv ! a) \<and>
        fst ` set l \<subseteq> (\<lambda>(inp, r, w). tvi_fetch inp) ` set evs)"

lemma tracks_step:
  assumes "tracks jl evs tv tv1" and "one_lookup jl (tvi_fetch inp) tv1 tv2"
  shows "tracks jl (evs @ [(inp, r, w)]) tv tv2"
proof (cases "tv2 = tv1")
  case True
  with assms(1) show ?thesis unfolding tracks_def set_append image_Un by (metis le_supI1)
next
  case False
  with assms(2) obtain a kid where
    tv2: "tv2 = tv1\<lparr>tv_heap := (tv_heap tv1)[a := snd (getKey jl (tvi_fetch inp) kid (tv_heap tv1 ! a))]\<rparr>"
    by (auto simp: one_lookup_def)
  have conf: "tv1 = tv\<lparr>tv_heap := tv_heap tv1\<rparr>" and len: "length (tv_heap tv1) = length (tv_heap tv)"
    using assms(1) by (simp_all add: tracks_def)
  have "tv2 = tv\<lparr>tv_heap := tv_heap tv2\<rparr>" unfolding tv2 by (subst conf) simp
  moreover have "\<exists>l. tv_heap tv2 ! b = getKey_run jl l (tv_heap tv ! b) \<and>
      fst ` set l \<subseteq> (\<lambda>(inp, r, w). tvi_fetch inp) ` set (evs @ [(inp, r, w)])" if b: "b < length (tv_heap tv)" for b
  proof -
    from assms(1) b obtain l where l: "tv_heap tv1 ! b = getKey_run jl l (tv_heap tv ! b)"
      "fst ` set l \<subseteq> (\<lambda>(inp, r, w). tvi_fetch inp) ` set evs"
      by (auto simp: tracks_def)
    show ?thesis
    proof (cases "b = a")
      case True
      with l b len show ?thesis by (intro exI [of _ "l @ [(tvi_fetch inp, kid)]"]) (auto simp: tv2)
    next
      case False
      with l show ?thesis by (intro exI [of _ l]) (auto simp: tv2)
    qed
  qed
  ultimately show ?thesis using len by (simp add: tracks_def tv2)
qed

lemma tracks_run: "tracks jl evs tv (tv_run lib jl evs tv)"
proof (induction evs rule: rev_induct)
  case Nil
  show ?case by (auto simp: tracks_def intro: exI [of _ "[]"])
next
  case (snoc ev evs)
  obtain inp r w where "ev = (inp, r, w)" by (cases ev)
  then show ?case using tracks_step [OF snoc.IH tv_handle_lookup] by simp
qed

lemma tv_run_config:
  "tv_run lib jl evs tv = tv\<lparr>tv_heap := tv_heap (tv_run lib jl evs tv)\<rparr>"
  "length (tv_heap (tv_run lib jl evs tv)) = length (tv_heap tv)"
  using tracks_run [of jl evs tv lib] by (simp_all add: tracks_def)

lemma tv_run_fields [simp]:
  "tv_testMode (tv_run lib jl evs tv) = tv_testMode tv" "tv_v2mode (tv_run lib jl evs tv) = tv_v2mode tv"
  "tv_jwksVal (tv_run lib jl evs tv) = tv_jwksVal tv" "tv_issuersPool (tv_run lib jl evs tv) = tv_issuersPool tv"
  "tv_algorithms (tv_run lib jl evs tv) = tv_algorithms tv" "tv_audiences (tv_run lib jl evs tv) = tv_audiences tv"
  "tv_audience (tv_run lib jl evs tv) = tv_audience tv" "tv_hs256Key (tv_run lib jl evs tv) = tv_hs256Key tv"
  "tv_clockSkew (tv_run lib jl evs tv) = tv_clockSkew tv" "tv_requiredClaims (tv_run lib jl evs tv) = tv_requiredClaims tv"
  "tv_propagateMode (tv_run lib jl evs tv) = tv_propagateMode tv"
  "tv_propagateClaims (tv_run lib jl evs tv) = tv_propagateClaims tv"
  "tv_tokenHeader (tv_run lib jl evs tv) = tv_tokenHeader tv" "tv_tokenScheme (tv_run lib jl evs tv) = tv_tokenScheme tv"
  "tv_onFailure (tv_run lib jl evs tv) = tv_onFailure tv" "tv_maxTokenBytes (tv_run lib jl evs tv) = tv_maxTokenBytes tv"
  by (subst tv_run_config(1), simp)+

lemma tv_run_wf: "tv_wf tv \<Longrightarrow> tv_wf (tv_run lib jl evs tv)"
  by (simp add: tv_wf_def tv_addrs_ok_def tv_run_config(2))

section \<open>Who gets past\<close>

lemma rsa_parse_gate:
  assumes "jwt_contract verifies jl" and "jwt_Parse jl opts now tok (rsa_keyfunc jl fi) v = (Inr c, v')"
  obtains kid key where "fst (getKey jl fi kid v) = Inr key" and "verifies opts now tok (RsaKey key) c"
proof -
  from jwt_Parse_verified [OF assms] obtain t k where
    k: "rsa_keyfunc jl fi t v = (Inr k, v')" "verifies opts now tok k c" .
  from rsa_keyfunc_Inr [OF k(1)] obtain key where "k = RsaKey key" "getKey jl fi (header_kid t) v = (Inr key, v')"
    by blast
  with k(2) show thesis by (intro that [of "header_kid t" key]) simp_all
qed

lemma hmac_parse_gate:
  assumes "jwt_contract verifies jl" and "as_map_claims (fst (jwt_Parse jl opts now tok (hmac_keyfunc secret) ())) = Inr mc"
  shows "verifies opts now tok (HmacKey secret) (MapClaims mc)"
proof -
  obtain res u where p: "jwt_Parse jl opts now tok (hmac_keyfunc secret) () = (res, u)"
    by (cases "jwt_Parse jl opts now tok (hmac_keyfunc secret) ()")
  with assms(2) have "res = Inr (MapClaims mc)" by (simp add: as_map_claims_Inr)
  with jwt_Parse_verified [OF assms(1)] p obtain t k where
    "hmac_keyfunc secret t () = (Inr k, u)" "verifies opts now tok k (MapClaims mc)" by metis
  then show ?thesis by (simp add: hmac_keyfunc_def split: if_split_asm)
qed

text \<open>The fetches of a run and of the request after it.\<close>

definition fetches :: "tv_event list \<Rightarrow> tv_inputs \<Rightarrow> fetch_inputs set" where
  "fetches evs inp = insert (tvi_fetch inp) ((\<lambda>(i, r, w). tvi_fetch i) ` set evs)"

lemma served_key_published:
  assumes "a < length (tv_heap tv)" and "tv_heap tv ! a = newJWKSValidator url ttl"
    and "fst (getKey jl (tvi_fetch inp) kid (tv_heap (tv_run lib jl evs tv) ! a)) = Inr key"
  shows "\<exists>i \<in> fetches evs inp. \<exists>ks. jwks_published jl (fi_fetch i url) = Inr ks \<and> map_of ks kid = Some key"
proof -
  from tracks_run [of jl evs tv lib] assms(1) obtain l where
    l: "tv_heap (tv_run lib jl evs tv) ! a = getKey_run jl l (tv_heap tv ! a)"
       "fst ` set l \<subseteq> (\<lambda>(i, r, w). tvi_fetch i) ` set evs"
    by (auto simp: tracks_def)
  have "\<exists>(i, k) \<in> set (l @ [(tvi_fetch inp, kid)]). \<exists>ks. jwks_published jl (fi_fetch i url) = Inr ks \<and>
      map_of ks kid = Some key"
    using getKey_published [of "newJWKSValidator url ttl" jl "tvi_fetch inp" kid l key] assms(2,3) l(1)
    by (simp add: newJWKSValidator_def)
  then obtain i k ks where i: "(i, k) \<in> set (l @ [(tvi_fetch inp, kid)])"
    and ks: "jwks_published jl (fi_fetch i url) = Inr ks" "map_of ks kid = Some key"
    by blast
  from i have "i = tvi_fetch inp \<or> i \<in> fst ` set l" using image_eqI [of i fst "(i, k)" "set l"] by auto
  with l(2) have "i \<in> fetches evs inp" unfolding fetches_def by blast
  with ks show ?thesis by blast
qed

lemma v2_reject_not_Next [simp]: "v2_reject w r e \<noteq> Next r' w'"
  by (simp add: v2_reject_def split: prod.splits)

lemma handleV2_Next:
  assumes "handleV2 lib jl inp r w tv = (Next r' w', tv')"
  obtains tok mc where "extractTokenV2 tv r = Some tok"
    and "\<not> (tv_maxTokenBytes tv > 0 \<and> int (length tok) > tv_maxTokenBytes tv)"
    and "v2_precheck lib tv tok = None" and "v2_validate lib jl inp tok tv = (Validated (Inr mc), tv')"
    and "v2_claims_check lib tv' mc = None" and "r' = with_context r (v2_context tv' mc (r_ctx r))" and "w' = w"
proof -
  obtain tok where tok: "extractTokenV2 tv r = Some tok"
    using assms by (cases "extractTokenV2 tv r") (auto simp: handleV2_def)
  have size: "\<not> (tv_maxTokenBytes tv > 0 \<and> int (length tok) > tv_maxTokenBytes tv)"
    using assms tok by (auto simp: handleV2_def)
  have pre: "v2_precheck lib tv tok = None"
    using assms tok size by (cases "v2_precheck lib tv tok") (auto simp: handleV2_def)
  obtain res tv1 where v: "v2_validate lib jl inp tok tv = (res, tv1)" by (cases "v2_validate lib jl inp tok tv")
  obtain mc where mc: "res = Validated (Inr mc)"
    using assms tok size pre v
    by (auto simp: handleV2_def split: v2_result.splits sum.splits)
  then show thesis
    using assms tok size pre v
    by (intro that [OF tok size pre]) (auto simp: handleV2_def split: option.splits)
qed

lemma v2_precheck_None:
  "v2_precheck lib tv tok = None \<Longrightarrow> \<not> tv_testMode tv \<Longrightarrow> peekAlgorithm lib tok \<in> set (tv_algorithms tv)"
  by (auto simp: v2_precheck_def Let_def list_ex_iff split: if_split_asm)

lemma checkRequiredClaims_none:
  "checkRequiredClaims mc req = '''' \<Longrightarrow> '''' \<notin> set req \<Longrightarrow> c \<in> set req \<Longrightarrow>
     \<exists>v. map_of mc c = Some v \<and> v \<noteq> AStr ''''"
  by (induction req) (auto split: option.splits if_split_asm)

lemma v2_claims_check_None:
  assumes "v2_claims_check lib tv mc = None"
  shows "tv_audiences tv \<noteq> [] \<longrightarrow> checkAudiences mc (tv_audiences tv)"
    and "'''' \<notin> set (tv_requiredClaims tv) \<longrightarrow>
      (\<forall>c \<in> set (tv_requiredClaims tv). \<exists>v. map_of mc c = Some v \<and> v \<noteq> AStr '''')"
  using assms checkRequiredClaims_none [of mc "tv_requiredClaims tv"]
  by (auto simp: v2_claims_check_def Let_def split: if_split_asm)

lemma one_lookup_fields:
  assumes "one_lookup jl fi tv tv'"
  shows "tv' = tv\<lparr>tv_heap := tv_heap tv'\<rparr>"
  using assms by (auto simp: one_lookup_def)

lemma v2_context_heap: "v2_context (tv\<lparr>tv_heap := h\<rparr>) mc c = v2_context tv mc c"
  by (simp add: v2_context_def)

lemma v2_claims_check_heap: "v2_claims_check lib (tv\<lparr>tv_heap := h\<rparr>) mc = v2_claims_check lib tv mc"
  by (simp add: v2_claims_check_def Let_def)

lemma v2_validate_pool:
  assumes "jwt_contract verifies jl" and "v2_validate lib jl inp tok tv = (Validated (Inr mc), tv')" and "\<not> tv_testMode tv"
  obtains pool a kid key where "tv_issuersPool tv = Some pool" and "findValidator pool (peekIssuer lib tok) = Some a"
    and "fst (getKey jl (tvi_fetch inp) kid (tv_heap tv ! a)) = Inr key"
    and "verifies (with_opts (tv_algorithms tv) (tv_clockSkew tv)) (tvi_now inp) tok (RsaKey key) (MapClaims mc)"
proof -
  obtain pool where pool: "tv_issuersPool tv = Some pool"
    using assms(2,3) by (cases "tv_issuersPool tv") (auto simp: v2_validate_def)
  obtain a where a: "findValidator pool (peekIssuer lib tok) = Some a"
    using assms(2,3) pool by (cases "findValidator pool (peekIssuer lib tok)") (auto simp: v2_validate_def Let_def)
  obtain res v where p: "jwt_Parse jl (with_opts (tv_algorithms tv) (tv_clockSkew tv)) (tvi_now inp) tok
      (rsa_keyfunc jl (tvi_fetch inp)) (tv_heap tv ! a) = (res, v)"
    by fastforce
  have "as_map_claims res = Inr mc"
    using assms(2,3) pool a p by (simp add: v2_validate_def Let_def at_addr_def validateWith_def)
  then have "res = Inr (MapClaims mc)" by (simp add: as_map_claims_Inr)
  with p rsa_parse_gate [OF assms(1)] obtain kid key where
    "fst (getKey jl (tvi_fetch inp) kid (tv_heap tv ! a)) = Inr key"
    "verifies (with_opts (tv_algorithms tv) (tv_clockSkew tv)) (tvi_now inp) tok (RsaKey key) (MapClaims mc)"
    by metis
  with pool a show thesis by (rule that)
qed

lemma findValidator_in:
  assumes "findValidator p iss = Some a"
  shows "(iss, a) \<in> set p \<or> ('''', a) \<in> set p"
proof -
  have "find_validator_loop w p iss = Some a \<Longrightarrow> (iss, a) \<in> set p \<or> ('''', a) \<in> set p \<or> w = Some a" for w
  proof (induction p arbitrary: w)
    case Nil
    then show ?case by simp
  next
    case (Cons e p)
    then show ?case
      using Cons.IH [of w] Cons.IH [of "Some (snd e)"] by (cases e) (auto split: if_split_asm)
  qed
  from this [of None] assms show ?thesis by (simp add: findValidator_def)
qed

lemma pool_of_zero_entry:
  assumes "pool_of ics tv_zero tv" and "tv_issuersPool tv = Some p" and "(iss, a) \<in> set p"
  obtains ic where "ic \<in> set ics" and "ic_issuer ic = iss" and "a < length (tv_heap tv)"
    and "tv_heap tv ! a = newJWKSValidator (ic_jwksURL ic) (dur_seconds (ic_ttl ic))"
proof -
  have "a < length ics" "iss = ic_issuer (ics ! a)"
    using assms by (auto simp: pool_of_def tv_zero_def)
  with assms(1) show thesis by (intro that [of "ics ! a"]) (auto simp: pool_of_def tv_zero_def)
qed

section \<open>Properties\<close>

lemma v2_passed:
  assumes "jwt_contract verifies jl" and "tv_Init lib cfg tv_zero = Inr tv"
    and "isV2Config (Raw cfg)" and "\<not> GetBool cfg ''test_mode''"
    and "tv_handle lib jl inp r w (tv_run lib jl evs tv) = (Next r' w', tv')"
  obtains tok mc ic kid key where "extractTokenV2 tv r = Some tok" and "int (length tok) \<le> 65536"
    and "peekAlgorithm lib tok \<in> set (tv_algorithms tv)"
    and "ic \<in> set (config_issuers cfg)" and "ic_issuer ic = peekIssuer lib tok \<or> ic_issuer ic = ''''"
    and "verifies (with_opts (tv_algorithms tv) (tv_clockSkew tv)) (tvi_now inp) tok (RsaKey key) (MapClaims mc)"
    and "\<exists>i \<in> fetches evs inp. \<exists>ks. jwks_published jl (fi_fetch i (ic_jwksURL ic)) = Inr ks \<and> map_of ks kid = Some key"
    and "v2_claims_check lib tv mc = None"
    and "r' = with_context r (v2_context tv mc (r_ctx r))" and "w' = w"
proof -
  note init = tv_Init_facts [OF assms(2) tv_addrs_zero]
  let ?s = "tv_run lib jl evs tv"
  have v2: "tv_v2mode tv" using init(2) assms(3) by simp
  note set = init(4) [OF v2] and pool = init(5) [OF v2 assms(4)]
  have nt: "\<not> tv_testMode tv" using pool by (simp add: tv_zero_def)
  from assms(5) v2 have "handleV2 lib jl inp r w ?s = (Next r' w', tv')" by (simp add: tv_handle_def)
  from handleV2_Next [OF this] obtain tok mc where
    tok: "extractTokenV2 ?s r = Some tok" and size: "\<not> (tv_maxTokenBytes ?s > 0 \<and> int (length tok) > tv_maxTokenBytes ?s)"
    and pre: "v2_precheck lib ?s tok = None" and val: "v2_validate lib jl inp tok ?s = (Validated (Inr mc), tv')"
    and cl: "v2_claims_check lib tv' mc = None" and r': "r' = with_context r (v2_context tv' mc (r_ctx r))" and w': "w' = w" .
  have tv': "tv' = tv\<lparr>tv_heap := tv_heap tv'\<rparr>"
    using one_lookup_fields [OF v2_validate_lookup [of jl inp ?s lib tok]] val tv_run_config(1) [of lib jl evs tv]
    by (metis snd_conv token_validator.surjective token_validator.update_convs(17))
  have "\<not> tv_testMode ?s" using nt by simp
  from v2_validate_pool [OF assms(1) val this, unfolded tv_run_fields] obtain p a kid key where
    p: "tv_issuersPool tv = Some p" "findValidator p (peekIssuer lib tok) = Some a"
    and key: "fst (getKey jl (tvi_fetch inp) kid (tv_heap ?s ! a)) = Inr key"
    and ver: "verifies (with_opts (tv_algorithms tv) (tv_clockSkew tv)) (tvi_now inp) tok (RsaKey key) (MapClaims mc)" .
  from findValidator_in [OF p(2)] obtain iss where iss: "(iss, a) \<in> set p" "iss = peekIssuer lib tok \<or> iss = ''''"
    by blast
  from pool_of_zero_entry [OF conjunct1 [OF pool] p(1) iss(1)] obtain ic where
    ic: "ic \<in> set (config_issuers cfg)" "ic_issuer ic = iss" "a < length (tv_heap tv)"
    "tv_heap tv ! a = newJWKSValidator (ic_jwksURL ic) (dur_seconds (ic_ttl ic))" .
  have "extractTokenV2 tv r = Some tok" using tok by (simp only: extractTokenV2_def tv_run_fields)
  moreover have "int (length tok) \<le> 65536" using size set by (auto simp: v2_settings_ok_def)
  moreover have "peekAlgorithm lib tok \<in> set (tv_algorithms tv)" using v2_precheck_None [OF pre] nt by simp
  moreover have "v2_claims_check lib tv mc = None"
    using cl v2_claims_check_heap [where tv = tv and h = "tv_heap tv'"] by (simp flip: tv')
  moreover have "v2_context tv' mc (r_ctx r) = v2_context tv mc (r_ctx r)"
    using v2_context_heap [where tv = tv and h = "tv_heap tv'"] by (simp flip: tv')
  ultimately show thesis
    using ic iss(2) ver served_key_published [OF ic(3,4) key] r' w' by (intro that [of tok ic key mc kid]) simp_all
qed

text \<open>C4: the authentication gate of the v2 form. After Init and any sequence of requests, a request gets
  past the plugin only with a token that: is no longer than the cap; names an algorithm of the allowlist
  in its header; was verified by the JWT library, with that allowlist and the clock skew, under an RSA key
  that stands in a document which the endpoint of a configured issuer served during the run, the issuer
  being the one the token names (or the endpoint of the single-issuer form); carries one of the audiences,
  when there are any; and has every required claim, not empty. The request goes on with the verified
  claims in its context and nothing else changed.\<close>

theorem token_gate_v2:
  assumes "jwt_contract verifies jl" and "tv_Init lib cfg tv_zero = Inr tv"
    and "isV2Config (Raw cfg)" and "\<not> GetBool cfg ''test_mode''"
    and "tv_handle lib jl inp r w (tv_run lib jl evs tv) = (Next r' w', tv')"
  shows "\<exists>tok mc ic kid key. extractTokenV2 tv r = Some tok \<and> int (length tok) \<le> 65536 \<and>
    peekAlgorithm lib tok \<in> set (tv_algorithms tv) \<and>
    ic \<in> set (config_issuers cfg) \<and> (ic_issuer ic = peekIssuer lib tok \<or> ic_issuer ic = '''') \<and>
    verifies (with_opts (tv_algorithms tv) (tv_clockSkew tv)) (tvi_now inp) tok (RsaKey key) (MapClaims mc) \<and>
    (\<exists>i \<in> fetches evs inp. \<exists>ks. jwks_published jl (fi_fetch i (ic_jwksURL ic)) = Inr ks \<and> map_of ks kid = Some key) \<and>
    (tv_audiences tv \<noteq> [] \<longrightarrow> checkAudiences mc (tv_audiences tv)) \<and>
    ('''' \<notin> set (tv_requiredClaims tv) \<longrightarrow>
       (\<forall>c \<in> set (tv_requiredClaims tv). \<exists>v. map_of mc c = Some v \<and> v \<noteq> AStr '''')) \<and>
    r' = with_context r (v2_context tv mc (r_ctx r)) \<and> w' = w"
  by (rule v2_passed [OF assms], use v2_claims_check_None in metis)

text \<open>What the handlers put into the context of a request that passes: the identity that the claims name.\<close>

definition identity_of :: "config_map \<Rightarrow> ctx \<Rightarrow> ctx \<Rightarrow> bool" where
  "identity_of mc c0 c \<longleftrightarrow> ActorRoles c = claimStrSlice mc ''roles'' \<and> ActorSubject c = claimStr mc ''sub'' \<and>
     TenantID c = (if claimStr mc ''tenant_id'' \<noteq> '''' then claimStr mc ''tenant_id'' else TenantID c0)"

lemma identity_of_contexts:
  "identity_of mc c (v2_context tv mc c)" "identity_of mc c (WithJWTClaims (with_actor mc c) mc)"
  by (simp_all add: identity_of_def v2_context_def with_actor_def propagateClaimsToCtx_def Let_def ctx_simps)

definition v1_opts :: "map_config \<Rightarrow> parser_opts" where
  "v1_opts cfg = \<lparr>po_methods = [''RS256''], po_expiration_required = True,
     po_audience = (if GetString cfg ''audience'' \<noteq> '''' then Some (GetString cfg ''audience'') else None),
     po_leeway = None\<rparr>"

lemma handleV1_Next:
  assumes "handleV1 jl inp r w tv = (Next r' w', tv')"
  obtains tok mc where "extractBearer r = Some tok" and "tv_validate jl inp tok tv = (Some (Inr mc), tv')"
    and "r' = with_context r (WithJWTClaims (with_actor mc (r_ctx r)) mc)" and "w' = w"
proof -
  obtain tok where "extractBearer r = Some tok" using assms by (cases "extractBearer r") (auto simp: handleV1_def)
  with assms that show thesis by (auto simp: handleV1_def split: option.splits sum.splits prod.splits)
qed

lemma v1_passed:
  assumes "jwt_contract verifies jl" and "tv_Init lib cfg tv_zero = Inr tv"
    and "\<not> isV2Config (Raw cfg)" and "\<not> GetBool cfg ''test_mode''"
    and "tv_handle lib jl inp r w (tv_run lib jl evs tv) = (Next r' w', tv')"
  obtains tok mc kid key where "req_header r ''Authorization'' = ''Bearer '' @ tok" and "tok \<noteq> ''''"
    and "verifies (v1_opts cfg) (tvi_now inp) tok (RsaKey key) (MapClaims mc)"
    and "\<exists>i \<in> fetches evs inp. \<exists>ks. jwks_published jl (fi_fetch i (GetString cfg ''jwks_url'')) = Inr ks \<and>
        map_of ks kid = Some key"
    and "r' = with_context r (WithJWTClaims (with_actor mc (r_ctx r)) mc)" and "w' = w"
proof -
  let ?s = "tv_run lib jl evs tv" and ?url = "GetString cfg ''jwks_url''"
  have en: "GetBool cfg ''enabled''" using assms(2) by (auto simp: tv_Init_def split: if_split_asm)
  have tv: "tv = tv_zero\<lparr>tv_heap := [newJWKSValidator ?url (dur_seconds (int_or (GetInt cfg ''cache_ttl_seconds'') 600))],
      tv_jwksVal := Some 0, tv_audience := GetString cfg ''audience''\<rparr>"
    using assms(2-4) en
    by (auto simp: tv_Init_def initV1_def Let_def alloc_validator_def tv_zero_def split: if_split_asm)
  from assms(5) have "handleV1 jl inp r w ?s = (Next r' w', tv')" by (simp add: tv_handle_def tv tv_zero_def)
  from handleV1_Next [OF this] obtain tok mc where tok: "extractBearer r = Some tok"
    and val: "tv_validate jl inp tok ?s = (Some (Inr mc), tv')"
    and r': "r' = with_context r (WithJWTClaims (with_actor mc (r_ctx r)) mc)" "w' = w" .
  obtain res v where p: "jwt_Parse jl (v1_opts cfg) (tvi_now inp) tok (rsa_keyfunc jl (tvi_fetch inp)) (tv_heap ?s ! 0) = (res, v)"
    by fastforce
  then have "as_map_claims res = Inr mc"
    using val by (simp add: tv_validate_def tv tv_zero_def at_addr_def jwks_validate_def v1_opts_def Let_def)
  then have "res = Inr (MapClaims mc)" by (simp add: as_map_claims_Inr)
  with p rsa_parse_gate [OF assms(1)] obtain kid key where
    key: "fst (getKey jl (tvi_fetch inp) kid (tv_heap ?s ! 0)) = Inr key"
    and ver: "verifies (v1_opts cfg) (tvi_now inp) tok (RsaKey key) (MapClaims mc)"
    by metis
  have "\<exists>i \<in> fetches evs inp. \<exists>ks. jwks_published jl (fi_fetch i ?url) = Inr ks \<and> map_of ks kid = Some key"
    by (rule served_key_published [OF _ _ key]) (simp_all add: tv)
  moreover have "req_header r ''Authorization'' = ''Bearer '' @ tok \<and> tok \<noteq> ''''"
    using tok by (auto simp: extractBearer_def cut_prefix_True split: prod.splits if_split_asm)
  ultimately show thesis using ver r' by (intro that) blast+
qed

text \<open>C5: the authentication gate of the v1 form: past the plugin only with a bearer token that the library
  verified with RS256 and the configured audience, under a key that the configured endpoint served during
  the run; the verified claims are in the context.\<close>

theorem token_gate_v1:
  assumes "jwt_contract verifies jl" and "tv_Init lib cfg tv_zero = Inr tv"
    and "\<not> isV2Config (Raw cfg)" and "\<not> GetBool cfg ''test_mode''"
    and "tv_handle lib jl inp r w (tv_run lib jl evs tv) = (Next r' w', tv')"
  shows "\<exists>tok mc kid key. req_header r ''Authorization'' = ''Bearer '' @ tok \<and> tok \<noteq> '''' \<and>
    verifies \<lparr>po_methods = [''RS256''], po_expiration_required = True,
        po_audience = (if GetString cfg ''audience'' \<noteq> '''' then Some (GetString cfg ''audience'') else None),
        po_leeway = None\<rparr> (tvi_now inp) tok (RsaKey key) (MapClaims mc) \<and>
    (\<exists>i \<in> fetches evs inp. \<exists>ks. jwks_published jl (fi_fetch i (GetString cfg ''jwks_url'')) = Inr ks \<and>
        map_of ks kid = Some key) \<and>
    r' = with_context r (WithJWTClaims (with_actor mc (r_ctx r)) mc) \<and> w' = w"
  by (rule v1_passed [OF assms, unfolded v1_opts_def]) blast

text \<open>In test mode both forms use the shared secret.\<close>

lemma test_mode_init:
  assumes "tv_Init lib cfg tv_zero = Inr tv" and "GetBool cfg ''test_mode''"
  shows "tv_testMode tv" and "tv_hs256Key tv = GetString cfg ''jwt_secret''" and "GetString cfg ''jwt_secret'' \<noteq> ''''"
    and "tv_v2mode tv = isV2Config (Raw cfg)"
proof -
  let ?sec = "GetString cfg ''jwt_secret''"
  have en: "GetBool cfg ''enabled''" using assms(1) by (auto simp: tv_Init_def split: if_split_asm)
  have "tv_testMode tv \<and> tv_hs256Key tv = ?sec \<and> ?sec \<noteq> '''' \<and> tv_v2mode tv = isV2Config (Raw cfg)"
  proof (cases "isV2Config (Raw cfg)")
    case True
    then have "initV2 lib cfg (Raw cfg) (tv_zero\<lparr>tv_v2mode := True\<rparr>) = Inr tv"
      using assms(1) en by (simp add: tv_Init_def Let_def)
    from initV2_Inr [OF this] obtain tv1 shim fd where
      1: "v2_issuers lib cfg (Raw cfg) (tv_zero\<lparr>tv_v2mode := True\<rparr>) = Inr (tv1, shim, fd)"
      and same: "tv_testMode tv = tv_testMode tv1" "tv_v2mode tv = tv_v2mode tv1" "tv_hs256Key tv = tv_hs256Key tv1" .
    from v2_issuers_test [OF 1 assms(2)] same True show ?thesis by simp
  next
    case False
    then show ?thesis using assms en
      by (auto simp: tv_Init_def initV1_def Let_def tv_zero_def split: if_split_asm)
  qed
  then show "tv_testMode tv" and "tv_hs256Key tv = ?sec" and "?sec \<noteq> ''''" and "tv_v2mode tv = isV2Config (Raw cfg)"
    by blast+
qed

lemma test_passed:
  assumes "jwt_contract verifies jl" and "tv_Init lib cfg tv_zero = Inr tv" and "GetBool cfg ''test_mode''"
    and "tv_handle lib jl inp r w (tv_run lib jl evs tv) = (Next r' w', tv')"
  obtains opts tok mc c where "po_methods opts = [''HS256'']" and "po_expiration_required opts"
    and "verifies opts (tvi_now inp) tok (HmacKey (GetString cfg ''jwt_secret'')) (MapClaims mc)"
    and "r' = with_context r c" and "identity_of mc (r_ctx r) c" and "w' = w"
proof -
  let ?s = "tv_run lib jl evs tv" and ?sec = "GetString cfg ''jwt_secret''"
  note init = test_mode_init [OF assms(2,3)]
  show thesis
  proof (cases "tv_v2mode tv")
    case True
    with assms(4) have "handleV2 lib jl inp r w ?s = (Next r' w', tv')" by (simp add: tv_handle_def)
    from handleV2_Next [OF this] obtain tok mc where v: "v2_validate lib jl inp tok ?s = (Validated (Inr mc), tv')"
      "r' = with_context r (v2_context tv' mc (r_ctx r))" "w' = w" .
    then have "as_map_claims (fst (jwt_Parse jl (with_opts [''HS256''] (tv_clockSkew tv)) (tvi_now inp) tok (hmac_keyfunc ?sec) ())) = Inr mc"
      using init by (simp add: v2_validate_def validateHS256V2_def)
    from hmac_parse_gate [OF assms(1) this] v(2,3) show thesis
      by (intro that [of "with_opts [''HS256''] (tv_clockSkew tv)" tok mc "v2_context tv' mc (r_ctx r)"])
        (simp_all add: with_opts_def identity_of_contexts)
  next
    case False
    let ?opts = "\<lparr>po_methods = [''HS256''], po_expiration_required = True,
            po_audience = (if tv_audience tv \<noteq> '''' then Some (tv_audience tv) else None), po_leeway = None\<rparr>"
    from False assms(4) have "handleV1 jl inp r w ?s = (Next r' w', tv')" by (simp add: tv_handle_def)
    from handleV1_Next [OF this] obtain tok mc where v: "tv_validate jl inp tok ?s = (Some (Inr mc), tv')"
      "r' = with_context r (WithJWTClaims (with_actor mc (r_ctx r)) mc)" "w' = w" .
    then have "as_map_claims (fst (jwt_Parse jl ?opts (tvi_now inp) tok (hmac_keyfunc ?sec) ())) = Inr mc"
      using init by (simp add: tv_validate_def validateHS256_def Let_def)
    from hmac_parse_gate [OF assms(1) this] v(2,3) show thesis
      by (intro that [of ?opts tok mc "WithJWTClaims (with_actor mc (r_ctx r)) mc"]) (simp_all add: identity_of_contexts)
  qed
qed


text \<open>The answers of the v2 form, with the code each failure is configured to have.\<close>

definition v2_codes_of :: "failure_codes \<Rightarrow> (string \<times> int) list" where
  "v2_codes_of fc =
     [(''MISSING_TOKEN'', fc_MissingToken fc), (''OVERSIZED_TOKEN'', fc_OversizedToken fc),
      (''INVALID_TOKEN'', fc_InvalidSignature fc), (''DISALLOWED_ALGORITHM'', fc_DisallowedAlgorithm fc),
      (''UNKNOWN_ISSUER'', fc_UnknownIssuer fc), (''JWKS_UNAVAILABLE'', fc_JWKSUnavailable fc),
      (''TOKEN_EXPIRED'', fc_Expired fc), (''TOKEN_NOT_YET_VALID'', fc_NotYetValid fc),
      (''AUDIENCE_MISMATCH'', fc_AudienceMismatch fc), (''REQUIRED_CLAIM_MISSING'', fc_RequiredClaimMissing fc)]"

lemma v2_codes_of_mem:
  "(''MISSING_TOKEN'', fc_MissingToken fc) \<in> set (v2_codes_of fc)"
  "(''OVERSIZED_TOKEN'', fc_OversizedToken fc) \<in> set (v2_codes_of fc)"
  "(''UNKNOWN_ISSUER'', fc_UnknownIssuer fc) \<in> set (v2_codes_of fc)"
  by (simp_all add: v2_codes_of_def)

lemma v2_precheck_code:
  "v2_precheck lib tv tok = Some (st, code, msg) \<Longrightarrow> (code, st) \<in> set (v2_codes_of (tv_onFailure tv))"
  by (auto simp: v2_precheck_def v2_codes_of_def Let_def split: if_split_asm)

lemma v2_validation_error_code:
  "v2_validation_error tv e = (st, code, msg) \<Longrightarrow> (code, st) \<in> set (v2_codes_of (tv_onFailure tv))"
  by (auto simp: v2_validation_error_def v2_codes_of_def split: if_split_asm)

lemma v2_claims_check_code:
  "v2_claims_check lib tv mc = Some (st, code, msg) \<Longrightarrow> (code, st) \<in> set (v2_codes_of (tv_onFailure tv))"
  by (auto simp: v2_claims_check_def v2_codes_of_def Let_def split: if_split_asm)

lemma v2_validate_not_panicked:
  "tv_wf tv \<Longrightarrow> tv_v2mode tv \<Longrightarrow> fst (v2_validate lib jl inp tok tv) \<noteq> Panicked"
  by (auto simp: v2_validate_def tv_wf_def Let_def split: option.splits prod.splits if_split_asm)

lemma v2_reject_Respond:
  "v2_reject w r (st, code, msg) = Respond w' \<longleftrightarrow> w' = writeV2Error w r st code msg"
  by (auto simp: v2_reject_def)

text \<open>A rejection of the v2 form, with one of the configured codes.\<close>

definition v2_configured_reject :: "token_validator \<Rightarrow> http_request \<Rightarrow> writer \<Rightarrow> writer \<Rightarrow> bool" where
  "v2_configured_reject tv r w w' \<longleftrightarrow>
     (\<exists>st code msg. (code, st) \<in> set (v2_codes_of (tv_onFailure tv)) \<and> w' = writeV2Error w r st code msg)"

lemma v2_configured_rejectI:
  "v2_reject w r (st, code, msg) = Respond w' \<Longrightarrow> (code, st) \<in> set (v2_codes_of (tv_onFailure tv)) \<Longrightarrow>
   v2_configured_reject tv r w w'"
  by (auto simp: v2_configured_reject_def v2_reject_Respond)

lemma v2_validated_rejected:
  assumes "case x of
      Inl err \<Rightarrow> v2_reject w r (v2_validation_error tv err) = Respond w'
    | Inr mc \<Rightarrow> \<exists>e. v2_claims_check lib tv mc = Some e \<and> v2_reject w r e = Respond w'"
  shows "v2_configured_reject tv r w w'"
proof (cases x)
  case (Inl err)
  obtain st code msg where e: "v2_validation_error tv err = (st, code, msg)" by (cases "v2_validation_error tv err")
  with assms Inl v2_validation_error_code [OF e] show ?thesis by (auto intro: v2_configured_rejectI)
next
  case (Inr mc)
  with assms obtain st code msg where "v2_claims_check lib tv mc = Some (st, code, msg)"
    and "v2_reject w r (st, code, msg) = Respond w'" by auto
  with v2_claims_check_code show ?thesis by (blast intro: v2_configured_rejectI)
qed

lemma v2_rejected:
  assumes "tv_wf tv" and "tv_v2mode tv" and "tv_handle lib jl inp r w tv = (Respond w', tv')"
  shows "\<exists>st code msg. (code, st) \<in> set (v2_codes_of (tv_onFailure tv)) \<and> w' = WriteError w st (v2_error_body r code msg)"
proof -
  from assms(2,3) have h: "handleV2 lib jl inp r w tv = (Respond w', tv')" by (simp add: tv_handle_def)
  have "v2_configured_reject tv r w w'"
  proof (cases "extractTokenV2 tv r")
    case None
    with h show ?thesis by (auto simp: handleV2_def intro: v2_configured_rejectI v2_codes_of_mem(1))
  next
    case tok: (Some tok)
    obtain res tv1 where v: "v2_validate lib jl inp tok tv = (res, tv1)" by (cases "v2_validate lib jl inp tok tv")
    have same: "tv_onFailure tv1 = tv_onFailure tv"
      using one_lookup_fields [OF v2_validate_lookup [of jl inp tv lib tok]] v
      by (metis snd_conv token_validator.select_convs(15) token_validator.surjective token_validator.update_convs(17))
    then have tv1: "v2_configured_reject tv1 r w w' = v2_configured_reject tv r w w'" by (simp add: v2_configured_reject_def)
    consider (size) "tv_maxTokenBytes tv > 0 \<and> int (length tok) > tv_maxTokenBytes tv"
      | (pre) e where "\<not> (tv_maxTokenBytes tv > 0 \<and> int (length tok) > tv_maxTokenBytes tv)" "v2_precheck lib tv tok = Some e"
      | (valid) "\<not> (tv_maxTokenBytes tv > 0 \<and> int (length tok) > tv_maxTokenBytes tv)" "v2_precheck lib tv tok = None"
      by (cases "v2_precheck lib tv tok") blast+
    then show ?thesis
    proof cases
      case size
      with h tok show ?thesis by (auto simp: handleV2_def intro: v2_configured_rejectI v2_codes_of_mem(2))
    next
      case (pre e)
      with h tok show ?thesis
        by (cases e) (auto simp: handleV2_def intro: v2_configured_rejectI dest: v2_precheck_code)
    next
      case valid
      note step = h tok valid v
      show ?thesis
      proof (cases res)
        case Panicked
        with v2_validate_not_panicked [OF assms(1,2), of lib jl inp tok] v show ?thesis by simp
      next
        case (UnknownIssuer iss)
        with step show ?thesis
          by (auto simp: handleV2_def same intro: v2_configured_rejectI v2_codes_of_mem(3))
      next
        case (Validated x)
        with step have "v2_configured_reject tv1 r w w'"
          by (intro v2_validated_rejected [where x = x]) (auto simp: handleV2_def split: sum.splits option.splits)
        with tv1 show ?thesis by simp
      qed
    qed
  qed
  then show ?thesis by (simp add: v2_configured_reject_def writeV2Error_def)
qed


text \<open>The cheap checks come first. A missing token, a token over the size cap, an undecodable header, an
  algorithm outside the allowlist and an unknown issuer are all answered without any fetch: the plugin's
  state, with the number of JWKS requests made, does not change, and no answer of the network or of
  the token library matters.\<close>

lemma v2_cheap_rejection_no_fetch:
  assumes "tv_v2mode tv" and "\<not> tv_testMode tv" and "tv_issuersPool tv = Some pool"
    and "extractTokenV2 tv r = None \<or>
      (\<exists>tok. extractTokenV2 tv r = Some tok \<and>
         (tv_maxTokenBytes tv > 0 \<and> int (length tok) > tv_maxTokenBytes tv \<or>
          peekAlgorithm lib tok = '''' \<or> peekAlgorithm lib tok \<notin> set (tv_algorithms tv) \<or>
          findValidator pool (peekIssuer lib tok) = None))"
  shows "\<exists>st code msg. \<forall>jl inp. tv_handle lib jl inp r w tv = (Respond (WriteError w st (v2_error_body r code msg)), tv)"
  using assms(4)
proof
  assume "extractTokenV2 tv r = None"
  then show ?thesis using assms(1)
    by (auto simp: tv_handle_def handleV2_def v2_reject_def writeV2Error_def)
next
  assume "\<exists>tok. extractTokenV2 tv r = Some tok \<and>
         (tv_maxTokenBytes tv > 0 \<and> int (length tok) > tv_maxTokenBytes tv \<or>
          peekAlgorithm lib tok = '''' \<or> peekAlgorithm lib tok \<notin> set (tv_algorithms tv) \<or>
          findValidator pool (peekIssuer lib tok) = None)"
  then obtain tok where tok: "extractTokenV2 tv r = Some tok"
    and why: "tv_maxTokenBytes tv > 0 \<and> int (length tok) > tv_maxTokenBytes tv \<or>
          peekAlgorithm lib tok = '''' \<or> peekAlgorithm lib tok \<notin> set (tv_algorithms tv) \<or>
          findValidator pool (peekIssuer lib tok) = None"
    by blast
  show ?thesis
  proof (cases "tv_maxTokenBytes tv > 0 \<and> int (length tok) > tv_maxTokenBytes tv")
    case True
    then show ?thesis using assms(1) tok
      by (simp add: tv_handle_def handleV2_def v2_reject_def writeV2Error_def) blast
  next
    case size: False
    show ?thesis
    proof (cases "v2_precheck lib tv tok")
      case (Some e)
      then show ?thesis using assms(1) tok size
        by (cases e) (simp add: tv_handle_def handleV2_def v2_reject_def writeV2Error_def, blast)
    next
      case None
      with v2_precheck_None [OF None assms(2)] why size have "findValidator pool (peekIssuer lib tok) = None"
        using assms(2) by (auto simp: v2_precheck_def Let_def split: if_split_asm)
      then have "\<forall>jl inp. v2_validate lib jl inp tok tv = (UnknownIssuer (peekIssuer lib tok), tv)"
        using assms(2,3) by (simp add: v2_validate_def Let_def)
      then show ?thesis using assms(1) tok size None
        by (simp add: tv_handle_def handleV2_def v2_reject_def writeV2Error_def) blast
    qed
  qed
qed

text \<open>What Init accepts in the v2 form. The plugin must be enabled; the allowlist of algorithms is not
  empty and never holds "none" in any case; the clock skew is between 1 and 600 seconds, with no
  overflow; the token cap is between 1 and 65536 bytes; some claim is required; the propagation mode is known,
  and an allowlist is not empty; the token header has a name.\<close>

lemma init_v2_settings:
  assumes "tv_Init lib cfg tv0 = Inr tv" and "isV2Config (Raw cfg)" and "tv_addrs_ok tv0"
  shows "GetBool cfg ''enabled'' \<and> tv_wf tv \<and>
    tv_algorithms tv \<noteq> [] \<and> (\<forall>a \<in> set (tv_algorithms tv). \<not> equal_fold a ''none'') \<and>
    second_ns \<le> tv_clockSkew tv \<and> tv_clockSkew tv \<le> 600 * second_ns \<and>
    1 \<le> tv_maxTokenBytes tv \<and> tv_maxTokenBytes tv \<le> 65536 \<and>
    tv_requiredClaims tv \<noteq> [] \<and> tv_tokenHeader tv \<noteq> '''' \<and>
    (tv_propagateMode tv = ''all'' \<or> tv_propagateMode tv = ''allowlist'' \<and> tv_propagateClaims tv \<noteq> [])"
  using tv_Init_facts [OF assms(1,3)] assms(2) by (simp add: v2_settings_ok_def)

lemma allowed_claims_map:
  "map_of (allowed_claims mc allow fs) k =
     (if k \<in> set allow \<and> map_of mc k \<noteq> None then map_of mc k else map_of fs k)"
  by (induction allow arbitrary: fs) (auto split: option.splits)

lemma JWTClaims_with_actor [simp]: "JWTClaims (with_actor mc c) = JWTClaims c"
  by (simp add: with_actor_def Let_def ctx_simps)

text \<open>In the allowlist mode the claims that travel in the request context are the allowed ones of the
  token with their values, and no others.\<close>

lemma allowlist_claims:
  assumes "tv_propagateMode tv = ''allowlist''"
  shows "\<exists>cs. JWTClaims (v2_context tv mc c) = Some cs \<and>
    (\<forall>k. map_of cs k = (if k \<in> set (tv_propagateClaims tv) then map_of mc k else None))"
proof -
  have "JWTClaims (v2_context tv mc c) = Some (allowed_claims mc (tv_propagateClaims tv) [])"
    using assms by (simp add: v2_context_def propagateClaimsToCtx_def ctx_simps)
  then show ?thesis by (auto simp: allowed_claims_map)
qed

text \<open>An empty name in \<open>required_claims\<close> turns the check off. The function reports a missing claim
  by its name, and the handler takes the empty name for "nothing is missing": with the empty
  name first, tokens pass that carry none of the claims required after it.\<close>

lemma required_claims_empty_name:
  assumes "tv_audiences tv = []" and "tv_requiredClaims tv = '''' # required" and "map_of mc '''' = None"
  shows "v2_claims_check lib tv mc = None"
  using assms by (simp add: v2_claims_check_def)

lemma split_n_3:
  "CHR ''.'' \<notin> set a \<Longrightarrow> CHR ''.'' \<notin> set b \<Longrightarrow>
     split_n 3 (CHR ''.'') (a @ CHR ''.'' # b @ CHR ''.'' # s) = [a, b, s]"
proof -
  have cut: "split_n (Suc (Suc n)) c (p @ c # t) = p # split_n (Suc n) c t" if "c \<notin> set p" for n c p t
    using that by (induction p) auto
  assume "CHR ''.'' \<notin> set a" "CHR ''.'' \<notin> set b"
  then show ?thesis using cut [of "CHR ''.''" a 1] cut [of "CHR ''.''" b 0] by (simp add: numeral_3_eq_3)
qed

text \<open>On a compact token the unverified peeks read what its parts encode: the algorithm of the header
  object and the issuer of the payload object, whatever the signature part holds.\<close>

lemma peek_compact_token:
  "peekAlgorithm lib (RawURLEncode h @ ''.'' @ RawURLEncode p @ ''.'' @ sig) =
     (case json_object lib h of Some m \<Rightarrow> get_str m ''alg'' | None \<Rightarrow> '''') \<and>
   peekIssuer lib (RawURLEncode h @ ''.'' @ RawURLEncode p @ ''.'' @ sig) =
     (case json_object lib p of Some m \<Rightarrow> get_str m ''iss'' | None \<Rightarrow> '''')"
proof -
  have "split_n 3 (CHR ''.'') (RawURLEncode h @ ''.'' @ RawURLEncode p @ ''.'' @ sig) = [RawURLEncode h, RawURLEncode p, sig]"
    using split_n_3 [OF RawURLEncode_no_dot RawURLEncode_no_dot, of h p sig] by simp
  then show ?thesis
    by (simp add: peekAlgorithm_def peekIssuer_def peek_def RawURLDecode_Encode Let_def split: option.split)
qed

end
