(* ===== verification/TokenExamples.thy ===== *)
theory TokenExamples
  imports TokenSafety
begin

text \<open>Concrete configurations, tokens and a concrete JWT library, on which the properties of the token
  validator are applied.\<close>

definition ex_go :: go_lib where
  "ex_go = \<lparr>url_parse = (\<lambda>u. Some (''http'', ''h'')), url_request_uri = (\<lambda>u. u \<noteq> ''''),
     fmt_quote = (\<lambda>s. CHR 0x22 # s @ [CHR 0x22]),
     json_object = (\<lambda>s. if s = ''a'' then Some [(''alg'', AStr ''RS256'')]
                        else if s = ''b'' then Some [(''iss'', AStr ''idp'')] else None)\<rparr>"

definition ex_claims :: config_map where
  "ex_claims = [(''sub'', AStr ''u1''), (''aud'', AStr ''api''), (''tenant_id'', AStr ''acme''), (''roles'', AList [AStr ''admin''])]"

text \<open>A library that accepts any token under the one key, with fixed claims.\<close>

definition ex_lib :: "jwt_method \<Rightarrow> jwt_key \<Rightarrow> jwt_lib" where
  "ex_lib m key =
     \<lparr>jwt_parse = (\<lambda>opts now tok. JAskKey \<lparr>jt_Method = m, jt_Header = [(''kid'', AStr ''k1'')]\<rparr>
        (\<lambda>res. case res of Inl e \<Rightarrow> Inl e
                | Inr k \<Rightarrow> if k = key then Inr (MapClaims ex_claims) else Inl [ErrOther])),
      json_jwks = json_jwks ex_jwt_lib\<rparr>"

definition ex_verifies :: "jwt_key \<Rightarrow> parser_opts \<Rightarrow> int \<Rightarrow> string \<Rightarrow> jwt_key \<Rightarrow> jwt_claims \<Rightarrow> bool" where
  "ex_verifies key opts now tok k c \<longleftrightarrow> k = key \<and> c = MapClaims ex_claims"

lemma ex_contract: "jwt_contract (ex_verifies key) (ex_lib m key)"
  by (auto simp: jwt_contract_def ex_lib_def ex_verifies_def split: if_split_asm)

definition ex_http :: "string \<Rightarrow> string \<Rightarrow> http_request" where
  "ex_http k v = \<lparr>r_method = ''GET'', r_scheme = '''', r_urlhost = '''', r_host = ''gw'', r_path = ''/a'',
     r_query = '''', r_header = hdr_set no_header k v, r_body = '''', r_ctx = Background\<rparr>"

lemma ex_http_header: "req_header (ex_http k v) k = v"
  by (simp add: ex_http_def req_header_def header_simps)

definition ex_inp :: tv_inputs where
  "ex_inp = \<lparr>tvi_fetch = ex_fetch 5 (Fetched 200 ''k1''), tvi_now = 6\<rparr>"

lemma ex_lib_published [simp]: "jwks_published (ex_lib m k) res = jwks_published ex_jwt_lib res"
  by (simp add: jwks_published_def ex_lib_def split: fetch_result.split)

section \<open>Version 2\<close>

definition ex_v2_raw :: config_map where
  "ex_v2_raw =
     [(''enabled'', ABool True),
      (''issuers'', AList [AMap [(''issuer'', AStr ''idp''), (''jwks_url'', AStr ''http://idp/keys'')]]),
      (''audiences'', AList [AStr ''api'']),
      (''propagate_claims'', AMap [(''mode'', AStr ''allowlist''), (''claims'', AList [AStr ''sub''])])]"

definition ex_v2_cfg :: map_config where
  "ex_v2_cfg = NewMapConfig (Some ex_v2_raw)"

definition ex_v2 :: token_validator where
  "ex_v2 = tv_zero\<lparr>tv_v2mode := True, tv_issuersPool := Some [(''idp'', 0)],
     tv_algorithms := [''RS256'', ''ES256''], tv_audiences := [''api''], tv_clockSkew := 60000000000,
     tv_requiredClaims := [''sub''], tv_propagateMode := ''allowlist'', tv_propagateClaims := [''sub''],
     tv_tokenHeader := ''Authorization'', tv_tokenScheme := ''Bearer'', tv_onFailure := defaultFailureCodes,
     tv_maxTokenBytes := 8192, tv_heap := [newJWKSValidator ''http://idp/keys'' 600000000000]\<rparr>"

lemma ex_v2_init: "tv_Init ex_go ex_v2_cfg tv_zero = Inr ex_v2"
  by code_simp

lemma ex_v2_mode: "isV2Config (Raw ex_v2_cfg)" "\<not> GetBool ex_v2_cfg ''test_mode''"
  by code_simp+

abbreviation ex_rs where "ex_rs \<equiv> ex_lib SigningMethodRSA (RsaKey ex_key)"

lemma ex_v2_extract: "extractTokenV2 ex_v2 (ex_http ''Authorization'' ''Bearer YQ.Yg.c'') = Some ''YQ.Yg.c''"
  by (simp add: extractTokenV2_def ex_v2_def ex_http_header cut_prefix_def has_prefix_def)

lemma ex_v2_precheck: "v2_precheck ex_go ex_v2 ''YQ.Yg.c'' = None"
  by code_simp

lemma ex_v2_validate:
  "fst (v2_validate ex_go ex_rs ex_inp ''YQ.Yg.c'' ex_v2) = Validated (Inr ex_claims)"
  "v2_claims_check ex_go (snd (v2_validate ex_go ex_rs ex_inp ''YQ.Yg.c'' ex_v2)) ex_claims = None"
  by code_simp+

lemma ex_v2_next:
  "\<exists>tv'. tv_handle ex_go ex_rs ex_inp (ex_http ''Authorization'' ''Bearer YQ.Yg.c'') w ex_v2 =
     (Next (with_context (ex_http ''Authorization'' ''Bearer YQ.Yg.c'') (v2_context tv' ex_claims Background)) w, tv')"
proof -
  obtain tv' where v: "v2_validate ex_go ex_rs ex_inp ''YQ.Yg.c'' ex_v2 = (Validated (Inr ex_claims), tv')"
    "v2_claims_check ex_go tv' ex_claims = None"
    using ex_v2_validate by (metis prod.collapse)
  have "tv_v2mode ex_v2" "tv_maxTokenBytes ex_v2 = 8192" by (simp_all add: ex_v2_def)
  with v show ?thesis
    by (simp add: tv_handle_def handleV2_def ex_v2_extract ex_v2_precheck) (simp add: ex_http_def)
qed

lemma ex_v2_pass:
  "\<exists>r' tv'. tv_handle ex_go ex_rs ex_inp (ex_http ''Authorization'' ''Bearer YQ.Yg.c'') (Conn new_conn)
     (tv_run ex_go ex_rs [] ex_v2) = (Next r' (Conn new_conn), tv')"
  using ex_v2_next [of "Conn new_conn"] by fastforce

lemma token_gate_v2_witness:
  "\<exists>tok mc key. ex_verifies (RsaKey ex_key) (with_opts (tv_algorithms ex_v2) (tv_clockSkew ex_v2)) (tvi_now ex_inp) tok
     (RsaKey key) (MapClaims mc) \<and> checkAudiences mc [''api'']"
proof -
  obtain r' tv' where "tv_handle ex_go ex_rs ex_inp (ex_http ''Authorization'' ''Bearer YQ.Yg.c'') (Conn new_conn)
     (tv_run ex_go ex_rs [] ex_v2) = (Next r' (Conn new_conn), tv')"
    using ex_v2_pass by blast
  from token_gate_v2 [OF ex_contract ex_v2_init ex_v2_mode this] show ?thesis
    by (simp add: ex_v2_def) blast
qed

lemma ex_v2_wf: "tv_wf ex_v2"
  using tv_Init_facts(3) [OF ex_v2_init tv_addrs_zero] .


lemma ex_v2_bad_alg: "peekAlgorithm ex_go ''Yg.Yg.c'' = ''''"
  by code_simp

lemma v2_cheap_rejection_no_fetch_witness:
  "\<exists>st code msg. \<forall>jl inp. tv_handle ex_go jl inp (ex_http ''Authorization'' ''Bearer Yg.Yg.c'') (Conn new_conn) ex_v2 =
     (Respond (WriteError (Conn new_conn) st (v2_error_body (ex_http ''Authorization'' ''Bearer Yg.Yg.c'') code msg)), ex_v2)"
proof (rule v2_cheap_rejection_no_fetch [where pool = "[(''idp'', 0)]"])
  have "extractTokenV2 ex_v2 (ex_http ''Authorization'' ''Bearer Yg.Yg.c'') = Some ''Yg.Yg.c''"
    by (simp add: extractTokenV2_def ex_v2_def ex_http_header cut_prefix_def has_prefix_def)
  with ex_v2_bad_alg show "extractTokenV2 ex_v2 (ex_http ''Authorization'' ''Bearer Yg.Yg.c'') = None \<or>
      (\<exists>tok. extractTokenV2 ex_v2 (ex_http ''Authorization'' ''Bearer Yg.Yg.c'') = Some tok \<and>
         (tv_maxTokenBytes ex_v2 > 0 \<and> int (length tok) > tv_maxTokenBytes ex_v2 \<or>
          peekAlgorithm ex_go tok = '''' \<or> peekAlgorithm ex_go tok \<notin> set (tv_algorithms ex_v2) \<or>
          findValidator [(''idp'', 0)] (peekIssuer ex_go tok) = None))"
    by blast
qed (simp_all add: ex_v2_def tv_zero_def)

lemma init_v2_settings_witness:
  "tv_wf ex_v2 \<and> tv_clockSkew ex_v2 \<le> 600 * second_ns"
  using init_v2_settings [OF ex_v2_init ex_v2_mode(1) tv_addrs_zero] by blast

lemma allowlist_claims_witness:
  "\<exists>cs. JWTClaims (v2_context ex_v2 ex_claims Background) = Some cs \<and> map_of cs ''tenant_id'' = None"
  using allowlist_claims [of ex_v2 ex_claims Background] by (auto simp: ex_v2_def)

lemma required_claims_empty_name_witness:
  "v2_claims_check ex_go (ex_v2\<lparr>tv_audiences := [], tv_requiredClaims := ['''', ''sub'']\<rparr>) [] = None"
  by (rule required_claims_empty_name) simp_all

section \<open>Version 1 and the test mode\<close>

definition ex_v1_cfg :: map_config where
  "ex_v1_cfg = NewMapConfig (Some [(''enabled'', ABool True), (''jwks_url'', AStr ''http://idp/keys'')])"

definition ex_v1 :: token_validator where
  "ex_v1 = tv_zero\<lparr>tv_jwksVal := Some 0, tv_heap := [newJWKSValidator ''http://idp/keys'' 600000000000]\<rparr>"

lemma ex_v1_init: "tv_Init ex_go ex_v1_cfg tv_zero = Inr ex_v1"
  by code_simp

lemma ex_v1_mode: "\<not> isV2Config (Raw ex_v1_cfg)" "\<not> GetBool ex_v1_cfg ''test_mode''"
  by code_simp+

lemma ex_v1_validate: "fst (tv_validate ex_rs ex_inp ''t'' ex_v1) = Some (Inr ex_claims)"
  by code_simp

lemma ex_bearer: "extractBearer (ex_http ''Authorization'' (''Bearer '' @ t)) = (if t = '''' then None else Some t)"
  unfolding extractBearer_def ex_http_header cut_prefix_append by simp

lemma ex_v1_pass:
  "\<exists>r' tv'. tv_handle ex_go ex_rs ex_inp (ex_http ''Authorization'' (''Bearer '' @ ''t'')) (Conn new_conn)
     (tv_run ex_go ex_rs [] ex_v1) = (Next r' (Conn new_conn), tv')"
proof -
  obtain tv' where "tv_validate ex_rs ex_inp ''t'' ex_v1 = (Some (Inr ex_claims), tv')"
    using ex_v1_validate by (metis prod.collapse)
  moreover have "\<not> tv_v2mode ex_v1" by (simp add: ex_v1_def tv_zero_def)
  ultimately show ?thesis
    unfolding tv_handle_def handleV1_def ex_bearer by simp
qed

lemma token_gate_v1_witness:
  "\<exists>opts tok mc key. ex_verifies (RsaKey ex_key) opts (tvi_now ex_inp) tok (RsaKey key) (MapClaims mc) \<and> po_methods opts = [''RS256'']"
proof -
  obtain r' tv' where "tv_handle ex_go ex_rs ex_inp (ex_http ''Authorization'' (''Bearer '' @ ''t'')) (Conn new_conn)
     (tv_run ex_go ex_rs [] ex_v1) = (Next r' (Conn new_conn), tv')"
    using ex_v1_pass by blast
  from token_gate_v1 [OF ex_contract ex_v1_init ex_v1_mode this] show ?thesis by force
qed

definition ex_test_cfg :: map_config where
  "ex_test_cfg = NewMapConfig (Some [(''enabled'', ABool True), (''test_mode'', ABool True), (''jwt_secret'', AStr ''s3cret'')])"

definition ex_test :: token_validator where
  "ex_test = tv_zero\<lparr>tv_testMode := True, tv_hs256Key := ''s3cret''\<rparr>"

lemma ex_test_init: "tv_Init ex_go ex_test_cfg tv_zero = Inr ex_test"
  by code_simp

abbreviation ex_hs where "ex_hs \<equiv> ex_lib SigningMethodHMAC (HmacKey ''s3cret'')"

lemma ex_test_validate: "tv_validate ex_hs ex_inp ''t'' ex_test = (Some (Inr ex_claims), ex_test)"
  by code_simp


end
