(* ===== verification/TenantInjector.thy ===== *)
theory TenantInjector
  imports Response LruCache
begin

text \<open>
  \<open>internal/plugins/tenantinjector\<close>: the tenant of a request is derived from a claim of the
  validated token by asking a directory, through an LRU cache with positive and negative entries, and put
  into a header of which the client's value is dropped first.

  \<open>tenant_injector\<close> is the plugin's struct. Inputs of one request are the clock at the lookup and at
  the store, the directory's answer to the request the plugin sends, and what \<open>singleflight\<close> (a
  third-party package) does: run the function here, or hand over the result of a call for the same principal
  that is already in flight.
\<close>

section \<open>Escaping of a path segment\<close>

definition upper_hex :: "nat \<Rightarrow> char" where
  "upper_hex n = (if n < 10 then char_of (48 + n) else char_of (55 + n))"

text \<open>\<open>shouldEscape(c, encodePathSegment)\<close>, negated.\<close>

definition path_plain :: "char \<Rightarrow> bool" where
  "path_plain c \<longleftrightarrow>
     (let n = byte_of c in 65 \<le> n \<and> n \<le> 90 \<or> 97 \<le> n \<and> n \<le> 122 \<or> 48 \<le> n \<and> n \<le> 57) \<or>
     c \<in> set ''-_.~$&+:=@''"

fun PathEscape :: "string \<Rightarrow> string" where
  "PathEscape [] = []"
| "PathEscape (c # s) =
     (if path_plain c then c # PathEscape s
      else CHR ''%'' # upper_hex (byte_of c div 16) # upper_hex (byte_of c mod 16) # PathEscape s)"

section \<open>State and inputs\<close>

datatype lookup_err = PrincipalNotFound | LookupTimeout | LookupNetwork

record ti_failure_codes =
  tif_lookupNetworkError :: int
  tif_lookupTimeout :: int
  tif_principalNotFound :: int
  tif_claimMissing :: int

record ti_entry =
  tie_key :: string
  tie_tenantID :: string
  tie_negative :: bool
  tie_expiresAt :: int

record tenant_injector =
  ti_principalClaim :: string
  ti_lookupURL :: string
  ti_lookupMethod :: string
  ti_lookupHeaders :: "(string \<times> string) list"
  ti_bearerToken :: string
  ti_tenantIDField :: string
  ti_injectTenantHeader :: string
  ti_injectPrincipalHdr :: string
  ti_allowlist :: "string list"
  ti_cacheTTL :: int
  ti_negativeCacheTTL :: int
  ti_failures :: ti_failure_codes
  ti_timeout :: int
  ti_maxSize :: int
  ti_lru :: "ti_entry lru"

text \<open>The directory's answer: a timeout, another transport error, or a status with the body
  (\<open>None\<close> when reading it fails).\<close>

datatype dir_answer = DirTimeout | DirErr | DirStatus int "string option"

record ti_inputs =
  tii_lookup :: int
  tii_shared :: "(lookup_err + string) option"
  tii_answer :: "out_request \<Rightarrow> dir_answer"
  tii_store :: int

text \<open>The environment Init reads: \<open>os.Getenv\<close>, and the error text of \<open>os.Stat\<close> if any.\<close>

record os_env =
  os_getenv :: "string \<Rightarrow> string"
  os_stat :: "string \<Rightarrow> string option"

section \<open>Configuration helpers\<close>

text \<open>A nil map reads like an empty one.\<close>

definition submap :: "config_map \<Rightarrow> string \<Rightarrow> config_map" where
  "submap m key = (case Option.bind (map_of m key) map_of_any of Some v \<Rightarrow> v | None \<Rightarrow> [])"

definition mapStr :: "config_map \<Rightarrow> string \<Rightarrow> string" where
  "mapStr m key = get_str m key"

definition mapInt :: "config_map \<Rightarrow> string \<Rightarrow> int" where
  "mapInt m key = (case Option.bind (map_of m key) int_of_any of Some n \<Rightarrow> n | None \<Rightarrow> 0)"

definition mapIntDefault :: "config_map \<Rightarrow> string \<Rightarrow> int \<Rightarrow> int" where
  "mapIntDefault m key def = (let v = mapInt m key in if v = 0 then def else v)"

definition mapIntPresent :: "config_map \<Rightarrow> string \<Rightarrow> int \<times> bool" where
  "mapIntPresent m key =
     (case map_of m key of
        None \<Rightarrow> (0, False)
      | Some v \<Rightarrow> (case int_of_any v of Some n \<Rightarrow> (n, True) | None \<Rightarrow> (0, True)))"

fun string_pairs :: "config_map \<Rightarrow> (string \<times> string) list" where
  "string_pairs [] = []"
| "string_pairs ((k, v) # m) = (case str_of v of Some s \<Rightarrow> (k, s) # string_pairs m | None \<Rightarrow> string_pairs m)"

definition mapStrMap :: "config_map \<Rightarrow> string \<Rightarrow> (string \<times> string) list" where
  "mapStrMap m key = string_pairs (submap m key)"

section \<open>Init\<close>

text \<open>Rule 5: the bearer token of the lookup, \<open>""\<close> in the other modes.\<close>

definition ti_auth :: "go_lib \<Rightarrow> os_env \<Rightarrow> config_map \<Rightarrow> string + string" where
  "ti_auth lib env authMap =
     (let authMode = (if mapStr authMap ''mode'' = '''' then ''none'' else mapStr authMap ''mode'') in
      if authMode = ''none'' then Inr ''''
      else if authMode = ''bearer'' then
        (let envName = mapStr authMap ''bearer_token_env'' in
         if envName = '''' then Inl ''tenant-injector: lookup.auth.bearer_token_env must be set when mode is bearer''
         else if os_getenv env envName = '''' then
           Inl (''tenant-injector: env var '' @ envName @ '' is unset or empty (required for auth.mode: bearer)'')
         else Inr (os_getenv env envName))
      else if authMode = ''mtls'' then
        (let certPath = mapStr authMap ''client_cert_path''; keyPath = mapStr authMap ''client_key_path'' in
         if certPath = '''' \<or> keyPath = '''' then
           Inl ''tenant-injector: client_cert_path and client_key_path required for auth.mode: mtls''
         else case os_stat env certPath of
           Some err \<Rightarrow> Inl (''tenant-injector: client_cert_path '' @ fmt_quote lib certPath @ '' not readable: '' @ err)
         | None \<Rightarrow>
             (case os_stat env keyPath of
                Some err \<Rightarrow> Inl (''tenant-injector: client_key_path '' @ fmt_quote lib keyPath @ '' not readable: '' @ err)
              | None \<Rightarrow> Inr ''''))
      else Inl (''tenant-injector: lookup.auth.mode must be none|bearer|mtls, got '' @ fmt_quote lib authMode))"

text \<open>Rule 7: the TTLs and the size of the cache, in seconds and entries.\<close>

definition ti_cache_cfg :: "config_map \<Rightarrow> string + int \<times> int \<times> int" where
  "ti_cache_cfg cacheMap =
     (let (ttlSec, ttlPresent) = mapIntPresent cacheMap ''ttl_seconds'';
          (maxEntries, maxPresent) = mapIntPresent cacheMap ''max_entries'';
          negTTLSec = mapIntDefault cacheMap ''negative_ttl_seconds'' 30
      in if ttlPresent \<and> ttlSec \<le> 0 then Inl ''tenant-injector: lookup.cache.ttl_seconds must be > 0''
         else if maxPresent \<and> maxEntries \<le> 0 then Inl ''tenant-injector: lookup.cache.max_entries must be > 0''
         else Inr (if ttlPresent then ttlSec else 300, negTTLSec, if maxPresent then maxEntries else 10000))"

definition ti_fail_cfg :: "config_map \<Rightarrow> ti_failure_codes" where
  "ti_fail_cfg failMap =
     \<lparr>tif_lookupNetworkError = mapIntDefault failMap ''lookup_network_error'' 503,
      tif_lookupTimeout = mapIntDefault failMap ''lookup_timeout'' 503,
      tif_principalNotFound = mapIntDefault failMap ''principal_not_found'' 403,
      tif_claimMissing = mapIntDefault failMap ''claim_missing'' 401\<rparr>"

text \<open>Rules 1 to 3, with the claim, the URL and the method they accept.\<close>

definition ti_lookup_cfg :: "go_lib \<Rightarrow> config_map \<Rightarrow> string + string \<times> string \<times> string" where
  "ti_lookup_cfg lib raw =
     (let principalClaim = mapStr (submap raw ''principal'') ''claim'';
          lookupURL = mapStr (submap raw ''lookup'') ''url'';
          method = (if mapStr (submap raw ''lookup'') ''method'' = '''' then ''GET'' else mapStr (submap raw ''lookup'') ''method'')
      in if principalClaim = '''' then Inl ''tenant-injector: principal.claim must be non-empty''
         else if url_parse lib lookupURL = None \<or> lookupURL = '''' then
           Inl (''tenant-injector: lookup.url '' @ fmt_quote lib lookupURL @ '' is not a valid URL'')
         else if count_sub lookupURL ''{principal}'' \<noteq> 1 then
           Inl ''tenant-injector: lookup.url must contain exactly one {principal} placeholder''
         else if method \<noteq> ''GET'' \<and> method \<noteq> ''POST'' then
           Inl (''tenant-injector: lookup.method must be GET or POST, got '' @ fmt_quote lib method)
         else Inr (principalClaim, lookupURL, method))"

text \<open>Rule 4.\<close>

definition ti_timeout_cfg :: "config_map \<Rightarrow> string + int" where
  "ti_timeout_cfg lookupMap =
     (let timeoutMs = int_or (mapInt lookupMap ''timeout_ms'') 500 in
      if timeoutMs > 30000 then
        Inl (''tenant-injector: lookup.timeout_ms '' @ itoa timeoutMs @ '' exceeds maximum 30000'')
      else Inr timeoutMs)"

text \<open>Rule 6.\<close>

definition ti_response_cfg :: "go_lib \<Rightarrow> config_map \<Rightarrow> string + string" where
  "ti_response_cfg lib responseMap =
     (let responseMode = (if mapStr responseMap ''mode'' = '''' then ''single'' else mapStr responseMap ''mode'') in
      if responseMode \<noteq> ''single'' then
        Inl (''tenant-injector: lookup.response.mode must be '' @ [CHR 0x22] @ ''single'' @ [CHR 0x22] @
          '' in v0.2 (got '' @ fmt_quote lib responseMode @ ''); multi-tenant is v0.3+'')
      else Inr (str_or (mapStr responseMap ''tenant_id_field'') ''tenant_id''))"

text \<open>The last part of Init: the plugin with its settings and an empty cache.\<close>

definition ti_configured ::
    "map_config \<Rightarrow> string \<times> string \<times> string \<Rightarrow> int \<Rightarrow> string \<Rightarrow> string \<Rightarrow> int \<times> int \<times> int \<Rightarrow> string \<Rightarrow>
      tenant_injector \<Rightarrow> tenant_injector" where
  "ti_configured cfg target timeoutMs bearerToken tenantIDField cache tenantHeader ti =
     (case (target, cache) of
        ((principalClaim, lookupURL, method), (ttlSec, negTTLSec, maxEntries)) \<Rightarrow>
          ti\<lparr>ti_principalClaim := principalClaim, ti_lookupURL := lookupURL, ti_lookupMethod := method,
             ti_lookupHeaders := mapStrMap (submap (Raw cfg) ''lookup'') ''headers'', ti_bearerToken := bearerToken,
             ti_tenantIDField := tenantIDField, ti_injectTenantHeader := tenantHeader,
             ti_injectPrincipalHdr := mapStr (submap (Raw cfg) ''inject'') ''principal_header'',
             ti_allowlist := GetStringSlice cfg ''allowlist'', ti_cacheTTL := dur_seconds ttlSec,
             ti_negativeCacheTTL := dur_seconds negTTLSec, ti_failures := ti_fail_cfg (submap (Raw cfg) ''on_failure''),
             ti_timeout := dur_millis timeoutMs, ti_maxSize := maxEntries, ti_lru := lru_new\<rparr>)"

definition ti_Init :: "go_lib \<Rightarrow> os_env \<Rightarrow> map_config \<Rightarrow> tenant_injector \<Rightarrow> string + tenant_injector" where
  "ti_Init lib env cfg ti =
     (if \<not> GetBool cfg ''enabled'' then Inl ''tenant-injector: plugin cannot be disabled (defence-in-depth)''
      else
        let raw = Raw cfg; lookupMap = submap raw ''lookup'' in
        and_then (ti_lookup_cfg lib raw) (\<lambda>target.
        and_then (ti_timeout_cfg lookupMap) (\<lambda>timeoutMs.
        and_then (ti_auth lib env (submap lookupMap ''auth'')) (\<lambda>bearerToken.
        and_then (ti_response_cfg lib (submap lookupMap ''response'')) (\<lambda>tenantIDField.
        and_then (ti_cache_cfg (submap lookupMap ''cache'')) (\<lambda>cache.
          let tenantHeader = mapStr (submap raw ''inject'') ''tenant_header'' in
          if tenantHeader = '''' then Inl ''tenant-injector: inject.tenant_header must be non-empty''
          else Inr (ti_configured cfg target timeoutMs bearerToken tenantIDField cache tenantHeader ti)))))))"

section \<open>The cache\<close>

definition ti_cacheGet :: "int \<Rightarrow> string \<Rightarrow> tenant_injector \<Rightarrow> (string \<times> bool \<times> bool) \<times> tenant_injector" where
  "ti_cacheGet now key ti =
     (let c = ti_lru ti in
      case lru_map c key of
        None \<Rightarrow> (('''', False, False), ti)
      | Some el \<Rightarrow>
          (case lru_elem c el of
             None \<Rightarrow> (('''', False, False), ti)
           | Some e \<Rightarrow>
               if tie_expiresAt e < now
               then (('''', False, False), ti\<lparr>ti_lru := map_delete key (list_remove el c)\<rparr>)
               else ((tie_tenantID e, tie_negative e, True), ti\<lparr>ti_lru := list_move_to_front el c\<rparr>)))"

definition ti_evict :: "int \<Rightarrow> ti_entry lru \<Rightarrow> ti_entry lru" where
  "ti_evict maxSize c =
     (if maxSize \<le> list_len c then
        (case list_back c of
           None \<Rightarrow> c
         | Some el \<Rightarrow>
             (case lru_elem c el of
                None \<Rightarrow> c
              | Some e \<Rightarrow> map_delete (tie_key e) (list_remove el c)))
      else c)"

definition ti_cacheSet :: "int \<Rightarrow> string \<Rightarrow> string \<Rightarrow> bool \<Rightarrow> int \<Rightarrow> tenant_injector \<Rightarrow> tenant_injector" where
  "ti_cacheSet now key tenantID negative ttl ti =
     (let c = ti_lru ti;
          entry = \<lparr>tie_key = key, tie_tenantID = tenantID, tie_negative = negative, tie_expiresAt = now + ttl\<rparr> in
      case lru_map c key of
        Some el \<Rightarrow> ti\<lparr>ti_lru := list_move_to_front el (elem_write el entry c)\<rparr>
      | None \<Rightarrow>
          (let (el, c) = list_push_front entry (ti_evict (ti_maxSize ti) c)
           in ti\<lparr>ti_lru := map_store key el c\<rparr>))"

section \<open>The lookup\<close>

definition ti_request :: "tenant_injector \<Rightarrow> string \<Rightarrow> out_request" where
  "ti_request ti prin =
     (let req = \<lparr>o_method = ti_lookupMethod ti,
            o_url = replace_all (ti_lookupURL ti) ''{principal}'' (PathEscape prin), o_header = no_header\<rparr>;
          req = fold (\<lambda>(k, v) req. set_out_header k v req) (ti_lookupHeaders ti) req
      in if ti_bearerToken ti \<noteq> '''' then set_out_header ''Authorization'' (''Bearer '' @ ti_bearerToken ti) req else req)"

text \<open>What the directory's answer means; the body is read up to 64 KiB.\<close>

definition dir_tenant :: "go_lib \<Rightarrow> string \<Rightarrow> dir_answer \<Rightarrow> lookup_err + string" where
  "dir_tenant lib field ans =
     (case ans of
        DirTimeout \<Rightarrow> Inl LookupTimeout
      | DirErr \<Rightarrow> Inl LookupNetwork
      | DirStatus st body \<Rightarrow>
          if st = 404 then Inl PrincipalNotFound
          else if st < 200 \<or> st \<ge> 300 then Inl LookupNetwork
          else case body of
            None \<Rightarrow> Inl LookupNetwork
          | Some bs \<Rightarrow>
              (case json_object lib (take 65536 bs) of
                 None \<Rightarrow> Inl LookupNetwork
               | Some payload \<Rightarrow>
                   if get_str payload field = '''' then Inl PrincipalNotFound
                   else Inr (get_str payload field)))"

definition doHTTPLookup :: "go_lib \<Rightarrow> ti_inputs \<Rightarrow> string \<Rightarrow> tenant_injector \<Rightarrow> lookup_err + string" where
  "doHTTPLookup lib inp prin ti =
     (let req = ti_request ti prin in
      if url_parse lib (o_url req) = None then Inl LookupNetwork
      else dir_tenant lib (ti_tenantIDField ti) (tii_answer inp req))"

definition resolveTenant ::
    "go_lib \<Rightarrow> ti_inputs \<Rightarrow> string \<Rightarrow> tenant_injector \<Rightarrow> (lookup_err + string) \<times> tenant_injector" where
  "resolveTenant lib inp prin ti =
     (case ti_cacheGet (tii_lookup inp) prin ti of
        ((tid, neg, ok), ti) \<Rightarrow>
          if ok then (if neg then Inl PrincipalNotFound else Inr tid, ti)
          else
            (case tii_shared inp of
               Some res \<Rightarrow> (res, ti)
             | None \<Rightarrow>
                 (let res = doHTTPLookup lib inp prin ti in
                  (res,
                   case res of
                     Inr tid \<Rightarrow> ti_cacheSet (tii_store inp) prin tid False (ti_cacheTTL ti) ti
                   | Inl PrincipalNotFound \<Rightarrow> ti_cacheSet (tii_store inp) prin '''' True (ti_negativeCacheTTL ti) ti
                   | Inl _ \<Rightarrow> ti))))"

section \<open>Handler\<close>

definition ti_error :: "http_request \<Rightarrow> string \<Rightarrow> string \<Rightarrow> string \<Rightarrow> error_body" where
  "ti_error r code msg dep =
     \<lparr>ErrType = ''error'', Code = code, Message = msg, RetryAfter = 0,
      Trace = trace_of (CorrelationID (r_ctx r)) (RequestID (r_ctx r)) dep\<rparr>"

definition ti_writeErr :: "writer \<Rightarrow> http_request \<Rightarrow> int \<Rightarrow> string \<Rightarrow> string \<Rightarrow> string \<Rightarrow> verdict" where
  "ti_writeErr w r status code msg dep = Respond (WriteError w status (ti_error r code msg dep))"

definition ti_lookup_error :: "tenant_injector \<Rightarrow> writer \<Rightarrow> http_request \<Rightarrow> lookup_err \<Rightarrow> verdict" where
  "ti_lookup_error ti w r err =
     (case err of
        PrincipalNotFound \<Rightarrow>
          ti_writeErr w r (tif_principalNotFound (ti_failures ti)) ''principal_not_found'' ''principal has no associated tenant'' ''''
      | LookupTimeout \<Rightarrow>
          ti_writeErr w r (tif_lookupTimeout (ti_failures ti)) ''lookup_timeout'' ''tenant directory lookup timed out'' ''iam-lookup''
      | LookupNetwork \<Rightarrow>
          ti_writeErr w r (tif_lookupNetworkError (ti_failures ti)) ''lookup_network_error'' ''tenant directory lookup failed'' ''iam-lookup'')"

definition ti_inject :: "tenant_injector \<Rightarrow> string \<Rightarrow> string \<Rightarrow> http_request \<Rightarrow> http_request" where
  "ti_inject ti tenantID prin r =
     (let r = set_req_header (ti_injectTenantHeader ti) tenantID r in
      if ti_injectPrincipalHdr ti \<noteq> '''' then set_req_header (ti_injectPrincipalHdr ti) prin r else r)"

definition ti_handle :: "go_lib \<Rightarrow> ti_inputs \<Rightarrow> tenant_injector decision" where
  "ti_handle lib inp r0 w ti =
     (let r = del_req_header (ti_injectTenantHeader ti) r0 in
      case JWTClaims (r_ctx r) of
        None \<Rightarrow>
          (ti_writeErr w r (tif_claimMissing (ti_failures ti)) ''claim_missing''
             ''JWT claims not found in context (token-validator must run before tenant-injector)'' '''', ti)
      | Some claims \<Rightarrow>
          (let prin = get_str claims (ti_principalClaim ti) in
           if prin = '''' then
             (ti_writeErr w r (tif_claimMissing (ti_failures ti)) ''claim_missing''
                (''JWT claim '' @ fmt_quote lib (ti_principalClaim ti) @ '' is absent or empty'') '''', ti)
           else
             (case resolveTenant lib inp prin ti of
                (Inl err, ti) \<Rightarrow> (ti_lookup_error ti w r err, ti)
              | (Inr tenantID, ti) \<Rightarrow>
                  if ti_allowlist ti \<noteq> [] \<and> tenantID \<notin> set (ti_allowlist ti) then
                    (ti_writeErr w r (tif_principalNotFound (ti_failures ti)) ''tenant_not_in_allowlist''
                       ''derived tenant is not in the configured allowlist'' '''', ti)
                  else (Next (ti_inject ti tenantID prin r) w, ti))))"

interpretation ti_mw: middleware "middleware_of get put (ti_handle lib inp)" for get put lib inp
  by (rule middleware_middleware_of)

end
