(* ===== verification/TenantSafety.thy ===== *)
theory TenantSafety
  imports TenantInjector
begin

text \<open>
  What the tenant injector guarantees: its cache is a TTL cache, the tenant it injects is the
  directory's answer for the principal of the token, the client's value of the tenant header has no effect,
  and the directory is asked about exactly the principal that the token names.
\<close>

section \<open>The cache is a TTL cache\<close>

definition tie_view :: "ti_entry \<Rightarrow> string \<times> (string \<times> bool) \<times> int" where
  "tie_view e = (tie_key e, (tie_tenantID e, tie_negative e), tie_expiresAt e)"

definition ti_inv :: "tenant_injector \<Rightarrow> bool" where
  "ti_inv ti \<longleftrightarrow> lru_inv tie_view (ti_lru ti)"

definition ti_abs :: "tenant_injector \<Rightarrow> (string \<times> (string \<times> bool) \<times> int) list" where
  "ti_abs ti = lru_abs tie_view (ti_lru ti)"

definition ti_get :: "int \<Rightarrow> string \<Rightarrow> tenant_injector \<Rightarrow> (string \<times> bool) option \<times> tenant_injector" where
  "ti_get now k ti = (case ti_cacheGet now k ti of ((tid, neg, hit), ti') \<Rightarrow> (if hit then Some (tid, neg) else None, ti'))"

definition ti_put :: "int \<Rightarrow> string \<Rightarrow> string \<times> bool \<Rightarrow> tenant_injector \<Rightarrow> tenant_injector" where
  "ti_put t k v ti = ti_cacheSet 0 k (fst v) (snd v) t ti"

lemma ti_cacheSet_put: "ti_cacheSet now k tid neg ttl ti = ti_put (now + ttl) k (tid, neg) ti"
  by (simp add: ti_put_def ti_cacheSet_def)

lemma fst_tie_view [simp]: "fst (tie_view e) = tie_key e"
  by (simp add: tie_view_def)

lemma ti_evict_correct:
  assumes "lru_inv tie_view c"
  shows "lru_inv tie_view (ti_evict m c)"
    and "lru_abs tie_view (ti_evict m c) =
      (if m \<le> int (length (lru_abs tie_view c)) then butlast (lru_abs tie_view c) else lru_abs tie_view c)"
    and "lru_map c k = None \<Longrightarrow> lru_map (ti_evict m c) k = None"
proof -
  consider "\<not> m \<le> list_len c" | "m \<le> list_len c" "list_back c = None"
    | a e where "m \<le> list_len c" "list_back c = Some a" "lru_elem c a = Some e"
    using list_back_elem [OF assms] by (cases "list_back c") auto
  then have "lru_inv tie_view (ti_evict m c) \<and>
      lru_abs tie_view (ti_evict m c) =
        (if m \<le> int (length (lru_abs tie_view c)) then butlast (lru_abs tie_view c) else lru_abs tie_view c) \<and>
      (lru_map c k = None \<longrightarrow> lru_map (ti_evict m c) k = None)"
  proof cases
    case 1
    then show ?thesis
      using assms by (simp add: ti_evict_def list_len_def length_lru_abs)
  next
    case 2
    then show ?thesis
      using assms by (simp add: ti_evict_def lru_abs_def list_back_def split: if_splits)
  next
    case 3
    then show ?thesis
      using lru_evict [OF assms 3(2,3)]
      by (simp add: ti_evict_def list_len_def length_lru_abs map_delete_def list_remove_def)
  qed
  then show "lru_inv tie_view (ti_evict m c)"
    and "lru_abs tie_view (ti_evict m c) =
      (if m \<le> int (length (lru_abs tie_view c)) then butlast (lru_abs tie_view c) else lru_abs tie_view c)"
    and "lru_map c k = None \<Longrightarrow> lru_map (ti_evict m c) k = None"
    by blast+
qed

lemma ti_get_refines:
  assumes "ti_inv ti"
  shows "(fst (ti_get now k ti), ti_abs (snd (ti_get now k ti))) = spec_get now k (ti_abs ti)"
    and "ti_inv (snd (ti_get now k ti))"
proof -
  let ?c = "ti_lru ti"
  have inv: "lru_inv tie_view ?c" using assms by (simp add: ti_inv_def)
  have "(fst (ti_get now k ti), ti_abs (snd (ti_get now k ti))) = spec_get now k (ti_abs ti) \<and>
      ti_inv (snd (ti_get now k ti))"
  proof (cases "lru_map ?c k")
    case None
    then show ?thesis
      using assms lru_map_None_abs [OF inv None]
      by (simp add: ti_get_def ti_cacheGet_def ti_abs_def spec_get_def)
  next
    case (Some a)
    then obtain e where e: "lru_elem ?c a = Some e"
      using lru_invD(5) [OF inv Some] by blast
    have k: "tie_key e = k" using lru_invD(5) [OF inv Some] e by simp
    show ?thesis
      using lru_map_Some_abs [OF inv Some e] k Some e lru_remove [OF inv Some] lru_touch [OF inv Some e]
      by (simp add: ti_get_def ti_cacheGet_def ti_abs_def ti_inv_def spec_get_def tie_view_def)
  qed
  then show "(fst (ti_get now k ti), ti_abs (snd (ti_get now k ti))) = spec_get now k (ti_abs ti)"
    and "ti_inv (snd (ti_get now k ti))" by blast+
qed

lemma ti_put_refines:
  assumes "ti_inv ti"
  shows "ti_abs (ti_put t k v ti) = spec_set (ti_maxSize ti) t k v (ti_abs ti)"
    and "ti_inv (ti_put t k v ti)"
proof -
  let ?c = "ti_lru ti"
  let ?e = "\<lparr>tie_key = k, tie_tenantID = fst v, tie_negative = snd v, tie_expiresAt = t\<rparr>"
  have inv: "lru_inv tie_view ?c" using assms by (simp add: ti_inv_def)
  have "ti_abs (ti_put t k v ti) = spec_set (ti_maxSize ti) t k v (ti_abs ti) \<and> ti_inv (ti_put t k v ti)"
  proof (cases "lru_map ?c k")
    case (Some a)
    then obtain e where e: "lru_elem ?c a = Some e"
      using lru_invD(5) [OF inv Some] by blast
    show ?thesis
      using lru_map_Some_abs [OF inv Some e] Some lru_refresh [OF inv Some, of ?e]
      by (simp add: ti_put_def ti_cacheSet_def ti_abs_def ti_inv_def spec_set_def tie_view_def Let_def)
  next
    case None
    note ev = ti_evict_correct [OF inv, where m = "ti_maxSize ti"]
    obtain a c' where push: "list_push_front ?e (ti_evict (ti_maxSize ti) ?c) = (a, c')"
      by (cases "list_push_front ?e (ti_evict (ti_maxSize ti) ?c)")
    show ?thesis
      using None lru_map_None_abs [OF inv None] ev(2) push lru_push [OF ev(1) ev(3) [OF None] _ push]
      by (simp add: ti_put_def ti_cacheSet_def ti_abs_def ti_inv_def spec_set_def tie_view_def Let_def)
  qed
  then show "ti_abs (ti_put t k v ti) = spec_set (ti_maxSize ti) t k v (ti_abs ti)" and "ti_inv (ti_put t k v ti)"
    by blast+
qed

text \<open>The operations of the cache touch nothing but the cache.\<close>

definition ti_conf :: "tenant_injector \<Rightarrow> tenant_injector" where
  "ti_conf ti = ti\<lparr>ti_lru := lru_new\<rparr>"

lemma ti_conf_fields:
  assumes "ti_conf ti' = ti_conf ti"
  shows "ti_principalClaim ti' = ti_principalClaim ti" "ti_lookupURL ti' = ti_lookupURL ti"
    "ti_cacheTTL ti' = ti_cacheTTL ti" "ti_negativeCacheTTL ti' = ti_negativeCacheTTL ti"
    "ti_allowlist ti' = ti_allowlist ti" "ti_injectTenantHeader ti' = ti_injectTenantHeader ti"
    "ti_injectPrincipalHdr ti' = ti_injectPrincipalHdr ti" "ti_failures ti' = ti_failures ti"
    "ti_maxSize ti' = ti_maxSize ti" "ti_tenantIDField ti' = ti_tenantIDField ti"
    "ti_request ti' prin = ti_request ti prin" "ti_inject ti' tid prin r = ti_inject ti tid prin r"
    "doHTTPLookup lib inp prin ti' = doHTTPLookup lib inp prin ti"
proof -
  have "ti' = ti\<lparr>ti_lru := ti_lru ti'\<rparr>"
    using assms by (cases ti; cases ti') (simp add: ti_conf_def)
  then obtain l where l: "ti' = ti\<lparr>ti_lru := l\<rparr>" by blast
  have req: "ti_request (ti\<lparr>ti_lru := l\<rparr>) prin = ti_request ti prin"
    by (simp add: ti_request_def Let_def)
  show "ti_principalClaim ti' = ti_principalClaim ti" "ti_lookupURL ti' = ti_lookupURL ti"
    "ti_cacheTTL ti' = ti_cacheTTL ti" "ti_negativeCacheTTL ti' = ti_negativeCacheTTL ti"
    "ti_allowlist ti' = ti_allowlist ti" "ti_injectTenantHeader ti' = ti_injectTenantHeader ti"
    "ti_injectPrincipalHdr ti' = ti_injectPrincipalHdr ti" "ti_failures ti' = ti_failures ti"
    "ti_maxSize ti' = ti_maxSize ti" "ti_tenantIDField ti' = ti_tenantIDField ti"
    "ti_request ti' prin = ti_request ti prin" "ti_inject ti' tid prin r = ti_inject ti tid prin r"
    "doHTTPLookup lib inp prin ti' = doHTTPLookup lib inp prin ti"
    by (simp_all only: l req ti_inject_def doHTTPLookup_def Let_def) (simp_all split: if_split)
qed

lemma ti_get_conf: "ti_conf (snd (ti_cacheGet now k ti)) = ti_conf ti"
  by (auto simp: ti_cacheGet_def ti_conf_def Let_def split: option.splits)

lemma ti_put_conf: "ti_conf (ti_put t k v ti) = ti_conf ti"
  by (auto simp: ti_put_def ti_cacheSet_def ti_conf_def Let_def split: option.splits prod.splits)

lemma snd_ti_get: "snd (ti_get now k ti) = snd (ti_cacheGet now k ti)"
  by (simp add: ti_get_def case_prod_beta)

lemma ti_get_maxSize: "ti_maxSize (snd (ti_get now k ti)) = ti_maxSize ti"
  by (rule ti_conf_fields(9)) (simp add: snd_ti_get ti_get_conf)

interpretation dir_cache: ttl_lru ti_get ti_put ti_maxSize ti_inv ti_abs
proof unfold_locales
  fix c now k r c'
  assume "ti_inv c" and g: "ti_get now k c = (r, c')"
  then show "(r, ti_abs c') = spec_get now k (ti_abs c)"
    using ti_get_refines(1) [of c now k] by simp
next
  fix c now k r c'
  assume "ti_inv c" and g: "ti_get now k c = (r, c')"
  then show "ti_inv c'"
    using ti_get_refines(2) [of c now k] by simp
next
  fix c now k r c'
  assume "ti_get now k c = (r, c')"
  then show "ti_maxSize c' = ti_maxSize c"
    using ti_get_maxSize [of now k c] by simp
next
  fix t k v c
  show "ti_maxSize (ti_put t k v c) = ti_maxSize c"
    by (rule ti_conf_fields(9)) (rule ti_put_conf)
next
  fix c
  assume "ti_inv c"
  then show "al_distinct (ti_abs c)" by (simp add: ti_inv_def ti_abs_def lru_abs_distinct)
qed (simp_all add: ti_put_refines)

section \<open>What a request does to the cache\<close>

text \<open>The entry a result is remembered as; transport errors are not remembered.\<close>

definition ti_entry_of :: "ti_inputs \<Rightarrow> tenant_injector \<Rightarrow> lookup_err + string \<Rightarrow> ((string \<times> bool) \<times> int) option" where
  "ti_entry_of inp ti res =
     (case res of
        Inr tid \<Rightarrow> Some ((tid, False), tii_store inp + ti_cacheTTL ti)
      | Inl PrincipalNotFound \<Rightarrow> Some (('''', True), tii_store inp + ti_negativeCacheTTL ti)
      | Inl _ \<Rightarrow> None)"

definition ti_ops :: "go_lib \<Rightarrow> ti_inputs \<Rightarrow> string \<Rightarrow> tenant_injector \<Rightarrow> (string \<times> bool) cache_op list" where
  "ti_ops lib inp prin ti =
     OpGet (tii_lookup inp) prin #
     (if fst (ti_get (tii_lookup inp) prin ti) = None \<and> tii_shared inp = None then
        (case ti_entry_of inp ti (doHTTPLookup lib inp prin ti) of
           Some (v, t) \<Rightarrow> [OpSet t prin v]
         | None \<Rightarrow> [])
      else [])"

lemma resolveTenant_ops:
  "snd (resolveTenant lib inp prin ti) = fold dir_cache.step (ti_ops lib inp prin ti) ti"
proof -
  obtain tid neg hit ti1 where g: "ti_cacheGet (tii_lookup inp) prin ti = ((tid, neg, hit), ti1)"
    by (metis prod.exhaust)
  then have "ti_conf ti1 = ti_conf ti" using ti_get_conf [of "tii_lookup inp" prin ti] by simp
  note conf = ti_conf_fields [OF this]
  show ?thesis
    using g
    by (auto simp: resolveTenant_def ti_ops_def ti_get_def ti_entry_of_def conf ti_cacheSet_put Let_def
        split: option.split sum.split lookup_err.split)
qed

lemma resolveTenant_result:
  assumes "fst (resolveTenant lib inp prin ti) = Inr tid"
  obtains (cached) "fst (ti_get (tii_lookup inp) prin ti) = Some (tid, False)"
    | (shared) "tii_shared inp = Some (Inr tid)"
    | (asked) "tii_shared inp = None" "doHTTPLookup lib inp prin ti = Inr tid"
proof -
  obtain t0 neg hit ti1 where g: "ti_cacheGet (tii_lookup inp) prin ti = ((t0, neg, hit), ti1)"
    by (metis prod.exhaust)
  then have "ti_conf ti1 = ti_conf ti" using ti_get_conf [of "tii_lookup inp" prin ti] by simp
  note conf = ti_conf_fields [OF this]
  show thesis
    using assms g cached shared asked
    by (auto simp: resolveTenant_def ti_get_def conf Let_def split: if_split_asm option.splits)
qed

text \<open>The principal a request speaks for, if its token names one.\<close>

definition ti_principal :: "http_request \<Rightarrow> tenant_injector \<Rightarrow> string option" where
  "ti_principal r ti =
     (case JWTClaims (r_ctx r) of
        None \<Rightarrow> None
      | Some claims \<Rightarrow> if get_str claims (ti_principalClaim ti) = '''' then None
                       else Some (get_str claims (ti_principalClaim ti)))"

lemma ti_handle_state:
  "snd (ti_handle lib inp r w ti) =
     (case ti_principal r ti of None \<Rightarrow> ti | Some prin \<Rightarrow> snd (resolveTenant lib inp prin ti))"
  by (auto simp: ti_handle_def ti_principal_def Let_def split: option.splits prod.splits sum.splits)

lemma ti_handle_Next:
  assumes "ti_handle lib inp r w ti = (Next r' w', ti')"
  obtains prin tid where "ti_principal r ti = Some prin" and "fst (resolveTenant lib inp prin ti) = Inr tid"
    and "ti_allowlist ti' = [] \<or> tid \<in> set (ti_allowlist ti')"
    and "r' = ti_inject ti' tid prin (del_req_header (ti_injectTenantHeader ti) r)" and "w' = w"
    and "ti' = snd (resolveTenant lib inp prin ti)"
  using assms that
  by (auto simp: ti_handle_def ti_principal_def ti_writeErr_def ti_lookup_error_def Let_def
      split: option.splits prod.splits sum.splits if_split_asm lookup_err.splits)

section \<open>Runs\<close>

type_synonym ti_event = "ti_inputs \<times> http_request \<times> writer"

definition ti_run :: "go_lib \<Rightarrow> ti_event list \<Rightarrow> tenant_injector \<Rightarrow> tenant_injector" where
  "ti_run lib evs ti = fold (\<lambda>(inp, r, w) ti. snd (ti_handle lib inp r w ti)) evs ti"

lemma ti_run_snoc [simp]:
  "ti_run lib [] ti = ti"
  "ti_run lib (evs @ [(inp, r, w)]) ti = snd (ti_handle lib inp r w (ti_run lib evs ti))"
  by (simp_all add: ti_run_def)

lemma ti_fold_conf: "ti_conf (fold dir_cache.step ops ti) = ti_conf ti"
proof (induction ops arbitrary: ti)
  case Nil
  then show ?case by simp
next
  case (Cons opr ops)
  then show ?case by (cases opr) (simp_all add: snd_ti_get ti_get_conf ti_put_conf)
qed

lemma ti_handle_conf: "ti_conf (snd (ti_handle lib inp r w ti)) = ti_conf ti"
  by (simp add: ti_handle_state resolveTenant_ops ti_fold_conf split: option.split)

lemma ti_run_conf: "ti_conf (ti_run lib evs ti) = ti_conf ti"
  by (induction evs rule: rev_induct) (auto simp: ti_handle_conf split: prod.splits)

lemmas ti_run_fields = ti_conf_fields [OF ti_run_conf]

lemma ti_run_inv: "ti_inv ti \<Longrightarrow> ti_inv (ti_run lib evs ti)"
proof (induction evs rule: rev_induct)
  case Nil
  then show ?case by simp
next
  case (snoc ev evs)
  obtain inp r w where "ev = (inp, r, w)" by (cases ev)
  then show ?case
    using snoc dir_cache.run_inv by (simp add: ti_handle_state resolveTenant_ops split: option.split)
qed

lemma ti_principal_run [simp]: "ti_principal r (ti_run lib evs ti) = ti_principal r ti"
  by (simp only: ti_principal_def ti_run_fields)

text \<open>The directory told the tenant of a principal to one of the requests, and when that expires.\<close>

definition dir_said :: "go_lib \<Rightarrow> tenant_injector \<Rightarrow> ti_event list \<Rightarrow> string \<Rightarrow> string \<Rightarrow> int \<Rightarrow> bool" where
  "dir_said lib ti evs prin tid t \<longleftrightarrow>
     (\<exists>(i, q, v) \<in> set evs. ti_principal q ti = Some prin \<and> doHTTPLookup lib i prin ti = Inr tid \<and>
        t = tii_store i + ti_cacheTTL ti)"

lemma ti_run_entry:
  assumes "ti_inv ti" and "ti_abs ti = []" and "map_of (ti_abs (ti_run lib evs ti)) k = Some ((tid, False), t)"
  shows "dir_said lib ti evs k tid t"
  using assms(3)
proof (induction evs rule: rev_induct)
  case Nil
  then show ?case using assms(2) by simp
next
  case (snoc ev evs)
  obtain i q v where ev: "ev = (i, q, v)" by (cases ev)
  let ?s = "ti_run lib evs ti"
  show ?case
  proof (cases "ti_principal q ti")
    case None
    with snoc ev show ?thesis by (auto simp: dir_said_def ti_handle_state)
  next
    case (Some prin)
    have "map_of (ti_abs (fold dir_cache.step (ti_ops lib i prin ?s) ?s)) k = Some ((tid, False), t)"
      using snoc.prems Some by (simp add: ev ti_handle_state resolveTenant_ops)
    from dir_cache.run_entry [OF ti_run_inv [OF assms(1)] this]
    consider "map_of (ti_abs ?s) k = Some ((tid, False), t)" | "OpSet t k (tid, False) \<in> set (ti_ops lib i prin ?s)"
      by blast
    then show ?thesis
    proof cases
      case 1
      from snoc.IH [OF 1] show ?thesis by (auto simp: dir_said_def)
    next
      case 2
      obtain e where e: "ti_entry_of i ?s (doHTTPLookup lib i prin ?s) = e" by simp
      have "OpSet t k (tid, False) \<in> set (case e of Some (v, t) \<Rightarrow> [OpSet t prin v] | None \<Rightarrow> [])"
        using 2 by (cases "fst (ti_get (tii_lookup i) prin ?s) = None \<and> tii_shared i = None")
          (simp_all add: ti_ops_def e)
      then have "k = prin \<and> e = Some ((tid, False), t)" by (cases e) auto
      then have "k = prin" and "e = Some ((tid, False), t)" by simp_all
      with e have "ti_entry_of i ?s (doHTTPLookup lib i prin ti) = Some ((tid, False), t)"
        by (simp add: ti_run_fields)
      then have "doHTTPLookup lib i prin ti = Inr tid \<and> t = tii_store i + ti_cacheTTL ti"
        by (cases "doHTTPLookup lib i prin ti" rule: sum.exhaust)
          (auto simp: ti_entry_of_def ti_run_fields split: lookup_err.split_asm)
      then show ?thesis using Some \<open>k = prin\<close> by (auto simp: dir_said_def ev)
    qed
  qed
qed

section \<open>The lookup URL\<close>

lemma byte_of_char_of: "n < 256 \<Longrightarrow> byte_of (char_of n) = n"
  by (simp add: of_char_of)

definition unhex :: "char \<Rightarrow> nat" where
  "unhex c = (let n = byte_of c in if n \<le> 57 then n - 48 else n - 55)"

lemma unhex_upper_hex: "n < 16 \<Longrightarrow> unhex (upper_hex n) = n"
  by (auto simp: unhex_def upper_hex_def byte_of_char_of Let_def)

fun PathUnescape :: "string \<Rightarrow> string" where
  "PathUnescape [] = []"
| "PathUnescape (c # s) =
     (if c = CHR ''%'' then (case s of a # b # t \<Rightarrow> char_of (16 * unhex a + unhex b) # PathUnescape t | _ \<Rightarrow> [])
      else c # PathUnescape s)"

lemma PathUnescape_PathEscape: "PathUnescape (PathEscape s) = s"
proof (induction s)
  case Nil
  show ?case by simp
next
  case (Cons c s)
  have pct: "\<not> path_plain (CHR ''%'')" by (simp add: path_plain_def)
  show ?case
  proof (cases "path_plain c")
    case True
    then have "c \<noteq> CHR ''%''" using pct by auto
    with Cons True show ?thesis by simp
  next
    case False
    have "byte_of c div 16 < 16" using nat_of_char_less_256 [of c] by linarith
    then have "char_of (16 * unhex (upper_hex (byte_of c div 16)) + unhex (upper_hex (byte_of c mod 16))) = c"
      by (simp add: unhex_upper_hex)
    with Cons False show ?thesis by simp
  qed
qed

lemma path_plain_not: "c \<in> set ''/?#%{};, '' \<Longrightarrow> \<not> path_plain c"
  by (auto simp: path_plain_def)

lemma upper_hex_not_sep: "n < 16 \<Longrightarrow> upper_hex n \<notin> set ''/?#%{};, ''"
proof
  assume n: "n < 16" and "upper_hex n \<in> set ''/?#%{};, ''"
  then have "byte_of (upper_hex n) \<in> {47, 63, 35, 37, 123, 125, 59, 44, 32}" by auto
  with n show False by (auto simp: upper_hex_def byte_of_char_of split: if_split_asm)
qed

lemma PathEscape_chars: "c \<in> set (PathEscape s) \<Longrightarrow> c = CHR ''%'' \<or> c \<notin> set ''/?#%{};, ''"
proof (induction s)
  case Nil
  then show ?case by simp
next
  case (Cons d s)
  have "byte_of d div 16 < 16" "byte_of d mod 16 < 16" using nat_of_char_less_256 [of d] by linarith+
  with upper_hex_not_sep have hex: "upper_hex (byte_of d div 16) \<notin> set ''/?#%{};, ''"
    "upper_hex (byte_of d mod 16) \<notin> set ''/?#%{};, ''" by blast+
  from Cons.prems consider "c \<in> set (PathEscape s)" | "c = d" "path_plain d" | "c = CHR ''%''"
    | "c = upper_hex (byte_of d div 16)" | "c = upper_hex (byte_of d mod 16)"
    by (auto split: if_split_asm)
  then show ?case
    using Cons.IH hex path_plain_not by cases blast+
qed

lemma replace_all_none: "count_sub s p = 0 \<Longrightarrow> p \<noteq> [] \<Longrightarrow> replace_all s p q = s"
proof (induction s p q rule: replace_all.induct)
  case (1 s p q)
  show ?case
  proof (cases "s = []")
    case True
    then show ?thesis by (simp add: replace_all.simps)
  next
    case False
    then have "\<not> has_prefix s p" "count_sub (tl s) p = 0"
      using 1(3,4) by (subst (asm) count_sub.simps; simp split: if_split_asm)+
    then have "replace_all (tl s) p q = tl s" using 1 False by simp
    then show ?thesis
      using \<open>\<not> has_prefix s p\<close> 1(4) False by (subst replace_all.simps) simp
  qed
qed

lemma replace_all_once:
  "count_sub s p = 1 \<Longrightarrow> p \<noteq> [] \<Longrightarrow> \<exists>a b. s = a @ p @ b \<and> (\<forall>q. replace_all s p q = a @ q @ b)"
proof (induction s p rule: count_sub.induct)
  case (1 s p)
  have ne: "s \<noteq> []" using 1(3) by (subst (asm) count_sub.simps) (simp split: if_split_asm)
  show ?case
  proof (cases "has_prefix s p")
    case True
    then have "count_sub (drop (length p) s) p = 0"
      using 1(3,4) ne by (subst (asm) count_sub.simps) simp
    then have "replace_all s p q = q @ drop (length p) s" for q
      using True ne 1(4) by (subst replace_all.simps) (simp add: replace_all_none)
    moreover have "s = [] @ p @ drop (length p) s"
      using True by (metis append_Nil append_take_drop_id has_prefix_def)
    ultimately show ?thesis by (metis append_Nil)
  next
    case False
    then have "count_sub (tl s) p = 1"
      using 1(3,4) ne by (subst (asm) count_sub.simps) simp
    with 1 False ne obtain a b where "tl s = a @ p @ b" "\<forall>q. replace_all (tl s) p q = a @ q @ b"
      by blast
    then have all: "replace_all s p q = (hd s # a) @ q @ b" for q
      using ne False 1(4) by (subst replace_all.simps) simp
    have "s = hd s # tl s" using ne by simp
    also have "\<dots> = (hd s # a) @ p @ b" using \<open>tl s = a @ p @ b\<close> by simp
    finally show ?thesis using all by blast
  qed
qed

section \<open>What Init establishes\<close>

lemma ti_lookup_cfg_Inr:
  assumes "ti_lookup_cfg lib raw = Inr (claim, url, method)"
  shows "claim \<noteq> ''''" "count_sub url ''{principal}'' = 1" "method \<in> {''GET'', ''POST''}"
  using assms unfolding ti_lookup_cfg_def Let_def by (auto split: if_split_asm)

lemma ti_timeout_cfg_Inr: "ti_timeout_cfg m = Inr n \<Longrightarrow> 0 < n \<and> n \<le> 30000"
  unfolding ti_timeout_cfg_def Let_def by (auto simp: int_or_def split: if_split_asm)

lemma ti_cache_cfg_Inr:
  assumes "ti_cache_cfg m = Inr (ttl, neg, n)"
  shows "0 < ttl" "0 < n"
  using assms unfolding ti_cache_cfg_def Let_def by (auto split: if_split_asm prod.split_asm)

lemma ti_Init_Inr:
  assumes "ti_Init lib env cfg ti0 = Inr ti"
  shows "GetBool cfg ''enabled''" and "ti_inv ti" and "ti_abs ti = []" and "0 < ti_maxSize ti"
    and "ti_injectTenantHeader ti \<noteq> ''''" and "ti_principalClaim ti \<noteq> ''''"
    and "count_sub (ti_lookupURL ti) ''{principal}'' = 1" and "ti_lookupMethod ti \<in> {''GET'', ''POST''}"
    and "millisecond_ns \<le> ti_timeout ti" and "ti_timeout ti \<le> 30000 * millisecond_ns"
    and "\<exists>s > 0. ti_cacheTTL ti = dur_seconds s"
proof -
  let ?raw = "Raw cfg" and ?lk = "submap (Raw cfg) ''lookup''"
  show en: "GetBool cfg ''enabled''" using assms by (auto simp: ti_Init_def split: if_split_asm)
  obtain p where p: "ti_lookup_cfg lib ?raw = Inr p"
    using assms en unfolding ti_Init_def Let_def by (auto simp: and_then_eq_Inr)
  obtain claim url meth where c: "ti_lookup_cfg lib ?raw = Inr (claim, url, meth)" using p by (cases p) auto
  obtain ms where ms: "ti_timeout_cfg ?lk = Inr ms"
    using assms en c unfolding ti_Init_def Let_def by (auto simp: and_then_eq_Inr)
  obtain bt where bt: "ti_auth lib env (submap ?lk ''auth'') = Inr bt"
    using assms en c ms unfolding ti_Init_def Let_def by (auto simp: and_then_eq_Inr)
  obtain f where f: "ti_response_cfg lib (submap ?lk ''response'') = Inr f"
    using assms en c ms bt unfolding ti_Init_def Let_def by (auto simp: and_then_eq_Inr)
  obtain q where q: "ti_cache_cfg (submap ?lk ''cache'') = Inr q"
    using assms en c ms bt f unfolding ti_Init_def Let_def by (auto simp: and_then_eq_Inr)
  obtain ttl neg n where n: "ti_cache_cfg (submap ?lk ''cache'') = Inr (ttl, neg, n)" using q by (cases q) auto
  let ?h = "mapStr (submap ?raw ''inject'') ''tenant_header''"
  have h: "?h \<noteq> ''''"
    using assms en c ms bt f n unfolding ti_Init_def Let_def by (auto split: if_split_asm)
  have ti: "ti = ti0\<lparr>ti_principalClaim := claim, ti_lookupURL := url, ti_lookupMethod := meth,
                 ti_lookupHeaders := mapStrMap ?lk ''headers'', ti_bearerToken := bt,
                 ti_tenantIDField := f, ti_injectTenantHeader := ?h,
                 ti_injectPrincipalHdr := mapStr (submap ?raw ''inject'') ''principal_header'',
                 ti_allowlist := GetStringSlice cfg ''allowlist'', ti_cacheTTL := dur_seconds ttl,
                 ti_negativeCacheTTL := dur_seconds neg, ti_failures := ti_fail_cfg (submap ?raw ''on_failure''),
                 ti_timeout := dur_millis ms, ti_maxSize := n, ti_lru := lru_new\<rparr>"
    using assms en c ms bt f n h unfolding ti_Init_def Let_def by (simp add: ti_configured_def)
  note lk = ti_lookup_cfg_Inr [OF c] and t = ti_timeout_cfg_Inr [OF ms] and ca = ti_cache_cfg_Inr [OF n]
  have "dur_millis ms = ms * millisecond_ns" using t by (intro dur_millis_exact) linarith
  then show "ti_inv ti" "ti_abs ti = []" "0 < ti_maxSize ti" "ti_injectTenantHeader ti \<noteq> ''''"
    "ti_principalClaim ti \<noteq> ''''" "count_sub (ti_lookupURL ti) ''{principal}'' = 1"
    "ti_lookupMethod ti \<in> {''GET'', ''POST''}" "millisecond_ns \<le> ti_timeout ti"
    "ti_timeout ti \<le> 30000 * millisecond_ns" "\<exists>s > 0. ti_cacheTTL ti = dur_seconds s"
    using h lk t ca by (auto simp: ti ti_inv_def ti_abs_def lru_inv_new lru_abs_new)
qed

section \<open>Properties\<close>

lemma ti_passed:
  assumes "ti_Init lib env cfg ti0 = Inr ti"
    and "ti_handle lib inp r w (ti_run lib evs ti) = (Next r' w', ti')"
  shows "\<exists>prin tid. ti_principal r ti = Some prin \<and>
    (tii_shared inp = Some (Inr tid) \<or> doHTTPLookup lib inp prin ti = Inr tid \<or>
     (\<exists>t. dir_said lib ti evs prin tid t \<and> tii_lookup inp \<le> t)) \<and>
    (ti_allowlist ti = [] \<or> tid \<in> set (ti_allowlist ti)) \<and>
    (canon (ti_injectPrincipalHdr ti) \<noteq> canon (ti_injectTenantHeader ti) \<longrightarrow>
       req_header r' (ti_injectTenantHeader ti) = tid) \<and> r_ctx r' = r_ctx r \<and> w' = w"
proof -
  note init = ti_Init_Inr [OF assms(1)]
  let ?s = "ti_run lib evs ti"
  from ti_handle_Next [OF assms(2)] obtain prin tid where
    prin: "ti_principal r ?s = Some prin" and res: "fst (resolveTenant lib inp prin ?s) = Inr tid"
    and allow: "ti_allowlist ti' = [] \<or> tid \<in> set (ti_allowlist ti')"
    and r': "r' = ti_inject ti' tid prin (del_req_header (ti_injectTenantHeader ?s) r)" and w': "w' = w" .
  have "ti_conf ti' = ti_conf ti"
    using ti_handle_conf [of lib inp r w ?s] ti_run_conf [of lib evs ti] assms(2) by simp
  note conf = ti_conf_fields [OF this]
  have "tii_shared inp = Some (Inr tid) \<or> doHTTPLookup lib inp prin ti = Inr tid \<or>
      (\<exists>t. dir_said lib ti evs prin tid t \<and> tii_lookup inp \<le> t)"
    using res
  proof (cases rule: resolveTenant_result)
    case cached
    then obtain c' where "ti_get (tii_lookup inp) prin ?s = (Some (tid, False), c')" by (metis prod.collapse)
    from dir_cache.hit_is_live [OF ti_run_inv [OF init(2)] this] obtain t where
      "map_of (ti_abs ?s) prin = Some ((tid, False), t)" "tii_lookup inp \<le> t" .
    with ti_run_entry [OF init(2,3)] show ?thesis by blast
  next
    case shared
    then show ?thesis by simp
  next
    case asked
    then show ?thesis by (simp add: ti_run_fields)
  qed
  then show ?thesis
    using prin allow w' by (auto simp: r' conf ti_inject_def Let_def header_simps)
qed


text \<open>No smuggling. Whatever values the client sends in the tenant header, the plugin does the same: the
  same request goes on, or the same answer is given, and the same state is left.\<close>

lemma tenant_header_ignored:
  "ti_handle lib inp (r\<lparr>r_header := (r_header r)(canon (ti_injectTenantHeader ti) := vs)\<rparr>) w ti =
   ti_handle lib inp r w ti"
proof -
  have "del_req_header (ti_injectTenantHeader ti) (r\<lparr>r_header := (r_header r)(canon (ti_injectTenantHeader ti) := vs)\<rparr>) =
      del_req_header (ti_injectTenantHeader ti) r"
    by (simp add: del_req_header_def hdr_del_def)
  then show ?thesis by (simp add: ti_handle_def)
qed

text \<open>The tenant cache never outgrows \<open>max_entries\<close>, holds one entry per principal, and its list
  and map agree, after every sequence of requests.\<close>

lemma tenant_cache_bounded:
  assumes "ti_Init lib env cfg ti0 = Inr ti"
  shows "ti_inv (ti_run lib evs ti) \<and> al_distinct (ti_abs (ti_run lib evs ti)) \<and>
    int (length (ti_abs (ti_run lib evs ti))) \<le> ti_maxSize ti"
proof -
  note init = ti_Init_Inr [OF assms]
  have "int (length (ti_abs (ti_run lib evs ti))) \<le> ti_maxSize ti"
  proof (induction evs rule: rev_induct)
    case Nil
    then show ?case using init(3,4) by simp
  next
    case (snoc ev evs)
    obtain inp r w where ev: "ev = (inp, r, w)" by (cases ev)
    have "int (length (ti_abs (fold dir_cache.step ops (ti_run lib evs ti)))) \<le> ti_maxSize (ti_run lib evs ti)" for ops
      by (rule dir_cache.run_bounded [OF ti_run_inv [OF init(2)]]) (use snoc init(4) in \<open>simp_all add: ti_run_fields\<close>)
    then show ?case
      using snoc by (simp add: ev ti_handle_state resolveTenant_ops ti_run_fields split: option.split)
  qed
  then show ?thesis
    using ti_run_inv [OF init(2), of lib evs] by (simp add: ti_inv_def ti_abs_def lru_abs_distinct)
qed

text \<open>A directory that fails is reported and never remembered. When the lookup times out, or fails in
  another way, the request gets the configured status with the directory named as the dependency,
  and the cache holds no entry for the principal, so that the next request asks again.\<close>

lemma tenant_lookup_failure_not_cached:
  assumes "ti_inv ti" and "ti_principal r ti = Some prin" and "fst (ti_get (tii_lookup inp) prin ti) = None"
    and "tii_shared inp = None" and "doHTTPLookup lib inp prin ti = Inl err" and "err \<noteq> PrincipalNotFound"
  shows "\<exists>code msg. fst (ti_handle lib inp r w ti) =
      Respond (WriteError w
        (if err = LookupTimeout then tif_lookupTimeout (ti_failures ti) else tif_lookupNetworkError (ti_failures ti))
        (ti_error (del_req_header (ti_injectTenantHeader ti) r) code msg ''iam-lookup'')) \<and>
    map_of (ti_abs (snd (ti_handle lib inp r w ti))) prin = None"
proof -
  obtain tid neg hit ti1 where g: "ti_cacheGet (tii_lookup inp) prin ti = ((tid, neg, hit), ti1)"
    by (metis prod.exhaust)
  then have "ti_conf ti1 = ti_conf ti" using ti_get_conf [of "tii_lookup inp" prin ti] by simp
  note conf = ti_conf_fields [OF this]
  have "\<not> hit" using g assms(3) by (auto simp: ti_get_def split: if_split_asm)
  then have res: "resolveTenant lib inp prin ti = (Inl err, ti1)"
    using g assms(4-6) by (cases err) (simp_all add: resolveTenant_def conf Let_def)
  obtain claims where cl: "JWTClaims (r_ctx r) = Some claims" "get_str claims (ti_principalClaim ti) = prin" "prin \<noteq> ''''"
    using assms(2) by (auto simp: ti_principal_def split: option.splits if_split_asm)
  have h: "ti_handle lib inp r w ti = (ti_lookup_error ti1 w (del_req_header (ti_injectTenantHeader ti) r) err, ti1)"
    using cl res by (simp add: ti_handle_def)
  have "spec_get (tii_lookup inp) prin (ti_abs ti) = (None, ti_abs ti1)"
    using ti_get_refines(1) [OF assms(1), of "tii_lookup inp" prin] assms(3) g snd_ti_get [of "tii_lookup inp" prin ti]
    by simp
  then have "map_of (ti_abs ti1) prin = None" by (rule spec_get_None)
  then show ?thesis
    using assms(6) by (cases err) (auto simp: h ti_lookup_error_def ti_writeErr_def conf)
qed


text \<open>The escape is that of a path segment, and Init also accepts the placeholder in the query. There the
  principal's name can carry parameters of its own: a name of letters, an ampersand and an equals sign
  goes into the URL as it is.\<close>

lemma query_placeholder_injection:
  "count_sub ''http://dir/t?principal={principal}'' ''{principal}'' = 1 \<and>
   replace_all ''http://dir/t?principal={principal}'' ''{principal}'' (PathEscape ''bob&tenant=acme'') =
     ''http://dir/t?principal=bob&tenant=acme'' \<and>
   PathEscape ''bob&tenant=acme'' = ''bob&tenant=acme''"
  by code_simp

text \<open>What Init accepts: the plugin enabled, a claim and a header to work with, one placeholder in the lookup
  URL, GET or POST, a timeout between 1 and 30000 milliseconds with no overflow, and a cache with room.\<close>

lemma tenant_init_settings:
  assumes "ti_Init lib env cfg ti0 = Inr ti"
  shows "GetBool cfg ''enabled'' \<and> ti_principalClaim ti \<noteq> '''' \<and> ti_injectTenantHeader ti \<noteq> '''' \<and>
    count_sub (ti_lookupURL ti) ''{principal}'' = 1 \<and> ti_lookupMethod ti \<in> {''GET'', ''POST''} \<and>
    millisecond_ns \<le> ti_timeout ti \<and> ti_timeout ti \<le> 30000 * millisecond_ns \<and> 0 < ti_maxSize ti \<and>
    ti_inv ti \<and> ti_abs ti = []"
  using ti_Init_Inr [OF assms] by blast

end
