(* ===== verification/TenantExamples.thy ===== *)
theory TenantExamples
  imports TenantSafety
begin

text \<open>A concrete tenant injector, on which its properties are applied.\<close>

definition tex_go :: go_lib where
  "tex_go = \<lparr>url_parse = (\<lambda>u. Some (''http'', ''h'')), url_request_uri = (\<lambda>u. u \<noteq> ''''),
     fmt_quote = (\<lambda>s. CHR 0x22 # s @ [CHR 0x22]),
     json_object = (\<lambda>s. if s = ''a'' then Some [(''tenant_id'', AStr ''acme'')] else None)\<rparr>"

definition tex_env :: os_env where
  "tex_env = \<lparr>os_getenv = (\<lambda>_. ''''), os_stat = (\<lambda>_. None)\<rparr>"

definition tex_cfg :: map_config where
  "tex_cfg = NewMapConfig (Some
     [(''enabled'', ABool True), (''principal'', AMap [(''claim'', AStr ''sub'')]),
      (''lookup'', AMap [(''url'', AStr ''http://d/{principal}''), (''cache'', AMap [(''max_entries'', AInt 2)])]),
      (''inject'', AMap [(''tenant_header'', AStr ''X-Tenant-ID'')])])"

definition tex_ti :: tenant_injector where
  "tex_ti = \<lparr>ti_principalClaim = ''sub'', ti_lookupURL = ''http://d/{principal}'', ti_lookupMethod = ''GET'',
     ti_lookupHeaders = [], ti_bearerToken = '''', ti_tenantIDField = ''tenant_id'',
     ti_injectTenantHeader = ''X-Tenant-ID'', ti_injectPrincipalHdr = '''', ti_allowlist = [],
     ti_cacheTTL = 300000000000, ti_negativeCacheTTL = 30000000000,
     ti_failures = \<lparr>tif_lookupNetworkError = 503, tif_lookupTimeout = 503, tif_principalNotFound = 403, tif_claimMissing = 401\<rparr>,
     ti_timeout = 500000000, ti_maxSize = 2, ti_lru = lru_new\<rparr>"

lemma tex_count: "count_sub ''http://d/{principal}'' ''{principal}'' = 1"
  by code_simp

lemma tex_lookup_cfg: "ti_lookup_cfg tex_go (Raw tex_cfg) = Inr (''sub'', ''http://d/{principal}'', ''GET'')"
  by code_simp

lemma tex_parts:
  "ti_timeout_cfg (submap (Raw tex_cfg) ''lookup'') = Inr 500"
  "ti_auth tex_go tex_env (submap (submap (Raw tex_cfg) ''lookup'') ''auth'') = Inr ''''"
  "ti_response_cfg tex_go (submap (submap (Raw tex_cfg) ''lookup'') ''response'') = Inr ''tenant_id''"
  "ti_cache_cfg (submap (submap (Raw tex_cfg) ''lookup'') ''cache'') = Inr (300, 30, 2)"
  "mapStr (submap (Raw tex_cfg) ''inject'') ''tenant_header'' = ''X-Tenant-ID''"
  "mapStr (submap (Raw tex_cfg) ''inject'') ''principal_header'' = ''''"
  "mapStrMap (submap (Raw tex_cfg) ''lookup'') ''headers'' = []"
  "GetStringSlice tex_cfg ''allowlist'' = []" "GetBool tex_cfg ''enabled''"
  "ti_fail_cfg (submap (Raw tex_cfg) ''on_failure'') = \<lparr>tif_lookupNetworkError = 503, tif_lookupTimeout = 503, tif_principalNotFound = 403, tif_claimMissing = 401\<rparr>"
  by code_simp+

lemma tex_init: "ti_Init tex_go tex_env tex_cfg tex_ti = Inr tex_ti"
  unfolding ti_Init_def Let_def tex_parts tex_lookup_cfg and_then_simps prod.case
  by (simp add: tex_parts tex_ti_def ti_configured_def dur_seconds_exact dur_millis_exact)

definition tex_request :: http_request where
  "tex_request = \<lparr>r_method = ''GET'', r_scheme = '''', r_urlhost = '''', r_host = ''gw'', r_path = ''/a'',
     r_query = '''', r_header = no_header, r_body = '''', r_ctx = WithJWTClaims Background [(''sub'', AStr ''u1'')]\<rparr>"

definition tex_inputs :: "dir_answer \<Rightarrow> ti_inputs" where
  "tex_inputs ans = \<lparr>tii_lookup = 5, tii_shared = None, tii_answer = (\<lambda>_. ans), tii_store = 6\<rparr>"

lemma tex_claims [simp]: "JWTClaims (r_ctx tex_request) = Some [(''sub'', AStr ''u1'')]"
  by (simp add: tex_request_def ctx_simps)

lemma tex_principal: "ti_principal tex_request tex_ti = Some ''u1''"
  by (simp add: ti_principal_def tex_ti_def get_str_def)

lemma tex_miss: "ti_cacheGet now k tex_ti = (('''', False, False), tex_ti)"
  by (simp add: ti_cacheGet_def tex_ti_def lru_new_def)

lemma tex_asked: "doHTTPLookup tex_go (tex_inputs (DirStatus 200 (Some ''a''))) p tex_ti = Inr ''acme''"
  by (simp add: doHTTPLookup_def tex_inputs_def tex_go_def dir_tenant_def tex_ti_def get_str_def Let_def)

lemma tex_shared [simp]: "tii_shared (tex_inputs ans) = None"
  by (simp add: tex_inputs_def)

lemma tex_pass:
  "\<exists>r' ti'. ti_handle tex_go (tex_inputs (DirStatus 200 (Some ''a''))) tex_request (Conn new_conn)
     (ti_run tex_go [] tex_ti) = (Next r' (Conn new_conn), ti')"
proof -
  let ?inp = "tex_inputs (DirStatus 200 (Some ''a''))"
  have "resolveTenant tex_go ?inp ''u1'' tex_ti =
      (Inr ''acme'', ti_cacheSet (tii_store ?inp) ''u1'' ''acme'' False (ti_cacheTTL tex_ti) tex_ti)"
    by (simp add: resolveTenant_def tex_miss tex_asked Let_def)
  moreover have "ti_allowlist (ti_cacheSet n k v b t tex_ti) = []" for n k v b t
    using ti_conf_fields(5) [OF ti_put_conf, of "n + t" k "(v, b)" tex_ti]
    by (simp add: ti_cacheSet_put) (simp add: tex_ti_def)
  ultimately show ?thesis
    by (simp add: ti_handle_def Let_def get_str_def) (simp add: tex_ti_def get_str_def)
qed


lemma tenant_cache_bounded_witness:
  "int (length (ti_abs (ti_run tex_go [(tex_inputs DirErr, tex_request, Conn new_conn)] tex_ti))) \<le> 2"
  using tenant_cache_bounded [OF tex_init] by (simp add: tex_ti_def)

lemma tenant_lookup_failure_not_cached_witness:
  "map_of (ti_abs (snd (ti_handle tex_go (tex_inputs DirTimeout) tex_request (Conn new_conn) tex_ti))) ''u1'' = None"
proof -
  have "doHTTPLookup tex_go (tex_inputs DirTimeout) ''u1'' tex_ti = Inl LookupTimeout"
    by (simp add: doHTTPLookup_def tex_inputs_def tex_go_def dir_tenant_def Let_def)
  moreover have "fst (ti_get (tii_lookup (tex_inputs DirTimeout)) ''u1'' tex_ti) = None"
    by (simp add: ti_get_def tex_miss)
  moreover have "tii_shared (tex_inputs DirTimeout) = None" by (simp add: tex_inputs_def)
  ultimately show ?thesis
    using tenant_lookup_failure_not_cached [OF ti_Init_Inr(2) [OF tex_init] tex_principal] by blast
qed


lemma tenant_init_settings_witness: "0 < ti_maxSize tex_ti"
  using tenant_init_settings [OF tex_init] by blast

end
