(* ===== verification/Config.thy ===== *)
theory Config
  imports GoStrings
begin

text \<open>
  \<open>internal/config/config.go\<close>: the settings of the gateway, read from the environment. The
  environment is a function that gives the empty string for a variable that is not set, as
  \<open>os.Getenv\<close> does.
\<close>

section \<open>Settings\<close>

record gateway_config =
  Port :: string
  RoutesFile :: string
  AuditLog :: string
  PluginsFile :: string
  JWTSecret :: string
  JWTJWKSURL :: string
  ShutdownTimeoutS :: int
  LLMMaxSSEPerTenant :: int

definition envOr :: "(string \<Rightarrow> string) \<Rightarrow> string \<Rightarrow> string \<Rightarrow> string" where
  "envOr getenv key fallback = (if getenv key \<noteq> '''' then getenv key else fallback)"

definition envInt :: "(string \<Rightarrow> string) \<Rightarrow> string \<Rightarrow> int \<Rightarrow> int" where
  "envInt getenv key fallback =
     (if getenv key \<noteq> '''' then
        (case atoi (getenv key) of
           Some n \<Rightarrow> if n > 0 then n else fallback
         | None \<Rightarrow> fallback)
      else fallback)"

definition config_Load :: "(string \<Rightarrow> string) \<Rightarrow> gateway_config" where
  "config_Load getenv =
     \<lparr>Port = envOr getenv ''GATEWAY_PORT'' ''8120'',
      RoutesFile = envOr getenv ''GATEWAY_ROUTES_FILE'' ''routes.yaml'',
      AuditLog = envOr getenv ''GATEWAY_AUDIT_LOG'' ''stdout'',
      PluginsFile = getenv ''GATEWAY_PLUGINS_FILE'',
      JWTSecret = getenv ''GATEWAY_JWT_SECRET'',
      JWTJWKSURL = getenv ''GATEWAY_JWT_JWKS_URL'',
      ShutdownTimeoutS = envInt getenv ''GATEWAY_SHUTDOWN_TIMEOUT_S'' 30,
      LLMMaxSSEPerTenant = envInt getenv ''GATEWAY_LLM_MAX_SSE_PER_TENANT'' 10\<rparr>"

section \<open>Bounds\<close>

lemma atoi_in_int64: "atoi s = Some n \<Longrightarrow> in_int64 n"
  by (auto simp: atoi_def Let_def split: if_split_asm prod.split_asm list.split_asm)

lemma envOr_nonempty: "fallback \<noteq> '''' \<Longrightarrow> envOr getenv key fallback \<noteq> ''''"
  by (simp add: envOr_def)

lemma envInt_positive: "0 < fallback \<Longrightarrow> in_int64 fallback \<Longrightarrow>
    0 < envInt getenv key fallback \<and> in_int64 (envInt getenv key fallback)"
  by (auto simp: envInt_def atoi_in_int64 split: option.split)

lemma envInt_given: "getenv key = itoa n \<Longrightarrow> 0 < n \<Longrightarrow> in_int64 n \<Longrightarrow> envInt getenv key fallback = n"
  using atoi_itoa [of n] by (simp add: envInt_def itoa_def split: if_split_asm)

lemma envInt_rejected: "atoi (getenv key) = None \<or> (\<exists>n \<le> 0. atoi (getenv key) = Some n) \<Longrightarrow>
    envInt getenv key fallback = fallback"
  by (auto simp: envInt_def)

text \<open>C26: whatever the environment holds, the limits that were read are positive 64-bit integers (a
  missing, malformed, negative or out of range value gives the default), the port, the route file and
  the audit sink are not empty, and a limit that the environment gives in decimal is the one taken.\<close>

theorem config_load_bounds:
  "0 < ShutdownTimeoutS (config_Load getenv) \<and> in_int64 (ShutdownTimeoutS (config_Load getenv)) \<and>
   0 < LLMMaxSSEPerTenant (config_Load getenv) \<and> in_int64 (LLMMaxSSEPerTenant (config_Load getenv)) \<and>
   Port (config_Load getenv) \<noteq> '''' \<and> RoutesFile (config_Load getenv) \<noteq> '''' \<and>
   AuditLog (config_Load getenv) \<noteq> '''' \<and>
   (\<forall>n. 0 < n \<and> in_int64 n \<and> getenv ''GATEWAY_LLM_MAX_SSE_PER_TENANT'' = itoa n \<longrightarrow>
      LLMMaxSSEPerTenant (config_Load getenv) = n)"
proof -
  have "in_int64 30" "in_int64 10" by (simp_all add: in_int64_def int64_min_def int64_max_def)
  then show ?thesis
    using envInt_positive [of 30] envInt_positive [of 10]
    by (simp add: config_Load_def envOr_def envInt_given)
qed

lemma config_load_bounds_witness:
  "LLMMaxSSEPerTenant (config_Load (\<lambda>k. if k = ''GATEWAY_LLM_MAX_SSE_PER_TENANT'' then ''25'' else '''')) = 25"
proof -
  have "itoa 25 = ''25''" by code_simp
  moreover have "in_int64 25" by (simp add: in_int64_def int64_min_def int64_max_def)
  ultimately show ?thesis
    using config_load_bounds [of "\<lambda>k. if k = ''GATEWAY_LLM_MAX_SSE_PER_TENANT'' then ''25'' else ''''"] by simp
qed

end
