(* ===== verification/Cors.thy ===== *)
theory Cors
  imports Http
begin

text \<open>
  \<open>internal/plugins/cors/plugin.go\<close>: the CORS plugin. The set of allowed origins is a list that
  is searched and never read in order; \<open>cors_handle\<close> is the decision on one request.
\<close>

section \<open>State\<close>

record cors_plugin =
  cors_allowedOrigins :: "string list"
  cors_allowMethods :: string
  cors_allowHeaders :: string
  cors_maxAge :: string

definition defaultAllowMethods :: string where
  "defaultAllowMethods = ''GET, POST, PUT, PATCH, DELETE, OPTIONS''"

definition defaultAllowHeaders :: string where
  "defaultAllowHeaders = ''Content-Type, Authorization, X-Request-Id, X-Correlation-Id''"

definition defaultMaxAge :: int where
  "defaultMaxAge = 86400"

definition cors_zero :: cors_plugin where
  "cors_zero = \<lparr>cors_allowedOrigins = [], cors_allowMethods = '''', cors_allowHeaders = '''', cors_maxAge = ''''\<rparr>"

definition cors_Init :: "map_config \<Rightarrow> cors_plugin \<Rightarrow> string + cors_plugin" where
  "cors_Init cfg c =
     (let origins = GetStringSlice cfg ''allowed_origins'';
          methods = GetString cfg ''allow_methods'';
          headers = GetString cfg ''allow_headers'';
          maxAge = GetInt cfg ''max_age'';
          maxAge = (if maxAge \<le> 0 then defaultMaxAge else maxAge)
      in Inr (c\<lparr>cors_allowedOrigins := origins,
           cors_allowMethods := (if methods = '''' then defaultAllowMethods else methods),
           cors_allowHeaders := (if headers = '''' then defaultAllowHeaders else headers),
           cors_maxAge := itoa maxAge\<rparr>))"

section \<open>Handler\<close>

definition cors_preflight :: "cors_plugin \<Rightarrow> string \<Rightarrow> bool \<Rightarrow> writer \<Rightarrow> writer" where
  "cors_preflight c origin matched w =
     WriteHeader 200
       (if matched then
          set_header ''Access-Control-Max-Age'' (cors_maxAge c)
            (set_header ''Access-Control-Allow-Headers'' (cors_allowHeaders c)
               (set_header ''Access-Control-Allow-Methods'' (cors_allowMethods c)
                  (set_header ''Access-Control-Allow-Origin'' origin w)))
        else w)"

definition cors_handle :: "cors_plugin decision" where
  "cors_handle r w c =
     (if cors_allowedOrigins c = [] then (Next r w, c)
      else
        let origin = req_header r ''Origin'' in
        if origin = '''' then (Next r w, c)
        else
          let matched = origin \<in> set (cors_allowedOrigins c) in
          if r_method r = ''OPTIONS'' then (Respond (cors_preflight c origin matched w), c)
          else (Next r (if matched then set_header ''Access-Control-Allow-Origin'' origin w else w), c))"

interpretation cors_mw: middleware "middleware_of get put cors_handle" for get put
  by (rule middleware_middleware_of)

section \<open>Properties\<close>

lemma w_header_set_header [header_simps]: "w_header (set_header k v w) = hdr_set (w_header w) k v"
  by (simp add: w_header_def set_header_def writer_simps)

lemma w_conn_set_header [writer_simps]:
  "w_conn (set_header k v w) = (w_conn w)\<lparr>c_header := hdr_set (c_header (w_conn w)) k v\<rparr>"
  by (simp add: set_header_def writer_simps)

lemma conn_write_header_first:
  "c_status c = None \<Longrightarrow> \<not> c_aborted c \<Longrightarrow> 200 \<le> code \<Longrightarrow> code \<le> 999 \<Longrightarrow>
     conn_write_header code c = c\<lparr>c_status := Some code, c_sent := c_header c\<rparr>"
  by (simp add: conn_write_header_def)

lemma cors_Init_Inr:
  assumes "cors_Init cfg c0 = Inr c"
  shows "cors_allowedOrigins c = GetStringSlice cfg ''allowed_origins''"
    and "cors_allowMethods c \<noteq> ''''" and "cors_allowHeaders c \<noteq> ''''"
    and "\<exists>n > 0. cors_maxAge c = itoa n"
proof -
  note c = assms [unfolded cors_Init_def Let_def, simplified, symmetric]
  show "cors_allowedOrigins c = GetStringSlice cfg ''allowed_origins''" using c by simp
  show "cors_allowMethods c \<noteq> ''''" using c by (simp add: defaultAllowMethods_def)
  show "cors_allowHeaders c \<noteq> ''''" using c by (simp add: defaultAllowHeaders_def)
  let ?n = "if GetInt cfg ''max_age'' \<le> 0 then defaultMaxAge else GetInt cfg ''max_age''"
  have "cors_maxAge c = itoa ?n" using c by simp
  moreover have "0 < ?n" by (simp add: defaultMaxAge_def)
  ultimately show "\<exists>n > 0. cors_maxAge c = itoa n" by blast
qed

text \<open>What a preflight answer sends.\<close>

lemma cors_preflight_sent:
  assumes "c_status (w_conn w) = None" and "\<not> aborted w"
  shows "w_status (cors_preflight c origin matched w) = Some 200"
    and "hdr_get (w_sent (cors_preflight c origin matched w)) ''Access-Control-Allow-Origin'' =
           (if matched then origin else hdr_get (w_header w) ''Access-Control-Allow-Origin'')"
proof -
  have ne: "canon ''Access-Control-Allow-Origin'' \<noteq> canon ''Access-Control-Allow-Methods''"
    "canon ''Access-Control-Allow-Origin'' \<noteq> canon ''Access-Control-Allow-Headers''"
    "canon ''Access-Control-Allow-Origin'' \<noteq> canon ''Access-Control-Max-Age''"
    by code_simp+
  show "w_status (cors_preflight c origin matched w) = Some 200"
    using assms by (simp add: cors_preflight_def w_status_def aborted_def writer_simps conn_write_header_first)
  show "hdr_get (w_sent (cors_preflight c origin matched w)) ''Access-Control-Allow-Origin'' =
      (if matched then origin else hdr_get (w_header w) ''Access-Control-Allow-Origin'')"
    using assms ne
    by (simp add: cors_preflight_def w_sent_def w_header_def aborted_def writer_simps conn_write_header_first
        header_simps)
qed

text \<open>C25: the plugin grants an origin exactly when the configuration lists it. A preflight is answered with
  200 and never reaches the next handler; its answer carries the origin only when it is listed. Any other
  cross-origin request goes on unchanged with the grant in the response's headers when the origin is
  listed and no change to them otherwise; so does, without a grant, a request without an origin and every
  request when no origin is configured.\<close>

theorem cors_grants_listed_origins:
  fixes r :: http_request
  assumes "cors_Init cfg c0 = Inr c" and "w_status w = None" and "\<not> aborted w"
    and "hdr_get (w_header w) ''Access-Control-Allow-Origin'' = ''''"
  defines "origin \<equiv> req_header r ''Origin''" and "origins \<equiv> GetStringSlice cfg ''allowed_origins''"
  shows "if origins \<noteq> [] \<and> origin \<noteq> '''' \<and> r_method r = ''OPTIONS'' then
      \<exists>w'. cors_handle r w c = (Respond w', c) \<and> w_status w' = Some 200 \<and>
        hdr_get (w_sent w') ''Access-Control-Allow-Origin'' = (if origin \<in> set origins then origin else '''')
    else
      \<exists>w'. cors_handle r w c = (Next r w', c) \<and>
        (if origin \<noteq> '''' \<and> origin \<in> set origins
         then w_header w' = hdr_set (w_header w) ''Access-Control-Allow-Origin'' origin else w' = w)"
proof -
  have o: "cors_allowedOrigins c = origins" using cors_Init_Inr(1) [OF assms(1)] by (simp add: origins_def)
  show ?thesis
    using cors_preflight_sent [OF assms(2) [unfolded w_status_def] assms(3), of c origin "origin \<in> set origins"] assms(4)
    by (auto simp: cors_handle_def Let_def o origin_def header_simps)
qed

definition ex_cors_cfg :: map_config where
  "ex_cors_cfg = NewMapConfig (Some [(''allowed_origins'', AList [AStr ''https://a'']), (''max_age'', AInt 60)])"

definition ex_cors_request :: http_request where
  "ex_cors_request = \<lparr>r_method = ''OPTIONS'', r_scheme = '''', r_urlhost = '''', r_host = ''gw'', r_path = ''/a'',
     r_query = '''', r_header = hdr_set no_header ''Origin'' ''https://a'', r_body = '''', r_ctx = Background\<rparr>"

lemma cors_grants_listed_origins_witness:
  "\<exists>c w'. cors_Init ex_cors_cfg cors_zero = Inr c \<and> cors_handle ex_cors_request (Conn new_conn) c = (Respond w', c) \<and>
     hdr_get (w_sent w') ''Access-Control-Allow-Origin'' = ''https://a''"
proof -
  obtain c where c: "cors_Init ex_cors_cfg cors_zero = Inr c" by (auto simp: cors_Init_def Let_def)
  have o: "GetStringSlice ex_cors_cfg ''allowed_origins'' = [''https://a'']" by code_simp
  have "req_header ex_cors_request ''Origin'' = ''https://a''" and "r_method ex_cors_request = ''OPTIONS''"
    by (simp_all add: ex_cors_request_def req_header_def header_simps)
  moreover have "w_status (Conn new_conn) = None" "\<not> aborted (Conn new_conn)"
    "hdr_get (w_header (Conn new_conn)) ''Access-Control-Allow-Origin'' = ''''"
    by (simp_all add: w_status_def aborted_def w_header_def new_conn_def header_simps)
  ultimately have "\<exists>w'. cors_handle ex_cors_request (Conn new_conn) c = (Respond w', c) \<and> w_status w' = Some 200 \<and>
      hdr_get (w_sent w') ''Access-Control-Allow-Origin'' = ''https://a''"
    using cors_grants_listed_origins [OF c, of "Conn new_conn" ex_cors_request] by (simp add: o)
  with c show ?thesis by blast
qed

end
