(* ===== verification/StubPlugins.thy ===== *)
theory StubPlugins
  imports Http
begin

text \<open>
  \<open>internal/plugins/promptsanitize\<close> and \<open>internal/plugins/otelaudit\<close>: two plugins whose
  handlers only warn, once. \<open>sync.Once\<close> is the flag whether the warning was logged; the log line
  itself is not modelled. The tracer's span is a no-op that returns the context it was given.
\<close>

section \<open>prompt-sanitize\<close>

record prompt_sanitize =
  ps_enabled :: bool
  ps_warned :: bool

definition ps_zero :: prompt_sanitize where
  "ps_zero = \<lparr>ps_enabled = False, ps_warned = False\<rparr>"

definition ps_Init :: "map_config \<Rightarrow> prompt_sanitize \<Rightarrow> string + prompt_sanitize" where
  "ps_Init cfg p = Inr (p\<lparr>ps_enabled := GetBool cfg ''enabled''\<rparr>)"

definition ps_handle :: "prompt_sanitize decision" where
  "ps_handle r w p = (Next r w, if ps_enabled p then p\<lparr>ps_warned := True\<rparr> else p)"

section \<open>otel-audit\<close>

record otel_audit =
  oa_enabled :: bool
  oa_endpoint :: string
  oa_warned :: bool

definition oa_zero :: otel_audit where
  "oa_zero = \<lparr>oa_enabled = False, oa_endpoint = '''', oa_warned = False\<rparr>"

definition oa_Init :: "go_lib \<Rightarrow> map_config \<Rightarrow> otel_audit \<Rightarrow> string + otel_audit" where
  "oa_Init lib cfg a =
     (let endpoint = GetString cfg ''endpoint'' in
      if endpoint \<noteq> '''' \<and>
         (case url_parse lib endpoint of None \<Rightarrow> True | Some (scheme, host) \<Rightarrow> scheme = '''' \<or> host = '''')
      then Inl (''otel-audit: endpoint '' @ fmt_quote lib endpoint @
             '' must be a valid absolute URL (e.g. http://otel-collector:4317)'')
      else Inr (a\<lparr>oa_enabled := GetBool cfg ''enabled'', oa_endpoint := endpoint\<rparr>))"

definition startSpan :: "ctx \<Rightarrow> ctx" where
  "startSpan c = c"

definition oa_handle :: "otel_audit decision" where
  "oa_handle r w a =
     (Next (with_context r (startSpan (r_ctx r))) w,
      if oa_enabled a \<and> oa_endpoint a = '''' then a\<lparr>oa_warned := True\<rparr> else a)"

interpretation ps_mw: middleware "middleware_of get put ps_handle" for get put
  by (rule middleware_middleware_of)

interpretation oa_mw: middleware "middleware_of get put oa_handle" for get put
  by (rule middleware_middleware_of)

section \<open>Transparency\<close>

lemma with_own_context [simp]: "with_context r (r_ctx r) = r"
  by (simp add: with_context_def)

text \<open>On a state that only the plugin reads, either handler is the next one.\<close>

lemma ps_transparent: "(\<And>p. put p s = s) \<Longrightarrow> middleware_of get put ps_handle h r w s = h r w s"
  by (simp add: middleware_of_def ps_handle_def)

lemma oa_transparent: "(\<And>p. put p s = s) \<Longrightarrow> middleware_of get put oa_handle h r w s = h r w s"
  by (simp add: middleware_of_def oa_handle_def startSpan_def)

lemma oa_Init_endpoint:
  "oa_Init lib cfg a = Inr a' \<Longrightarrow> oa_endpoint a' = '''' \<or>
     (\<exists>scheme host. url_parse lib (oa_endpoint a') = Some (scheme, host) \<and> scheme \<noteq> '''' \<and> host \<noteq> '''')"
  by (auto simp: oa_Init_def Let_def split: if_split_asm option.split_asm prod.split_asm)

end
