(* ===== verification/Auth.thy ===== *)
theory Auth
  imports Jwks Response
begin

text \<open>
  \<open>internal/auth\<close>: the bearer middleware with its two validators. \<open>HS256Validator\<close> verifies
  with a shared secret, \<open>JWKSValidator\<close> with the RSA keys of an endpoint that it fetches again when
  the TTL is over; it keeps no stale keys, unlike the one of the token validator plugin. The package has its
  own copies of the key decoding and of the UUID, which are proved equal to those of the plugin and of
  \<open>internal/reqctx\<close>. The gateway binary does not wire this middleware; the token validator plugin took
  its place.
\<close>

section \<open>Claims\<close>

fun strings_among :: "any list \<Rightarrow> string list" where
  "strings_among [] = []"
| "strings_among (item # items) =
     (case str_of item of Some s \<Rightarrow> s # strings_among items | None \<Rightarrow> strings_among items)"

definition claims_of :: "config_map \<Rightarrow> auth_claims" where
  "claims_of mc =
     \<lparr>Subject = get_str mc ''sub'',
      Roles = (case map_of mc ''roles'' of Some (AList arr) \<Rightarrow> strings_among arr | _ \<Rightarrow> []),
      RawClaims = mc\<rparr>"

definition extractClaims :: "jwt_claims \<Rightarrow> jwt_error + auth_claims" where
  "extractClaims c =
     (case c of
        MapClaims mc \<Rightarrow> Inr (claims_of mc)
      | OtherClaims \<Rightarrow> Inl [ErrOther])"

section \<open>HS256\<close>

definition auth_hmac_keyfunc :: "string \<Rightarrow> jwt_token \<Rightarrow> 's \<Rightarrow> (jwt_error + jwt_key) \<times> 's" where
  "auth_hmac_keyfunc secret t s =
     (if jt_Method t \<noteq> SigningMethodHMAC then (Inl [ErrOther], s) else (Inr (HmacKey secret), s))"

definition auth_opts :: "string \<Rightarrow> parser_opts" where
  "auth_opts alg = \<lparr>po_methods = [alg], po_expiration_required = True, po_audience = None, po_leeway = None\<rparr>"

definition hs256_Validate :: "jwt_lib \<Rightarrow> int \<Rightarrow> string \<Rightarrow> string \<Rightarrow> jwt_error + auth_claims" where
  "hs256_Validate lib now tokenStr secret =
     (case jwt_Parse lib (auth_opts ''HS256'') now tokenStr (auth_hmac_keyfunc secret) () of
        (Inl err, _) \<Rightarrow> Inl err
      | (Inr c, _) \<Rightarrow> extractClaims c)"

section \<open>RS256 with a key set\<close>

record auth_jwks =
  aj_url :: string
  aj_keys :: "(string \<times> rsa_key) list"
  aj_fetchAt :: "int option"
  aj_ttl :: int

definition NewJWKSValidator :: "string \<Rightarrow> auth_jwks" where
  "NewJWKSValidator url = \<lparr>aj_url = url, aj_keys = [], aj_fetchAt = None, aj_ttl = dur_seconds 300\<rparr>"

definition auth_rsaFromJWK :: "jwk \<Rightarrow> jwt_error + rsa_key" where
  "auth_rsaFromJWK k =
     (case (RawURLDecode (jwk_N k), RawURLDecode (jwk_E k)) of
        (Some nBytes, Some eBytes) \<Rightarrow>
          (let e = int (set_bytes 0 eBytes) in
           if in_int64 e then Inr \<lparr>rsa_N = set_bytes 0 nBytes, rsa_E = e\<rparr> else Inl [ErrOther])
      | _ \<Rightarrow> Inl [ErrOther])"

fun auth_collect :: "(string \<times> rsa_key) list \<Rightarrow> jwk list \<Rightarrow> jwt_error + (string \<times> rsa_key) list" where
  "auth_collect keys [] = Inr keys"
| "auth_collect keys (k # ks) =
     (if Kty k \<noteq> ''RSA'' then auth_collect keys ks
      else and_then (auth_rsaFromJWK k) (\<lambda>pub. auth_collect (al_put (Kid k) pub keys) ks))"

text \<open>The document that an answer holds; its status is not looked at.\<close>

definition auth_document :: "jwt_lib \<Rightarrow> fetch_result \<Rightarrow> jwt_error + (string \<times> rsa_key) list" where
  "auth_document lib res =
     (case res of
        FetchErr \<Rightarrow> Inl [ErrOther]
      | Fetched status body \<Rightarrow> (case json_jwks lib body of None \<Rightarrow> Inl [ErrOther] | Some ks \<Rightarrow> auth_collect [] ks))"

text \<open>The decoding of this package is that of the plugin.\<close>

lemma auth_rsaFromJWK_eq: "auth_rsaFromJWK = rsaFromJWK"
  by (auto simp: fun_eq_iff auth_rsaFromJWK_def rsaFromJWK_def Let_def split: option.split)

lemma auth_collect_eq: "auth_collect keys ks = jwks_collect keys ks"
  by (induction ks arbitrary: keys) (auto simp: auth_rsaFromJWK_eq split: sum.split)

lemma auth_document_eq [simp]: "auth_document = jwks_published"
  by (auto simp: fun_eq_iff auth_document_def jwks_published_def auth_collect_eq split: fetch_result.split option.split)

text \<open>The first component is the error; \<open>None\<close> when the document was read.\<close>

definition auth_refresh :: "jwt_lib \<Rightarrow> fetch_inputs \<Rightarrow> auth_jwks \<Rightarrow> jwt_error option \<times> auth_jwks" where
  "auth_refresh lib inp v =
     (case auth_document lib (fi_fetch inp (aj_url v)) of
        Inl e \<Rightarrow> (Some e, v)
      | Inr keys \<Rightarrow> (None, v\<lparr>aj_keys := keys, aj_fetchAt := Some (fi_done inp)\<rparr>))"

definition auth_expired :: "int \<Rightarrow> auth_jwks \<Rightarrow> bool" where
  "auth_expired now v =
     (case aj_fetchAt v of None \<Rightarrow> True | Some t \<Rightarrow> t + aj_ttl v < now)"

definition auth_getKey ::
    "jwt_lib \<Rightarrow> fetch_inputs \<Rightarrow> string \<Rightarrow> auth_jwks \<Rightarrow> (jwt_error + rsa_key) \<times> auth_jwks" where
  "auth_getKey lib inp kid v =
     (if map_of (aj_keys v) kid \<noteq> None \<and> \<not> auth_expired (fi_now inp) v
      then (Inr (the (map_of (aj_keys v) kid)), v)
      else
        (case auth_refresh lib inp v of
           (Some err, v) \<Rightarrow> (Inl err, v)
         | (None, v) \<Rightarrow>
             (case map_of (aj_keys v) kid of
                None \<Rightarrow> (Inl [ErrOther], v)
              | Some key \<Rightarrow> (Inr key, v))))"

definition auth_rsa_keyfunc ::
    "jwt_lib \<Rightarrow> fetch_inputs \<Rightarrow> jwt_token \<Rightarrow> auth_jwks \<Rightarrow> (jwt_error + jwt_key) \<times> auth_jwks" where
  "auth_rsa_keyfunc lib inp t v =
     (if jt_Method t \<noteq> SigningMethodRSA then (Inl [ErrOther], v)
      else case auth_getKey lib inp (header_kid t) v of
             (Inl e, v) \<Rightarrow> (Inl e, v)
           | (Inr key, v) \<Rightarrow> (Inr (RsaKey key), v))"

definition jwks_Validate ::
    "jwt_lib \<Rightarrow> fetch_inputs \<Rightarrow> int \<Rightarrow> string \<Rightarrow> auth_jwks \<Rightarrow> (jwt_error + auth_claims) \<times> auth_jwks" where
  "jwks_Validate lib inp now tokenStr v =
     (case jwt_Parse lib (auth_opts ''RS256'') now tokenStr (auth_rsa_keyfunc lib inp) v of
        (Inl err, v) \<Rightarrow> (Inl err, v)
      | (Inr c, v) \<Rightarrow> (extractClaims c, v))"

section \<open>Choice of the validator\<close>

datatype auth_validator = HS256Validator string | JWKSValidator auth_jwks

definition NewHS256Validator :: "string \<Rightarrow> auth_validator" where
  "NewHS256Validator secret = HS256Validator secret"

definition NewValidator :: "(string \<Rightarrow> string) \<Rightarrow> string + auth_validator" where
  "NewValidator getenv =
     (let secret = getenv ''GATEWAY_JWT_SECRET''; jwksURL = getenv ''GATEWAY_JWT_JWKS_URL'' in
      if jwksURL \<noteq> '''' then Inr (JWKSValidator (NewJWKSValidator jwksURL))
      else if secret \<noteq> '''' then Inr (NewHS256Validator secret)
      else Inl ''auth: JWT validator not configured; set GATEWAY_JWT_SECRET or GATEWAY_JWT_JWKS_URL'')"

record auth_inputs =
  ai_now :: int
  ai_fetch :: fetch_inputs
  ai_rndCorr :: "8 word list"
  ai_rndReq :: "8 word list"

definition Validate ::
    "jwt_lib \<Rightarrow> auth_inputs \<Rightarrow> string \<Rightarrow> auth_validator \<Rightarrow> (jwt_error + auth_claims) \<times> auth_validator" where
  "Validate lib inp tok v =
     (case v of
        HS256Validator secret \<Rightarrow> (hs256_Validate lib (ai_now inp) tok secret, v)
      | JWKSValidator j \<Rightarrow>
          (case jwks_Validate lib (ai_fetch inp) (ai_now inp) tok j of (res, j) \<Rightarrow> (res, JWKSValidator j)))"

section \<open>Middleware\<close>

definition auth_extractBearer :: "http_request \<Rightarrow> string option" where
  "auth_extractBearer r =
     (case cut_prefix (req_header r ''Authorization'') ''Bearer '' of
        (after, ok) \<Rightarrow> if \<not> ok \<or> after = '''' then None else Some after)"

definition newUUID :: "8 word list \<Rightarrow> string" where
  "newUUID rnd =
     (let b = rnd[6 := (rnd ! 6 AND 0x0f) OR 0x40];
          b = b[8 := (b ! 8 AND 0x3f) OR 0x80];
          slice = (\<lambda>i j. hex_bytes (take (j - i) (drop i b)))
      in slice 0 4 @ ''-'' @ slice 4 6 @ ''-'' @ slice 6 8 @ ''-'' @ slice 8 10 @ ''-'' @ slice 10 16)"

lemma newUUID_eq: "newUUID = NewUUID"
  by (simp add: fun_eq_iff newUUID_def NewUUID_def Let_def)

definition header_or_uuid :: "http_request \<Rightarrow> string \<Rightarrow> 8 word list \<Rightarrow> string" where
  "header_or_uuid r k rnd = (if req_header r k = '''' then newUUID rnd else req_header r k)"

definition writeAuthError :: "auth_inputs \<Rightarrow> writer \<Rightarrow> http_request \<Rightarrow> string \<Rightarrow> string \<Rightarrow> writer" where
  "writeAuthError inp w r code msg =
     WriteError w 401
       \<lparr>ErrType = ''error'', Code = code, Message = msg, RetryAfter = 0,
        Trace = trace_of (header_or_uuid r ''X-Correlation-ID'' (ai_rndCorr inp))
          (header_or_uuid r ''X-Request-ID'' (ai_rndReq inp)) ''''\<rparr>"

text \<open>The middleware over any validator: \<open>validate\<close> is the method of the interface, on the
  validator's state.\<close>

definition auth_handle ::
    "(auth_inputs \<Rightarrow> string \<Rightarrow> 's \<Rightarrow> (jwt_error + auth_claims) \<times> 's) \<Rightarrow> auth_inputs \<Rightarrow> 's decision" where
  "auth_handle validate inp r w v =
     (case auth_extractBearer r of
        None \<Rightarrow> (Respond (writeAuthError inp w r ''MISSING_TOKEN'' ''authorization header with Bearer token is required''), v)
      | Some tokenStr \<Rightarrow>
          (case validate inp tokenStr v of
             (Inl err, v) \<Rightarrow> (Respond (writeAuthError inp w r ''INVALID_TOKEN'' ''token validation failed''), v)
           | (Inr claims, v) \<Rightarrow> (Next (with_context r (WithAuthClaims (r_ctx r) claims)) w, v)))"

interpretation auth_mw: middleware "middleware_of get put (auth_handle validate inp)" for get put validate inp
  by (rule middleware_middleware_of)

section \<open>The contract of a validator\<close>

text \<open>What the middleware needs of a validator: claims come only with a token it accepts, and they are read
  off the accepted token's claims.\<close>

locale validator =
  fixes validate :: "auth_inputs \<Rightarrow> string \<Rightarrow> 's \<Rightarrow> (jwt_error + auth_claims) \<times> 's"
    and accepts :: "auth_inputs \<Rightarrow> string \<Rightarrow> 's \<Rightarrow> config_map \<Rightarrow> bool"
  assumes sound: "validate inp tok s = (Inr c, s') \<Longrightarrow> \<exists>mc. accepts inp tok s mc \<and> c = claims_of mc"
begin

lemma handle_Next:
  assumes "auth_handle validate inp r w s = (Next r' w', s')"
  obtains tok mc where "auth_extractBearer r = Some tok" and "accepts inp tok s mc"
    and "r' = with_context r (WithAuthClaims (r_ctx r) (claims_of mc))" and "w' = w"
  using assms sound
  by (fastforce simp: auth_handle_def split: option.splits prod.splits sum.splits)

lemma handle_Respond:
  assumes "auth_handle validate inp r w s = (Respond w', s')"
  shows "\<exists>code msg. w' = writeAuthError inp w r code msg"
  using assms by (auto simp: auth_handle_def split: option.splits prod.splits sum.splits)

end

lemma extractClaims_Inr: "extractClaims c = Inr cl \<longleftrightarrow> (\<exists>mc. c = MapClaims mc \<and> cl = claims_of mc)"
  by (cases c) (auto simp: extractClaims_def)

text \<open>The validator of either kind accepts what the library returns for the key it is given.\<close>

definition validator_accepts :: "jwt_lib \<Rightarrow> auth_inputs \<Rightarrow> string \<Rightarrow> auth_validator \<Rightarrow> config_map \<Rightarrow> bool" where
  "validator_accepts lib inp tok v mc \<longleftrightarrow>
     (case v of
        HS256Validator secret \<Rightarrow>
          fst (jwt_Parse lib (auth_opts ''HS256'') (ai_now inp) tok (auth_hmac_keyfunc secret) ()) = Inr (MapClaims mc)
      | JWKSValidator j \<Rightarrow>
          fst (jwt_Parse lib (auth_opts ''RS256'') (ai_now inp) tok (auth_rsa_keyfunc lib (ai_fetch inp)) j) =
            Inr (MapClaims mc))"

interpretation auth_validator: validator "Validate lib" "validator_accepts lib" for lib
proof
  fix inp tok v c v'
  assume "Validate lib inp tok v = (Inr c, v')"
  then show "\<exists>mc. validator_accepts lib inp tok v mc \<and> c = claims_of mc"
    by (cases v)
      (auto simp: Validate_def validator_accepts_def hs256_Validate_def jwks_Validate_def extractClaims_Inr
        split: prod.splits sum.splits)
qed

section \<open>Runs\<close>

type_synonym auth_event = "auth_inputs \<times> http_request \<times> writer"

definition auth_run :: "jwt_lib \<Rightarrow> auth_event list \<Rightarrow> auth_validator \<Rightarrow> auth_validator" where
  "auth_run lib evs v = fold (\<lambda>(inp, r, w) v. snd (auth_handle (Validate lib) inp r w v)) evs v"

lemma auth_run_snoc [simp]:
  "auth_run lib [] v = v"
  "auth_run lib (evs @ [(inp, r, w)]) v = snd (auth_handle (Validate lib) inp r w (auth_run lib evs v))"
  by (simp_all add: auth_run_def)

text \<open>The state after an operation: the same, or with the keys of the document just fetched.\<close>

definition refreshed :: "jwt_lib \<Rightarrow> fetch_inputs \<Rightarrow> auth_jwks \<Rightarrow> auth_jwks \<Rightarrow> bool" where
  "refreshed lib inp v v' \<longleftrightarrow> v' = v \<or>
     (\<exists>keys. jwks_published lib (fi_fetch inp (aj_url v)) = Inr keys \<and>
        v' = v\<lparr>aj_keys := keys, aj_fetchAt := Some (fi_done inp)\<rparr>)"

lemma auth_getKey_refreshed: "refreshed lib inp v (snd (auth_getKey lib inp kid v))"
  by (auto simp: refreshed_def auth_getKey_def auth_refresh_def split: option.splits sum.splits)

lemma jwks_Validate_refreshed: "refreshed lib inp v (snd (jwks_Validate lib inp now tok v))"
proof -
  have "refreshed lib inp v (snd (auth_rsa_keyfunc lib inp t v))" for t
    using auth_getKey_refreshed [of lib inp v "header_kid t"]
    by (auto simp: auth_rsa_keyfunc_def refreshed_def split: prod.splits sum.splits)
  moreover have "refreshed lib inp v v" by (simp add: refreshed_def)
  moreover have "snd (jwks_Validate lib inp now tok v) =
      snd (jwt_Parse lib (auth_opts ''RS256'') now tok (auth_rsa_keyfunc lib inp) v)"
    by (auto simp: jwks_Validate_def split: prod.splits sum.splits)
  ultimately show ?thesis by (simp add: jwt_Parse_state split: jwt_step.split)
qed

lemma auth_getKey_served:
  assumes "auth_getKey lib inp kid v = (Inr key, v')"
  shows "map_of (aj_keys v) kid = Some key \<and> \<not> auth_expired (fi_now inp) v \<or>
    (\<exists>ks. jwks_published lib (fi_fetch inp (aj_url v)) = Inr ks \<and> map_of ks kid = Some key)"
  using assms by (auto simp: auth_getKey_def auth_refresh_def split: if_split_asm option.split_asm sum.split_asm prod.split_asm)

text \<open>The secret never changes; the keys of a key set come from one answer of its endpoint.\<close>

definition keys_from_run :: "jwt_lib \<Rightarrow> auth_event list \<Rightarrow> auth_jwks \<Rightarrow> bool" where
  "keys_from_run lib evs j \<longleftrightarrow> aj_keys j = [] \<or>
     (\<exists>(i, r, w) \<in> set evs. jwks_published lib (fi_fetch (ai_fetch i) (aj_url j)) = Inr (aj_keys j))"

lemma auth_handle_state:
  "auth_handle (Validate lib) inp r w (HS256Validator s) = (x, v') \<Longrightarrow> v' = HS256Validator s"
  "auth_handle (Validate lib) inp r w (JWKSValidator j) = (x, v') \<Longrightarrow>
     \<exists>j'. v' = JWKSValidator j' \<and> refreshed lib (ai_fetch inp) j j'"
proof -
  show "auth_handle (Validate lib) inp r w (HS256Validator s) = (x, v') \<Longrightarrow> v' = HS256Validator s"
    by (auto simp: auth_handle_def Validate_def split: option.splits prod.splits sum.splits)
  have "refreshed lib (ai_fetch inp) j j" by (simp add: refreshed_def)
  moreover have "refreshed lib (ai_fetch inp) j (snd (jwks_Validate lib (ai_fetch inp) (ai_now inp) tok j))" for tok
    by (rule jwks_Validate_refreshed)
  ultimately show "auth_handle (Validate lib) inp r w (JWKSValidator j) = (x, v') \<Longrightarrow>
     \<exists>j'. v' = JWKSValidator j' \<and> refreshed lib (ai_fetch inp) j j'"
    by (cases "auth_extractBearer r")
      (auto simp: auth_handle_def Validate_def split: prod.splits sum.splits, (metis snd_conv)+)
qed

lemma auth_run_HS256: "auth_run lib evs (HS256Validator s) = HS256Validator s"
proof (induction evs rule: rev_induct)
  case (snoc ev evs)
  obtain i r w where ev: "ev = (i, r, w)" by (cases ev)
  show ?case
    using snoc.IH auth_handle_state(1) [of lib i r w s] by (metis ev auth_run_snoc(2) prod.collapse)
qed simp

lemma auth_run_JWKS:
  "\<exists>j. auth_run lib evs (JWKSValidator (NewJWKSValidator url)) = JWKSValidator j \<and> aj_url j = url \<and> keys_from_run lib evs j"
proof (induction evs rule: rev_induct)
  case Nil
  show ?case by (simp add: keys_from_run_def NewJWKSValidator_def)
next
  case (snoc ev evs)
  obtain i r w where ev: "ev = (i, r, w)" by (cases ev)
  from snoc.IH obtain j where j: "auth_run lib evs (JWKSValidator (NewJWKSValidator url)) = JWKSValidator j"
    "aj_url j = url" "keys_from_run lib evs j" by blast
  obtain j' where j': "auth_run lib (evs @ [ev]) (JWKSValidator (NewJWKSValidator url)) = JWKSValidator j'"
    "refreshed lib (ai_fetch i) j j'"
    using auth_handle_state(2) [of lib i r w j] j(1) by (metis ev auth_run_snoc(2) prod.collapse)
  then show ?case
    using j(2,3) by (auto simp: refreshed_def keys_from_run_def ev)
qed

end

