(* ===== verification/AuthSafety.thy ===== *)
theory AuthSafety
  imports Auth TokenExamples
begin

text \<open>The gate of \<open>internal/auth\<close>, whichever validator the environment chooses, and its rejections.\<close>

lemma NewValidator_cases:
  assumes "NewValidator getenv = Inr v"
  shows "getenv ''GATEWAY_JWT_JWKS_URL'' \<noteq> '''' \<and>
      v = JWKSValidator (NewJWKSValidator (getenv ''GATEWAY_JWT_JWKS_URL'')) \<or>
    getenv ''GATEWAY_JWT_JWKS_URL'' = '''' \<and> getenv ''GATEWAY_JWT_SECRET'' \<noteq> '''' \<and>
      v = HS256Validator (getenv ''GATEWAY_JWT_SECRET'')"
  using assms by (auto simp: NewValidator_def NewHS256Validator_def Let_def split: if_split_asm)

lemma cut_prefix_nonempty:
  "(case cut_prefix v p of (after, ok) \<Rightarrow> if \<not> ok \<or> after = [] then None else Some after) = Some tok \<longleftrightarrow>
     v = p @ tok \<and> tok \<noteq> []"
proof (cases "has_prefix v p")
  case True
  then obtain t where "v = p @ t" by (auto simp: has_prefix_iff)
  then show ?thesis by auto
next
  case False
  then show ?thesis by (auto simp: cut_prefix_def)
qed

lemma auth_extractBearer_Some:
  "auth_extractBearer r = Some tok \<longleftrightarrow> req_header r ''Authorization'' = ''Bearer '' @ tok \<and> tok \<noteq> []"
  unfolding auth_extractBearer_def by (rule cut_prefix_nonempty)

lemma auth_hmac_verified:
  assumes "jwt_contract verifies lib"
    and "fst (jwt_Parse lib opts now tok (auth_hmac_keyfunc secret) s) = Inr (MapClaims mc)"
  shows "verifies opts now tok (HmacKey secret) (MapClaims mc)"
proof -
  obtain s' where "jwt_Parse lib opts now tok (auth_hmac_keyfunc secret) s = (Inr (MapClaims mc), s')"
    using assms(2) by (metis prod.collapse)
  from jwt_Parse_verified [OF assms(1) this] obtain t k where
    "auth_hmac_keyfunc secret t s = (Inr k, s')" "verifies opts now tok k (MapClaims mc)" .
  then show ?thesis by (simp add: auth_hmac_keyfunc_def split: if_split_asm)
qed

lemma auth_rsa_verified:
  assumes "jwt_contract verifies lib"
    and "fst (jwt_Parse lib opts now tok (auth_rsa_keyfunc lib fi) j) = Inr (MapClaims mc)"
  obtains kid key j' where "auth_getKey lib fi kid j = (Inr key, j')"
    and "verifies opts now tok (RsaKey key) (MapClaims mc)"
proof -
  obtain j' where "jwt_Parse lib opts now tok (auth_rsa_keyfunc lib fi) j = (Inr (MapClaims mc), j')"
    using assms(2) by (metis prod.collapse)
  from jwt_Parse_verified [OF assms(1) this] obtain t k where
    "auth_rsa_keyfunc lib fi t j = (Inr k, j')" "verifies opts now tok k (MapClaims mc)" .
  then show thesis
    by (auto simp: auth_rsa_keyfunc_def intro: that split: if_split_asm prod.split_asm sum.split_asm)
qed

text \<open>C11: the authentication gate. Whatever requests came before, one passes the middleware only with a bearer
  token that the JWT library verified: with RS256 under a key that the configured endpoint published during
  the run, when a JWKS URL is set (also when a secret is set), else with HS256 under the configured,
  non-empty secret. The claims of that token are then in the context, and nothing else has changed.\<close>

theorem auth_gate:
  assumes "jwt_contract verifies lib" and "NewValidator getenv = Inr v0"
    and "auth_handle (Validate lib) inp r w (auth_run lib evs v0) = (Next r' w', v')"
  shows "\<exists>tok mc. req_header r ''Authorization'' = ''Bearer '' @ tok \<and> tok \<noteq> '''' \<and>
    r' = with_context r (WithAuthClaims (r_ctx r) (claims_of mc)) \<and> w' = w \<and>
    (if getenv ''GATEWAY_JWT_JWKS_URL'' \<noteq> ''''
     then \<exists>kid key ks. verifies (auth_opts ''RS256'') (ai_now inp) tok (RsaKey key) (MapClaims mc) \<and>
       (\<exists>i \<in> insert inp (fst ` set evs).
          jwks_published lib (fi_fetch (ai_fetch i) (getenv ''GATEWAY_JWT_JWKS_URL'')) = Inr ks) \<and>
       map_of ks kid = Some key
     else getenv ''GATEWAY_JWT_SECRET'' \<noteq> '''' \<and>
       verifies (auth_opts ''HS256'') (ai_now inp) tok (HmacKey (getenv ''GATEWAY_JWT_SECRET'')) (MapClaims mc))"
proof -
  let ?v = "auth_run lib evs v0" and ?url = "getenv ''GATEWAY_JWT_JWKS_URL''"
  from auth_validator.handle_Next [OF assms(3)] obtain tok mc where
    tok: "auth_extractBearer r = Some tok" and acc: "validator_accepts lib inp tok ?v mc"
    and out: "r' = with_context r (WithAuthClaims (r_ctx r) (claims_of mc))" "w' = w" .
  from NewValidator_cases [OF assms(2)] show ?thesis
  proof (elim disjE conjE)
    assume url: "?url \<noteq> ''''" and v0: "v0 = JWKSValidator (NewJWKSValidator ?url)"
    from auth_run_JWKS [of lib evs ?url] v0 obtain j where
      j: "?v = JWKSValidator j" "aj_url j = ?url" "keys_from_run lib evs j" by blast
    from acc j(1) have "fst (jwt_Parse lib (auth_opts ''RS256'') (ai_now inp) tok (auth_rsa_keyfunc lib (ai_fetch inp)) j) =
        Inr (MapClaims mc)" by (simp add: validator_accepts_def)
    from auth_rsa_verified [OF assms(1) this] obtain kid key j' where
      k: "auth_getKey lib (ai_fetch inp) kid j = (Inr key, j')"
      and ver: "verifies (auth_opts ''RS256'') (ai_now inp) tok (RsaKey key) (MapClaims mc)" .
    have "\<exists>i \<in> insert inp (fst ` set evs). \<exists>ks.
        jwks_published lib (fi_fetch (ai_fetch i) ?url) = Inr ks \<and> map_of ks kid = Some key"
      using auth_getKey_served [OF k]
    proof (elim disjE)
      assume "map_of (aj_keys j) kid = Some key \<and> \<not> auth_expired (fi_now (ai_fetch inp)) j"
      with j(2,3) show ?thesis by (force simp: keys_from_run_def)
    qed (use j(2) in auto)
    with ver have "\<exists>kid key ks. verifies (auth_opts ''RS256'') (ai_now inp) tok (RsaKey key) (MapClaims mc) \<and>
       (\<exists>i \<in> insert inp (fst ` set evs). jwks_published lib (fi_fetch (ai_fetch i) ?url) = Inr ks) \<and>
       map_of ks kid = Some key" by blast
    note gate = this
    from tok have "req_header r ''Authorization'' = ''Bearer '' @ tok" "tok \<noteq> []"
      unfolding auth_extractBearer_Some by blast+
    from this out gate show ?thesis
      by - (rule exI [of _ tok], rule exI [of _ mc], intro conjI, assumption+, simp only: url not_False_eq_True if_True)
  next
    assume none: "?url = ''''" and sec: "getenv ''GATEWAY_JWT_SECRET'' \<noteq> ''''"
      and v0: "v0 = HS256Validator (getenv ''GATEWAY_JWT_SECRET'')"
    from acc v0 have "fst (jwt_Parse lib (auth_opts ''HS256'') (ai_now inp) tok
        (auth_hmac_keyfunc (getenv ''GATEWAY_JWT_SECRET'')) ()) = Inr (MapClaims mc)"
      by (simp add: validator_accepts_def auth_run_HS256)
    from auth_hmac_verified [OF assms(1) this] tok out none sec show ?thesis
      by (auto simp: auth_extractBearer_Some)
  qed
qed

text \<open>Every rejection is the vendor error with status 401.\<close>

lemma auth_rejects_401:
  assumes "auth_handle (Validate lib) inp r w v = (Respond w', v')" and "fresh w"
  shows "w_status w' = Some 401"
  using auth_validator.handle_Respond [OF assms(1)] assms(2)
  by (auto simp: writeAuthError_def final_status_def intro: WriteError_fresh)

text \<open>A failed refresh serves no key, not even one that is in the cache: there are no stale keys here.\<close>

lemma auth_no_stale_key:
  assumes "jwks_published lib (fi_fetch inp (aj_url v)) = Inl e" and "auth_expired (fi_now inp) v"
  shows "auth_getKey lib inp kid v = (Inl e, v)"
  using assms by (simp add: auth_getKey_def auth_refresh_def)

definition ex_getenv :: "string \<Rightarrow> string" where
  "ex_getenv k = (if k = ''GATEWAY_JWT_SECRET'' then ''s'' else '''')"

definition ex_auth_inp :: auth_inputs where
  "ex_auth_inp = \<lparr>ai_now = 6, ai_fetch = ex_fetch 5 FetchErr, ai_rndCorr = [], ai_rndReq = []\<rparr>"

lemma ex_auth_pass:
  "auth_handle (Validate (ex_lib SigningMethodHMAC (HmacKey ''s''))) ex_auth_inp (ex_http ''Authorization'' ''Bearer t'') w
     (HS256Validator ''s'') =
   (Next (with_context (ex_http ''Authorization'' ''Bearer t'') (WithAuthClaims Background (claims_of ex_claims))) w,
    HS256Validator ''s'')"
proof -
  have "auth_extractBearer (ex_http ''Authorization'' ''Bearer t'') = Some ''t''"
    by (simp add: auth_extractBearer_Some ex_http_header)
  then show ?thesis
    by (simp add: auth_handle_def Validate_def hs256_Validate_def jwt_Parse_def ex_lib_def auth_hmac_keyfunc_def
        extractClaims_def ex_http_def)
qed

lemma auth_gate_witness:
  "ex_verifies (HmacKey ''s'') (auth_opts ''HS256'') 6 ''t'' (HmacKey ''s'') (MapClaims ex_claims)"
proof -
  have "NewValidator ex_getenv = Inr (HS256Validator ''s'')"
    by (simp add: NewValidator_def ex_getenv_def NewHS256Validator_def)
  from auth_gate [OF ex_contract this, where evs = "[]", simplified auth_run_snoc, OF ex_auth_pass]
  show ?thesis
    by (auto simp: ex_getenv_def ex_http_header ex_verifies_def)
qed

end
