(* ===== verification/JwksThreads.thy ===== *)
theory JwksThreads
  imports Jwks
begin

text \<open>
  The key cache of \<open>internal/plugins/tokenvalidator/jwks.go\<close> under concurrent lookups. The lock covers
  the reads and the store of a lookup, not its fetch, so goroutines interleave at the ends of these critical
  sections: \<open>getKey_step\<close> has one constructor for each of them. The documents that the endpoint served, in
  the order of its answers, are kept as a ghost.
\<close>

section \<open>Steps\<close>

datatype getKey_pc =
    AtStart
  | Refreshing string
  | Received string "(string \<times> rsa_key) list"
  | RefreshFailed string jwt_error
  | Stored string
  | Returned string "jwt_error + rsa_key"

record jwks_threads =
  jt_cache :: jwks_validator
  jt_pc :: "nat \<Rightarrow> getKey_pc"
  jt_served :: "(string \<times> rsa_key) list list"

definition threads_start :: "string \<Rightarrow> int \<Rightarrow> jwks_threads" where
  "threads_start url ttl = \<lparr>jt_cache = newJWKSValidator url ttl, jt_pc = (\<lambda>_. AtStart), jt_served = []\<rparr>"

definition jt_goto :: "nat \<Rightarrow> getKey_pc \<Rightarrow> jwks_threads \<Rightarrow> jwks_threads" where
  "jt_goto p pc s = s\<lparr>jt_pc := (jt_pc s)(p := pc)\<rparr>"

text \<open>The answer to a lookup whose refresh failed, from the keys it then reads.\<close>

definition stale_answer :: "jwt_error \<Rightarrow> string \<Rightarrow> jwks_validator \<Rightarrow> jwt_error + rsa_key" where
  "stale_answer err kid v =
     (case map_of (jv_keys v) kid of
        Some key \<Rightarrow> Inr key
      | None \<Rightarrow> if jv_keys v = [] then Inl (ErrJWKSUnavailable # err) else Inl err)"

definition fresh_answer :: "string \<Rightarrow> jwks_validator \<Rightarrow> jwt_error + rsa_key" where
  "fresh_answer kid v = (case map_of (jv_keys v) kid of None \<Rightarrow> Inl [ErrOther] | Some key \<Rightarrow> Inr key)"

definition store_keys :: "(string \<times> rsa_key) list \<Rightarrow> int \<Rightarrow> jwks_validator \<Rightarrow> jwks_validator" where
  "store_keys ks now v = v\<lparr>jv_keys := ks, jv_fetchAt := Some now\<rparr>"

inductive getKey_step :: "jwt_lib \<Rightarrow> nat \<Rightarrow> jwks_threads \<Rightarrow> jwks_threads \<Rightarrow> bool" for lib p where
  hit: "jt_pc s p = AtStart \<Longrightarrow> map_of (jv_keys (jt_cache s)) kid = Some key \<Longrightarrow> \<not> jwks_expired now (jt_cache s) \<Longrightarrow>
     getKey_step lib p s (jt_goto p (Returned kid (Inr key)) s)"
| miss: "jt_pc s p = AtStart \<Longrightarrow> map_of (jv_keys (jt_cache s)) kid = None \<or> jwks_expired now (jt_cache s) \<Longrightarrow>
     getKey_step lib p s (jt_goto p (Refreshing kid) (s\<lparr>jt_cache := (jt_cache s)\<lparr>jv_fetchCount := jv_fetchCount (jt_cache s) + 1\<rparr>\<rparr>))"
| answer: "jt_pc s p = Refreshing kid \<Longrightarrow> jwks_published lib res = Inr ks \<Longrightarrow>
     getKey_step lib p s (jt_goto p (Received kid ks) (s\<lparr>jt_served := jt_served s @ [ks]\<rparr>))"
| no_answer: "jt_pc s p = Refreshing kid \<Longrightarrow> jwks_published lib res = Inl err \<Longrightarrow>
     getKey_step lib p s (jt_goto p (RefreshFailed kid err) s)"
| store: "jt_pc s p = Received kid ks \<Longrightarrow>
     getKey_step lib p s (jt_goto p (Stored kid) (s\<lparr>jt_cache := store_keys ks now (jt_cache s)\<rparr>))"
| reread: "jt_pc s p = Stored kid \<Longrightarrow>
     getKey_step lib p s (jt_goto p (Returned kid (fresh_answer kid (jt_cache s))) s)"
| stale: "jt_pc s p = RefreshFailed kid err \<Longrightarrow>
     getKey_step lib p s (jt_goto p (Returned kid (stale_answer err kid (jt_cache s))) s)"
| again: "jt_pc s p = Returned kid res \<Longrightarrow> getKey_step lib p s (jt_goto p AtStart s)"

inductive threads_reach :: "jwt_lib \<Rightarrow> string \<Rightarrow> int \<Rightarrow> jwks_threads \<Rightarrow> bool" for lib url ttl where
  start: "threads_reach lib url ttl (threads_start url ttl)"
| step: "threads_reach lib url ttl s \<Longrightarrow> getKey_step lib p s s' \<Longrightarrow> threads_reach lib url ttl s'"

section \<open>A lookup that runs alone\<close>

text \<open>Without others in between, a lookup is \<open>getKey\<close>.\<close>

lemma jt_goto_simps [simp]:
  "jt_pc (jt_goto p pc s) = (jt_pc s)(p := pc)" "jt_cache (jt_goto p pc s) = jt_cache s"
  "jt_served (jt_goto p pc s) = jt_served s"
  by (simp_all add: jt_goto_def)

lemma getKey_steps:
  assumes "jt_pc s p = AtStart"
  shows "\<exists>s'. (getKey_step lib p)\<^sup>*\<^sup>* s s' \<and> jt_pc s' p = Returned kid (fst (getKey lib inp kid (jt_cache s))) \<and>
    jt_cache s' = snd (getKey lib inp kid (jt_cache s))"
proof (cases "map_of (jv_keys (jt_cache s)) kid \<noteq> None \<and> \<not> jwks_expired (fi_now inp) (jt_cache s)")
  case True
  then obtain key where k: "map_of (jv_keys (jt_cache s)) kid = Some key" "\<not> jwks_expired (fi_now inp) (jt_cache s)" by blast
  from hit [OF assms k] show ?thesis
    by (intro exI [of _ "jt_goto p (Returned kid (Inr key)) s"]) (simp add: getKey_def k r_into_rtranclp)
next
  case False
  let ?s1 = "jt_goto p (Refreshing kid) (s\<lparr>jt_cache := (jt_cache s)\<lparr>jv_fetchCount := jv_fetchCount (jt_cache s) + 1\<rparr>\<rparr>)"
  let ?res = "fi_fetch inp (jv_url (jt_cache s))"
  have s1: "getKey_step lib p s ?s1" by (rule miss [OF assms, of kid "fi_now inp"]) (use False in auto)
  have pc1: "jt_pc ?s1 p = Refreshing kid" by simp
  show ?thesis
  proof (cases "jwks_published lib ?res")
    case (Inl err)
    let ?s2 = "jt_goto p (RefreshFailed kid err) ?s1"
    let ?s3 = "jt_goto p (Returned kid (stale_answer err kid (jt_cache ?s2))) ?s2"
    have s2: "getKey_step lib p ?s1 ?s2" by (rule no_answer [OF pc1 Inl])
    have s3: "getKey_step lib p ?s2 ?s3" by (rule stale) simp
    have g: "getKey lib inp kid (jt_cache s) = (stale_answer err kid (jt_cache ?s2), jt_cache ?s3)"
      using False Inl by (auto simp: getKey_def jwks_refresh_def stale_answer_def Let_def split: option.splits)
    from s1 s2 s3 have "(getKey_step lib p)\<^sup>*\<^sup>* s ?s3" by (meson converse_rtranclp_into_rtranclp rtranclp.rtrancl_refl)
    then show ?thesis unfolding g by (intro exI [of _ ?s3]) simp
  next
    case (Inr ks)
    let ?s2 = "jt_goto p (Received kid ks) (?s1\<lparr>jt_served := jt_served ?s1 @ [ks]\<rparr>)"
    let ?s3 = "jt_goto p (Stored kid) (?s2\<lparr>jt_cache := store_keys ks (fi_done inp) (jt_cache ?s2)\<rparr>)"
    let ?s4 = "jt_goto p (Returned kid (fresh_answer kid (jt_cache ?s3))) ?s3"
    have s2: "getKey_step lib p ?s1 ?s2" by (rule answer [OF pc1 Inr])
    have s3: "getKey_step lib p ?s2 ?s3" by (rule store) simp
    have s4: "getKey_step lib p ?s3 ?s4" by (rule reread) simp
    have g: "getKey lib inp kid (jt_cache s) = (fresh_answer kid (jt_cache ?s3), jt_cache ?s4)"
      using False Inr
      by (auto simp: getKey_def jwks_refresh_def fresh_answer_def store_keys_def Let_def split: option.splits)
    from s1 s2 s3 s4 have "(getKey_step lib p)\<^sup>*\<^sup>* s ?s4" by (meson converse_rtranclp_into_rtranclp rtranclp.rtrancl_refl)
    then show ?thesis unfolding g by (intro exI [of _ ?s4]) simp
  qed
qed

section \<open>What any interleaving serves\<close>

definition stood_in :: "(string \<times> rsa_key) list list \<Rightarrow> string \<Rightarrow> rsa_key \<Rightarrow> bool" where
  "stood_in docs kid key \<longleftrightarrow> (\<exists>ks \<in> set docs. map_of ks kid = Some key)"

definition pc_inv :: "(string \<times> rsa_key) list list \<Rightarrow> getKey_pc \<Rightarrow> bool" where
  "pc_inv docs pc \<longleftrightarrow>
     (case pc of Received kid ks \<Rightarrow> ks \<in> set docs
      | Returned kid (Inr key) \<Rightarrow> stood_in docs kid key
      | _ \<Rightarrow> True)"

definition threads_inv :: "jwt_lib \<Rightarrow> jwks_threads \<Rightarrow> bool" where
  "threads_inv lib s \<longleftrightarrow> (jv_keys (jt_cache s) = [] \<or> jv_keys (jt_cache s) \<in> set (jt_served s)) \<and>
     (\<forall>p. pc_inv (jt_served s) (jt_pc s p)) \<and> (\<forall>ks \<in> set (jt_served s). \<exists>res. jwks_published lib res = Inr ks)"

lemma pc_inv_mono: "pc_inv docs pc \<Longrightarrow> pc_inv (docs @ [ks]) pc"
  by (auto simp: pc_inv_def stood_in_def split: getKey_pc.splits sum.splits)

lemma pc_inv_simps [simp]:
  "pc_inv docs AtStart" "pc_inv docs (Refreshing kid)" "pc_inv docs (RefreshFailed kid err)" "pc_inv docs (Stored kid)"
  "pc_inv docs (Received kid ks) \<longleftrightarrow> ks \<in> set docs"
  "pc_inv docs (Returned kid (Inr key)) \<longleftrightarrow> stood_in docs kid key" "pc_inv docs (Returned kid (Inl e))"
  by (simp_all add: pc_inv_def)

lemma cached_stood_in:
  "threads_inv lib s \<Longrightarrow> map_of (jv_keys (jt_cache s)) kid = Some key \<Longrightarrow> stood_in (jt_served s) kid key"
  by (auto simp: threads_inv_def stood_in_def)

lemma answers_stood_in:
  assumes "threads_inv lib s"
  shows "pc_inv (jt_served s) (Returned kid (fresh_answer kid (jt_cache s)))"
    and "pc_inv (jt_served s) (Returned kid (stale_answer err kid (jt_cache s)))"
  using cached_stood_in [OF assms, of kid] by (auto simp: fresh_answer_def stale_answer_def split: option.split)

lemma threads_inv_goto:
  "threads_inv lib s \<Longrightarrow> pc_inv (jt_served s) pc \<Longrightarrow> threads_inv lib (jt_goto p pc s)"
  by (simp add: threads_inv_def)

lemma threads_inv_step: "getKey_step lib p s s' \<Longrightarrow> threads_inv lib s \<Longrightarrow> threads_inv lib s'"
proof (induction rule: getKey_step.induct)
  case (hit s kid key now)
  then show ?case by (intro threads_inv_goto) (simp_all add: cached_stood_in)
next
  case (miss s kid now)
  then have "threads_inv lib (s\<lparr>jt_cache := (jt_cache s)\<lparr>jv_fetchCount := jv_fetchCount (jt_cache s) + 1\<rparr>\<rparr>)"
    by (simp add: threads_inv_def)
  then show ?case by (rule threads_inv_goto) simp
next
  case (answer s kid res ks)
  then have "threads_inv lib (s\<lparr>jt_served := jt_served s @ [ks]\<rparr>)" by (auto simp: threads_inv_def pc_inv_mono)
  then show ?case by (rule threads_inv_goto) simp
next
  case (store s kid ks now)
  then have "ks \<in> set (jt_served s)" by (metis pc_inv_simps(5) threads_inv_def)
  with store have "threads_inv lib (s\<lparr>jt_cache := store_keys ks now (jt_cache s)\<rparr>)"
    by (simp add: threads_inv_def store_keys_def)
  then show ?case by (rule threads_inv_goto) simp
qed (simp_all add: threads_inv_goto answers_stood_in)

lemma threads_inv_reach: "threads_reach lib url ttl s \<Longrightarrow> threads_inv lib s"
proof (induction rule: threads_reach.induct)
  case start
  show ?case by (simp add: threads_inv_def threads_start_def newJWKSValidator_def)
next
  case (step s p s')
  then show ?case using threads_inv_step by blast
qed

text \<open>C33: whatever the interleaving of lookups, a key served for a kid stood under that kid in one of the
  documents that the endpoint served, and the cache holds one such document whole, or nothing.\<close>

theorem threads_serve_published_keys:
  assumes "threads_reach lib url ttl s"
  shows "(\<forall>p kid key. jt_pc s p = Returned kid (Inr key) \<longrightarrow>
      (\<exists>ks \<in> set (jt_served s). map_of ks kid = Some key \<and> (\<exists>res. jwks_published lib res = Inr ks))) \<and>
    (jv_keys (jt_cache s) = [] \<or> jv_keys (jt_cache s) \<in> set (jt_served s))"
  using threads_inv_reach [OF assms] by (fastforce simp: threads_inv_def pc_inv_def stood_in_def split: getKey_pc.splits)

text \<open>C39: a slow answer brings old keys back. Refreshes are not ordered: a goroutine that received a document
  before the endpoint rotated its keys can store it after another one has stored the new document, and the
  cache then holds the old keys as fresh ones. Until they expire again a withdrawn key is served without
  asking the endpoint.\<close>

theorem late_answer_reinstates_keys:
  assumes "jwks_published lib old = Inr ks_old" and "jwks_published lib new = Inr ks_new"
    and "map_of ks_old kid = Some key" and "map_of ks_new kid = None"
  shows "\<exists>s0 s p. threads_reach lib url ttl s0 \<and> getKey_step lib p s0 s \<and> jt_served s = [ks_old, ks_new] \<and>
    fresh_answer kid (jt_cache s0) = Inl [ErrOther] \<and>
    (\<forall>inp. fi_now inp \<le> now + ttl \<longrightarrow> getKey lib inp kid (jt_cache s) = (Inr key, jt_cache s))"
proof -
  let ?miss = "\<lambda>p s. jt_goto p (Refreshing kid) (s\<lparr>jt_cache := (jt_cache s)\<lparr>jv_fetchCount := jv_fetchCount (jt_cache s) + 1\<rparr>\<rparr>)"
  let ?answer = "\<lambda>p ks s. jt_goto p (Received kid ks) (s\<lparr>jt_served := jt_served s @ [ks]\<rparr>)"
  let ?store = "\<lambda>p ks s. jt_goto p (Stored kid) (s\<lparr>jt_cache := store_keys ks now (jt_cache s)\<rparr>)"
  let ?s2 = "?miss 1 (?miss 0 (threads_start url ttl))"
  let ?s4 = "?answer 1 ks_new (?answer 0 ks_old ?s2)"
  let ?s5 = "?store 1 ks_new ?s4"
  let ?s6 = "?store 0 ks_old ?s5"
  have empty: "jv_keys (jt_cache (threads_start url ttl)) = []" by (simp add: threads_start_def newJWKSValidator_def)
  have "threads_reach lib url ttl ?s2"
    by (rule threads_reach.step [OF threads_reach.step [OF threads_reach.start miss] miss])
      (simp_all add: empty, simp_all add: threads_start_def)
  then have "threads_reach lib url ttl ?s4"
    by (rule threads_reach.step [OF threads_reach.step [OF _ answer [OF _ assms(1)]] answer [OF _ assms(2)]]) simp_all
  then have s5: "threads_reach lib url ttl ?s5" by (rule threads_reach.step [OF _ store]) simp
  have s6: "getKey_step lib 0 ?s5 ?s6" by (rule store) simp
  have "jv_ttl (jt_cache ?s6) = ttl" "jv_fetchAt (jt_cache ?s6) = Some now" "jv_keys (jt_cache ?s6) = ks_old"
    by (simp_all add: store_keys_def threads_start_def newJWKSValidator_def)
  then have "getKey lib inp kid (jt_cache ?s6) = (Inr key, jt_cache ?s6)" if "fi_now inp \<le> now + ttl" for inp
    using that assms(3) by (simp add: getKey_def jwks_expired_def)
  moreover have "jt_served ?s6 = [ks_old, ks_new]" by (simp add: threads_start_def)
  moreover have "fresh_answer kid (jt_cache ?s5) = Inl [ErrOther]" by (simp add: fresh_answer_def store_keys_def assms(4))
  ultimately show ?thesis using s5 s6 by blast
qed

lemma ex_rotated: "jwks_published ex_jwt_lib (Fetched 200 ''{}'') = Inr []"
  by (simp add: jwks_published_def ex_jwt_lib_def)

lemma late_answer_reinstates_keys_witness:
  "\<exists>s :: jwks_threads. jt_served s = [[(''k1'', ex_key)], []] \<and>
     getKey ex_jwt_lib (ex_fetch 500 FetchErr) ''k1'' (jt_cache s) = (Inr ex_key, jt_cache s)"
proof -
  have "map_of [(''k1'', ex_key)] ''k1'' = Some ex_key" "map_of [] ''k1'' = (None :: rsa_key option)" by simp_all
  note late = late_answer_reinstates_keys [OF ex_published ex_rotated this, of "''http://idp/keys''" 600 0]
  have before: "fi_now (ex_fetch 500 FetchErr) \<le> 0 + 600" by (simp add: ex_fetch_def)
  show ?thesis using late before by blast
qed

lemma threads_serve_published_keys_witness:
  "\<exists>s. threads_reach ex_jwt_lib ''http://idp/keys'' 600 s \<and> jt_pc s 0 = Returned ''k1'' (Inr ex_key) \<and>
     [(''k1'', ex_key)] \<in> set (jt_served s)"
proof -
  let ?v = "threads_start ''http://idp/keys'' 600"
  obtain s where s: "(getKey_step ex_jwt_lib 0)\<^sup>*\<^sup>* ?v s"
    "jt_pc s 0 = Returned ''k1'' (fst (getKey ex_jwt_lib (ex_fetch 5 (Fetched 200 ''k1'')) ''k1'' (jt_cache ?v)))"
    "jt_cache s = snd (getKey ex_jwt_lib (ex_fetch 5 (Fetched 200 ''k1'')) ''k1'' (jt_cache ?v))"
    using getKey_steps [where s = ?v and p = 0 and lib = ex_jwt_lib and inp = "ex_fetch 5 (Fetched 200 ''k1'')"
      and kid = "''k1''"]
    by (auto simp: threads_start_def)
  have r: "threads_reach ex_jwt_lib ''http://idp/keys'' 600 s"
    using s(1) by (induction rule: rtranclp_induct) (auto intro: threads_reach.intros)
  have g: "getKey ex_jwt_lib (ex_fetch 5 (Fetched 200 ''k1'')) ''k1'' (jt_cache ?v) =
      (Inr ex_key, (jt_cache ?v)\<lparr>jv_fetchCount := 1, jv_keys := [(''k1'', ex_key)], jv_fetchAt := Some 5\<rparr>)"
    by (simp add: threads_start_def getKey_def jwks_refresh_def ex_fetch_def ex_published newJWKSValidator_def
        jwks_expired_def Let_def)
  have "jv_keys (jt_cache s) = [(''k1'', ex_key)]" by (simp add: s(3) g)
  with threads_serve_published_keys [OF r] r s(2) g show ?thesis by auto
qed

end
