(* ===== verification/Loader.thy ===== *)
theory Loader
  imports Registry Routes
begin

text \<open>
  \<open>internal/loader/loader.go\<close>: reading the plugin list, the always-on assertion, the merge of
  the environment's JWT settings, the initialisation of the listed plugins in order, the middleware chains
  built from them, and their shutdown. The file system and the YAML decoder are the two functions of
  \<open>loader_io\<close>; an error of theirs ends the message where their text would follow. The state
  \<open>'w\<close> is where the registered plugins live.
\<close>

section \<open>Reading the plugin list\<close>

definition tokenValidatorName :: string where
  "tokenValidatorName = ''token-validator''"

record entry =
  en_name :: string
  en_cfg :: config_map

record loader_io =
  lio_readFile :: "string \<Rightarrow> string option"
  lio_yaml :: "string \<Rightarrow> config_map list option"

fun plugin_entries :: "nat \<Rightarrow> config_map list \<Rightarrow> string + entry list" where
  "plugin_entries i [] = Inr []"
| "plugin_entries i (raw # raws) =
     (let name = get_str raw ''name'' in
      if name = '''' then Inl (''plugins['' @ itoa (int i) @ '']: missing required 'name' field'')
      else and_then (plugin_entries (Suc i) raws) (\<lambda>es.
        Inr (\<lparr>en_name = name, en_cfg = filter (\<lambda>(k, v). k \<noteq> ''name'') raw\<rparr> # es)))"

definition readEntries :: "go_lib \<Rightarrow> loader_io \<Rightarrow> string \<Rightarrow> string \<Rightarrow> string + entry list" where
  "readEntries lib io pluginsPath routesPath =
     (let path = (if pluginsPath = '''' then routesPath else pluginsPath) in
      case lio_readFile io path of
        None \<Rightarrow> Inl (''loading plugins config from '' @ fmt_quote lib path @ '': '')
      | Some bytes \<Rightarrow>
          (case lio_yaml io bytes of
             None \<Rightarrow> Inl (''parsing plugins YAML in '' @ fmt_quote lib path @ '': '')
           | Some raws \<Rightarrow> plugin_entries 0 raws))"

section \<open>The always-on assertion and the environment\<close>

text \<open>\<open>en, ok := cfg["enabled"].(bool); ok && !en\<close>.\<close>

definition disabled :: "config_map \<Rightarrow> bool" where
  "disabled cfg \<longleftrightarrow> Option.bind (map_of cfg ''enabled'') bool_of = Some False"

fun assertTokenValidatorAlwaysOn :: "entry list \<Rightarrow> string option" where
  "assertTokenValidatorAlwaysOn [] = None"
| "assertTokenValidatorAlwaysOn (e # es) =
     (if en_name e \<noteq> tokenValidatorName then assertTokenValidatorAlwaysOn es
      else if disabled (en_cfg e)
      then Some (''token-validator cannot be disabled: '' @
             ''set enabled: true or remove the 'enabled: false' key from the plugins config'')
      else None)"

definition merge_key :: "string \<Rightarrow> string \<Rightarrow> config_map \<Rightarrow> config_map" where
  "merge_key k v cfg = (if map_of cfg k = None \<and> v \<noteq> '''' then al_put k (AStr v) cfg else cfg)"

fun mergeTokenValidatorEnv :: "string \<Rightarrow> string \<Rightarrow> entry list \<Rightarrow> entry list" where
  "mergeTokenValidatorEnv envSecret envJWKSURL [] = []"
| "mergeTokenValidatorEnv envSecret envJWKSURL (e # es) =
     (if en_name e \<noteq> tokenValidatorName then e # mergeTokenValidatorEnv envSecret envJWKSURL es
      else e\<lparr>en_cfg := merge_key ''jwks_url'' envJWKSURL (merge_key ''jwt_secret'' envSecret (en_cfg e))\<rparr> # es)"

section \<open>Loading\<close>

record 'w loader =
  ld_ordered :: "'w plugin list"

definition reg_by_name :: "'w plugin list \<Rightarrow> string \<Rightarrow> 'w plugin option" where
  "reg_by_name reg = map_of (rev (map (\<lambda>p. (p_Name p, p)) reg))"

fun init_plugins ::
    "go_lib \<Rightarrow> (string \<Rightarrow> 'w plugin option) \<Rightarrow> entry list \<Rightarrow> 'w \<Rightarrow> string + 'w plugin list \<times> 'w" where
  "init_plugins lib byName [] s = Inr ([], s)"
| "init_plugins lib byName (e # es) s =
     (case byName (en_name e) of
        None \<Rightarrow> init_plugins lib byName es s
      | Some p \<Rightarrow>
          (case p_Init p (NewMapConfig (Some (en_cfg e))) s of
             Inl err \<Rightarrow> Inl (''plugin '' @ fmt_quote lib (en_name e) @ '' Init failed: '' @ err)
           | Inr s \<Rightarrow> and_then (init_plugins lib byName es s) (\<lambda>(ps, s). Inr (p # ps, s))))"

definition loader_Load ::
    "go_lib \<Rightarrow> loader_io \<Rightarrow> 'w registry \<Rightarrow> string \<Rightarrow> string \<Rightarrow> string \<Rightarrow> string \<Rightarrow> 'w \<Rightarrow> string + 'w loader \<times> 'w" where
  "loader_Load lib io reg pluginsPath routesPath envSecret envJWKSURL s =
     and_then (readEntries lib io pluginsPath routesPath) (\<lambda>entries.
       case assertTokenValidatorAlwaysOn entries of
         Some err \<Rightarrow> Inl err
       | None \<Rightarrow>
           and_then
             (init_plugins lib (reg_by_name (Registered reg)) (mergeTokenValidatorEnv envSecret envJWKSURL entries) s)
             (\<lambda>(ps, s). Inr (\<lparr>ld_ordered = ps\<rparr>, s)))"

section \<open>Chains\<close>

text \<open>The loops run from the last plugin to the first, each wrapping what is there.\<close>

definition Chain :: "'w loader \<Rightarrow> 'w handler \<Rightarrow> 'w handler" where
  "Chain l next_h = fold (\<lambda>p h. p_Handler p h) (rev (ld_ordered l)) next_h"

definition route_disables :: "(string \<times> config_map) list \<Rightarrow> string \<Rightarrow> bool" where
  "route_disables overrides name \<longleftrightarrow>
     (case map_of overrides name of None \<Rightarrow> False | Some cfg \<Rightarrow> disabled cfg)"

definition ChainFor :: "'w loader \<Rightarrow> (string \<times> config_map) list \<Rightarrow> 'w handler \<Rightarrow> 'w handler" where
  "ChainFor l perRoutePlugins next_h =
     fold (\<lambda>p h. if route_disables perRoutePlugins (p_Name p) then h else p_Handler p h) (rev (ld_ordered l)) next_h"

fun ValidateRouteOverrides :: "go_lib \<Rightarrow> Route list \<Rightarrow> string option" where
  "ValidateRouteOverrides lib [] = None"
| "ValidateRouteOverrides lib (r # rs) =
     (if route_disables (rt_Plugins r) tokenValidatorName
      then Some (''route '' @ fmt_quote lib (rt_ID r) @ '': token-validator cannot be disabled per-route '')
      else ValidateRouteOverrides lib rs)"

section \<open>Shutdown\<close>

text \<open>The errors that were logged, with the plugin's name, in the order of the calls.\<close>

fun shutdown_plugins :: "ctx \<Rightarrow> 'w plugin list \<Rightarrow> 'w \<Rightarrow> (string \<times> string) list \<times> 'w" where
  "shutdown_plugins c [] s = ([], s)"
| "shutdown_plugins c (p # ps) s =
     (case p_Shutdown p c s of
        (err, s) \<Rightarrow>
          (case shutdown_plugins c ps s of
             (errs, s) \<Rightarrow> ((case err of Some e \<Rightarrow> (p_Name p, e) # errs | None \<Rightarrow> errs), s)))"

definition loader_Shutdown :: "'w loader \<Rightarrow> ctx \<Rightarrow> 'w \<Rightarrow> (string \<times> string) list \<times> 'w" where
  "loader_Shutdown l c s = shutdown_plugins c (rev (ld_ordered l)) s"

section \<open>Properties\<close>

lemma Chain_foldr: "Chain l h = foldr p_Handler (ld_ordered l) h"
  by (simp add: Chain_def foldr_conv_fold)

lemma ChainFor_filter:
  "ChainFor l ov h = foldr p_Handler (filter (\<lambda>p. \<not> route_disables ov (p_Name p)) (ld_ordered l)) h"
proof -
  have "foldr (\<lambda>p h. if route_disables ov (p_Name p) then h else p_Handler p h) ps h =
      foldr p_Handler (filter (\<lambda>p. \<not> route_disables ov (p_Name p)) ps) h" for ps
    by (induction ps) simp_all
  then show ?thesis by (simp add: ChainFor_def foldr_conv_fold)
qed

lemma ValidateRouteOverrides_None:
  "ValidateRouteOverrides lib rs = None \<longleftrightarrow> (\<forall>r \<in> set rs. \<not> route_disables (rt_Plugins r) tokenValidatorName)"
  by (induction rs) auto

text \<open>The specification of loading: the registered plugins among the entries, in order, and the state that
  their initialisations leave, one after the other.\<close>

definition init_run :: "('w plugin \<times> config_map) list \<Rightarrow> 'w \<Rightarrow> string + 'w" where
  "init_run pcs s = fold (\<lambda>(p, cfg) m. and_then m (p_Init p (NewMapConfig (Some cfg)))) pcs (Inr s)"

lemma init_run_Nil [simp]: "init_run [] s = Inr s"
  by (simp add: init_run_def)

lemma init_run_fail: "fold (\<lambda>(p, cfg) m. and_then m (p_Init p (NewMapConfig (Some cfg)))) pcs (Inl e) = Inl e"
  by (induction pcs) auto

lemma init_run_Cons: "init_run ((p, cfg) # pcs) s = and_then (p_Init p (NewMapConfig (Some cfg)) s) (init_run pcs)"
  by (cases "p_Init p (NewMapConfig (Some cfg)) s") (simp_all add: init_run_def init_run_fail)

definition listed :: "(string \<Rightarrow> 'w plugin option) \<Rightarrow> entry list \<Rightarrow> ('w plugin \<times> config_map) list" where
  "listed byName es = List.map_filter (\<lambda>e. map_option (\<lambda>p. (p, en_cfg e)) (byName (en_name e))) es"

lemma listed_simps [simp]:
  "listed byName [] = []"
  "listed byName (e # es) =
     (case byName (en_name e) of None \<Rightarrow> listed byName es | Some p \<Rightarrow> (p, en_cfg e) # listed byName es)"
  by (simp_all add: listed_def map_filter_def split: option.split)

lemma init_plugins_spec:
  "init_plugins lib byName es s = Inr (ps, s') \<longleftrightarrow>
     ps = map fst (listed byName es) \<and> init_run (listed byName es) s = Inr s'"
proof (induction es arbitrary: s ps)
  case (Cons e es)
  show ?case
  proof (cases "byName (en_name e)")
    case None
    then show ?thesis using Cons.IH by simp
  next
    case (Some p)
    show ?thesis
    proof (cases "p_Init p (NewMapConfig (Some (en_cfg e))) s")
      case (Inl err)
      then show ?thesis using Some by (simp add: init_run_Cons)
    next
      case (Inr s1)
      then show ?thesis using Some Cons.IH by (auto simp: init_run_Cons and_then_eq_Inr)
    qed
  qed
qed auto

lemma reg_by_name_distinct:
  "distinct (map p_Name reg) \<Longrightarrow> reg_by_name reg n = first_named n reg"
proof -
  assume "distinct (map p_Name reg)"
  then have "distinct (map fst (map (\<lambda>p. (p_Name p, p)) reg))" by (simp add: comp_def)
  then have "reg_by_name reg = map_of (map (\<lambda>p. (p_Name p, p)) reg)"
    unfolding reg_by_name_def by (subst map_of_inject_set) (simp_all add: rev_map [symmetric] comp_def)
  moreover have "map_of (map (\<lambda>p. (p_Name p, p)) reg) n = first_named n reg"
    by (induction reg) (simp_all add: first_named_Cons)
  ultimately show ?thesis by simp
qed

lemma loader_Load_facts:
  assumes "reg_inv reg" and "loader_Load lib io reg pluginsPath routesPath secret url s = Inr (l, s')"
  obtains entries where "readEntries lib io pluginsPath routesPath = Inr entries"
    and "assertTokenValidatorAlwaysOn entries = None"
    and "ld_ordered l = map fst (listed (\<lambda>n. first_named n (Registered reg)) (mergeTokenValidatorEnv secret url entries))"
    and "init_run (listed (\<lambda>n. first_named n (Registered reg)) (mergeTokenValidatorEnv secret url entries)) s = Inr s'"
proof -
  have by_name: "reg_by_name (Registered reg) = (\<lambda>n. first_named n (Registered reg))"
    using assms(1) by (intro ext reg_by_name_distinct) (simp add: reg_inv_def Registered_def)
  from assms(2) obtain entries ps where e: "readEntries lib io pluginsPath routesPath = Inr entries"
    "assertTokenValidatorAlwaysOn entries = None"
    and i: "init_plugins lib (reg_by_name (Registered reg)) (mergeTokenValidatorEnv secret url entries) s = Inr (ps, s')"
    and l: "l = \<lparr>ld_ordered = ps\<rparr>"
    by (auto simp: loader_Load_def and_then_eq_Inr split: option.splits)
  with i [unfolded init_plugins_spec by_name] show thesis by (intro that [of entries]) simp_all
qed

lemma Chain_listed: "ld_ordered l = map fst pcs \<Longrightarrow> Chain l h = foldr (\<lambda>(p, cfg). p_Handler p) pcs h"
  by (simp add: Chain_foldr foldr_map comp_def case_prod_beta')

text \<open>C13: loading does what the configuration declares. When it succeeds, the plugin list was read and does not
  disable the token validator; the loaded plugins are the registered ones among the listed entries, in the
  order of declaration; the state is the one that their initialisations leave in that order, each with the
  configuration of its entry (with the environment's JWT settings merged into the first token validator);
  and a request passes them in that order, the first declared outermost.\<close>

theorem loader_loads_in_order:
  assumes "reg_inv reg" and "loader_Load lib io reg pluginsPath routesPath secret url s = Inr (l, s')"
  shows "\<exists>entries. readEntries lib io pluginsPath routesPath = Inr entries \<and>
    assertTokenValidatorAlwaysOn entries = None \<and>
    (let pcs = listed (\<lambda>n. first_named n (Registered reg)) (mergeTokenValidatorEnv secret url entries) in
      init_run pcs s = Inr s' \<and> Chain l h = foldr (\<lambda>(p, cfg). p_Handler p) pcs h)"
  by (rule loader_Load_facts [OF assms]) (auto simp: Let_def Chain_listed)

text \<open>A registry of one plugin, which counts its initialisations, and a list that names it twice and an unknown
  one in between.\<close>

definition ex_load_lib :: go_lib where
  "ex_load_lib = \<lparr>url_parse = (\<lambda>u. None), url_request_uri = (\<lambda>u. False), fmt_quote = (\<lambda>s. s), json_object = (\<lambda>s. None)\<rparr>"

definition ex_counting :: "nat plugin" where
  "ex_counting = \<lparr>p_Name = ''token-validator'', p_Init = (\<lambda>cfg n. Inr (Suc n)), p_Handler = (\<lambda>h. h),
     p_Shutdown = (\<lambda>c n. (None, n))\<rparr>"

definition ex_list_io :: "config_map list \<Rightarrow> loader_io" where
  "ex_list_io raws = \<lparr>lio_readFile = (\<lambda>_. Some ''''), lio_yaml = (\<lambda>_. Some raws)\<rparr>"

abbreviation ex_counting_reg where "ex_counting_reg \<equiv> register_all [ex_counting] empty_registry"

definition ex_raws :: "config_map list" where
  "ex_raws = [[(''name'', AStr ''token-validator'')], [(''name'', AStr ''other'')], [(''name'', AStr ''token-validator'')]]"

lemma ex_counting_loads:
  "loader_Load ex_load_lib (ex_list_io ex_raws) ex_counting_reg '''' ''routes.yaml'' ''secret'' '''' 0 =
     Inr (\<lparr>ld_ordered = [ex_counting, ex_counting]\<rparr>, 2)"
proof -
  have "readEntries ex_load_lib (ex_list_io ex_raws) '''' ''routes.yaml'' =
      Inr [\<lparr>en_name = tokenValidatorName, en_cfg = []\<rparr>, \<lparr>en_name = ''other'', en_cfg = []\<rparr>,
        \<lparr>en_name = tokenValidatorName, en_cfg = []\<rparr>]"
    by code_simp
  moreover have "reg_by_name (Registered ex_counting_reg) = (\<lambda>n. if n = tokenValidatorName then Some ex_counting else None)"
    by (simp add: reg_by_name_def Registered_def register_all_def Register_def empty_registry_def ex_counting_def
        tokenValidatorName_def fun_eq_iff)
  moreover have "tokenValidatorName \<noteq> ''other''" by (simp add: tokenValidatorName_def)
  ultimately show ?thesis by (simp add: loader_Load_def disabled_def ex_counting_def)
qed

lemma loader_loads_in_order_witness:
  "\<exists>entries. readEntries ex_load_lib (ex_list_io ex_raws) '''' ''routes.yaml'' = Inr entries \<and>
     init_run (listed (\<lambda>n. first_named n (Registered ex_counting_reg)) (mergeTokenValidatorEnv ''secret'' '''' entries)) 0 = Inr 2"
  using loader_loads_in_order [OF reg_inv_all [OF reg_inv_empty] ex_counting_loads] by (auto simp: Let_def)

text \<open>Nothing requires the token validator to be listed. With a plugin list that does not name it the
  gateway loads, and the chain it builds is without authentication: with an empty list, the chain is the
  dispatcher itself.\<close>

lemma unlisted_validator_loads_open:
  assumes "readEntries lib io pluginsPath routesPath = Inr []"
  shows "\<exists>l. loader_Load lib io reg pluginsPath routesPath secret url s = Inr (l, s) \<and> (\<forall>h. Chain l h = h)"
  using assms by (simp add: loader_Load_def Chain_def)

lemma unlisted_validator_loads_open_witness:
  "\<exists>l. loader_Load ex_load_lib (ex_list_io []) ex_counting_reg '''' ''routes.yaml'' ''secret'' '''' 0 = Inr (l, 0) \<and>
     (\<forall>h. Chain l h = h)"
  by (rule unlisted_validator_loads_open) (simp add: readEntries_def ex_list_io_def)

text \<open>C21: a route's overrides remove from its chain exactly the plugins they disable, and never the token
  validator when the routes passed the boot check: \<open>ChainFor\<close> is the chain of the remaining
  plugins in order, and without disabling overrides it is \<open>Chain\<close>.\<close>

theorem route_chain_keeps_validator:
  assumes "ValidateRouteOverrides lib routes = None" and "route \<in> set routes"
  shows "ChainFor l (rt_Plugins route) h =
      foldr p_Handler (filter (\<lambda>p. \<not> route_disables (rt_Plugins route) (p_Name p)) (ld_ordered l)) h \<and>
    (\<forall>p \<in> set (ld_ordered l). p_Name p = tokenValidatorName \<longrightarrow>
      p \<in> set (filter (\<lambda>p. \<not> route_disables (rt_Plugins route) (p_Name p)) (ld_ordered l))) \<and>
    ((\<forall>p \<in> set (ld_ordered l). \<not> route_disables (rt_Plugins route) (p_Name p)) \<longrightarrow>
      ChainFor l (rt_Plugins route) h = Chain l h)"
proof -
  have "\<not> route_disables (rt_Plugins route) tokenValidatorName"
    using assms by (simp add: ValidateRouteOverrides_None)
  moreover have "filter P ps = ps" if "\<forall>p \<in> set ps. P p" for P and ps :: "'a plugin list"
    using that by (induction ps) auto
  ultimately show ?thesis by (auto simp: ChainFor_filter Chain_foldr)
qed

lemma route_chain_keeps_validator_witness:
  "ChainFor \<lparr>ld_ordered = [ex_counting]\<rparr> [(''cors'', [(''enabled'', ABool False)])] =
     Chain \<lparr>ld_ordered = [ex_counting]\<rparr>"
proof
  fix h
  let ?route = "\<lparr>rt_ID = ''a'', rt_Method = ''GET'', rt_Path = ''/a'', rt_Target = ''http://a'', rt_Roles = [],
    rt_TenantRequired = False, rt_Audit = False, rt_Mode = '''', rt_ExecutionTimeoutSeconds = 0,
    rt_Plugins = [(''cors'', [(''enabled'', ABool False)])], rt_PathParams = []\<rparr>"
  have "ValidateRouteOverrides ex_load_lib [?route] = None"
    by (simp add: route_disables_def tokenValidatorName_def)
  note kept = route_chain_keeps_validator [OF this, of ?route "\<lparr>ld_ordered = [ex_counting]\<rparr>" h]
  have "ChainFor \<lparr>ld_ordered = [ex_counting]\<rparr> (rt_Plugins ?route) h = Chain \<lparr>ld_ordered = [ex_counting]\<rparr> h"
    by (rule mp [OF conjunct2 [OF conjunct2 [OF kept]]]) (simp_all add: route_disables_def ex_counting_def)
  then show "ChainFor \<lparr>ld_ordered = [ex_counting]\<rparr> [(''cors'', [(''enabled'', ABool False)])] h =
      Chain \<lparr>ld_ordered = [ex_counting]\<rparr> h"
    by simp
qed

text \<open>Every plugin is shut down, in the reverse of the declaration order, whatever errors occur.\<close>

lemma shutdown_all:
  "snd (loader_Shutdown l c s) = fold (\<lambda>p s. snd (p_Shutdown p c s)) (rev (ld_ordered l)) s"
proof -
  have "snd (shutdown_plugins c ps s) = fold (\<lambda>p s. snd (p_Shutdown p c s)) ps s" for ps
    by (induction ps arbitrary: s) (simp_all add: case_prod_beta')
  then show ?thesis by (simp add: loader_Shutdown_def)
qed

lemma Chain_middleware:
  "(\<And>p. p \<in> set (ld_ordered l) \<Longrightarrow> middleware (p_Handler p)) \<Longrightarrow> middleware (Chain l)"
proof -
  assume "\<And>p. p \<in> set (ld_ordered l) \<Longrightarrow> middleware (p_Handler p)"
  then have "middleware (\<lambda>h. foldr (\<lambda>m. m) (map p_Handler (ld_ordered l)) h)"
    by (intro middleware_foldr) auto
  then show ?thesis by (simp add: Chain_foldr [abs_def] foldr_map comp_def)
qed

end
