(* ===== verification/Tenant.thy ===== *)
theory Tenant
  imports Response
begin

text \<open>
  \<open>internal/tenant/tenant.go\<close>: the middleware that fills the request context from the headers,
  the check that a route's tenant is known, and the headers that identify tenant and actor to the
  upstream service. The gateway uses the last two; it does not wire \<open>ContextMiddleware\<close>, so in
  the running program the context holds what the plugins put there.
\<close>

section \<open>ContextMiddleware\<close>

text \<open>The random bytes that the two calls of \<open>NewUUID\<close> read.\<close>

record tenant_inputs =
  tn_rndCorr :: "8 word list"
  tn_rndReq :: "8 word list"

definition ctx_corrID :: "tenant_inputs \<Rightarrow> http_request \<Rightarrow> string" where
  "ctx_corrID inp r =
     (if req_header r ''X-Correlation-ID'' = '''' then NewUUID (tn_rndCorr inp) else req_header r ''X-Correlation-ID'')"

definition populated_ctx :: "tenant_inputs \<Rightarrow> http_request \<Rightarrow> ctx" where
  "populated_ctx inp r =
     (let corrID = ctx_corrID inp r;
          reqID = NewUUID (tn_rndReq inp);
          tenantID = req_header r ''X-Tenant-ID'';
          (actorSubject, actorRoles) =
            (case AuthClaims (r_ctx r) of Some claims \<Rightarrow> (Subject claims, Roles claims) | None \<Rightarrow> ([], []));
          c = WithCorrelationID (r_ctx r) corrID;
          c = WithRequestID c reqID;
          c = WithTenantID c tenantID;
          c = WithActorSubject c actorSubject
      in WithActorRoles c actorRoles)"

definition context_decide :: "tenant_inputs \<Rightarrow> unit decision" where
  "context_decide inp r w u =
     (let c = populated_ctx inp r;
          w = set_header ''X-Correlation-ID'' (ctx_corrID inp r) w;
          w = set_header ''X-Request-ID'' (NewUUID (tn_rndReq inp)) w
      in (Next (with_context r c) w, u))"

definition ContextMiddleware :: "tenant_inputs \<Rightarrow> 'w handler \<Rightarrow> 'w handler" where
  "ContextMiddleware inp = middleware_of (\<lambda>_. ()) (\<lambda>_ s. s) (context_decide inp)"

section \<open>EnforceTenant\<close>

definition tenant_decide :: "bool \<Rightarrow> unit decision" where
  "tenant_decide tenantRequired r w u =
     (if tenantRequired \<and> TenantID (r_ctx r) = '''' then
        (Respond (WriteError w 403
           \<lparr>ErrType = ''forbidden'', Code = ''TENANT_REQUIRED'', Message = ''route requires X-Tenant-ID header'',
            RetryAfter = 0, Trace = trace_of (CorrelationID (r_ctx r)) (RequestID (r_ctx r)) ''''\<rparr>), u)
      else (Next r w, u))"

definition EnforceTenant :: "bool \<Rightarrow> 'w handler \<Rightarrow> 'w handler" where
  "EnforceTenant tenantRequired = middleware_of (\<lambda>_. ()) (\<lambda>_ s. s) (tenant_decide tenantRequired)"

interpretation context_mw: middleware "ContextMiddleware inp" for inp
  unfolding ContextMiddleware_def by (rule middleware_middleware_of)

interpretation enforce_mw: middleware "EnforceTenant tenantRequired" for tenantRequired
  unfolding EnforceTenant_def by (rule middleware_middleware_of)

lemma EnforceTenant_apply [mw_simps]:
  "EnforceTenant tenantRequired h r w s =
     (if tenantRequired \<and> TenantID (r_ctx r) = '''' then
        (WriteError w 403
           \<lparr>ErrType = ''forbidden'', Code = ''TENANT_REQUIRED'', Message = ''route requires X-Tenant-ID header'',
            RetryAfter = 0, Trace = trace_of (CorrelationID (r_ctx r)) (RequestID (r_ctx r)) ''''\<rparr>, s)
      else h r w s)"
  by (simp add: EnforceTenant_def middleware_of_def tenant_decide_def)

section \<open>InjectUpstreamHeaders\<close>

definition InjectUpstreamHeaders :: "http_request \<Rightarrow> http_request" where
  "InjectUpstreamHeaders r0 =
     (let c = r_ctx r0;
          r = (if TenantID c \<noteq> '''' then set_req_header ''X-Tenant-ID'' (TenantID c) r0 else r0);
          r = (if ActorSubject c \<noteq> '''' then set_req_header ''X-Actor-Subject'' (ActorSubject c) r else r);
          r = (if ActorRoles c \<noteq> [] then set_req_header ''X-Actor-Roles'' (join '','' (ActorRoles c)) r else r);
          r = set_req_header ''X-Correlation-ID'' (CorrelationID c) r
      in set_req_header ''X-Request-ID'' (RequestID c) r)"

lemma upstream_header_names:
  "canon ''X-Tenant-ID'' = ''X-Tenant-Id''" "canon ''X-Actor-Subject'' = ''X-Actor-Subject''"
  "canon ''X-Actor-Roles'' = ''X-Actor-Roles''" "canon ''X-Correlation-ID'' = ''X-Correlation-Id''"
  "canon ''X-Request-ID'' = ''X-Request-Id''" "canon ''Connection'' = ''Connection''"
  "canon ''X-Correlation-Id'' = ''X-Correlation-Id''" "canon ''X-Request-Id'' = ''X-Request-Id''"
  by code_simp+

lemma InjectUpstreamHeaders_fields [simp]:
  "r_ctx (InjectUpstreamHeaders r) = r_ctx r" "r_method (InjectUpstreamHeaders r) = r_method r"
  "r_path (InjectUpstreamHeaders r) = r_path r" "r_query (InjectUpstreamHeaders r) = r_query r"
  "r_body (InjectUpstreamHeaders r) = r_body r"
  by (simp_all add: InjectUpstreamHeaders_def Let_def)

text \<open>What each identity header is afterwards: the context's value, or the one the client sent where the
  context has none. The two trace headers are always the context's.\<close>

lemma InjectUpstreamHeaders_headers:
  "req_header (InjectUpstreamHeaders r) ''X-Tenant-ID'' =
     (if TenantID (r_ctx r) \<noteq> '''' then TenantID (r_ctx r) else req_header r ''X-Tenant-ID'')"
  "req_header (InjectUpstreamHeaders r) ''X-Actor-Subject'' =
     (if ActorSubject (r_ctx r) \<noteq> '''' then ActorSubject (r_ctx r) else req_header r ''X-Actor-Subject'')"
  "req_header (InjectUpstreamHeaders r) ''X-Actor-Roles'' =
     (if ActorRoles (r_ctx r) \<noteq> [] then join '','' (ActorRoles (r_ctx r)) else req_header r ''X-Actor-Roles'')"
  "req_header (InjectUpstreamHeaders r) ''X-Correlation-ID'' = CorrelationID (r_ctx r)"
  "req_header (InjectUpstreamHeaders r) ''X-Request-ID'' = RequestID (r_ctx r)"
  by (simp_all add: InjectUpstreamHeaders_def Let_def header_simps upstream_header_names)

section \<open>Composition\<close>

text \<open>The context that \<open>ContextMiddleware\<close> hands on.\<close>

lemma populated_ctx_reads:
  "TenantID (populated_ctx inp r) = req_header r ''X-Tenant-ID''"
  "RequestID (populated_ctx inp r) = NewUUID (tn_rndReq inp)"
  "CorrelationID (populated_ctx inp r) =
     (if req_header r ''X-Correlation-ID'' = [] then NewUUID (tn_rndCorr inp) else req_header r ''X-Correlation-ID'')"
  "CorrelationID (populated_ctx inp r) = ctx_corrID inp r"
  "ActorSubject (populated_ctx inp r) = (case AuthClaims (r_ctx r) of Some cl \<Rightarrow> Subject cl | None \<Rightarrow> [])"
  "ActorRoles (populated_ctx inp r) = (case AuthClaims (r_ctx r) of Some cl \<Rightarrow> Roles cl | None \<Rightarrow> [])"
  by (cases "AuthClaims (r_ctx r)"; simp add: populated_ctx_def ctx_corrID_def Let_def ctx_simps)+

text \<open>In the documented order, a route that requires a tenant calls its handler exactly when the client named
  one, with the ids in the context.\<close>

lemma context_then_enforce:
  "ContextMiddleware inp (EnforceTenant True h) r w s =
     (let c = populated_ctx inp r;
          w = set_header ''X-Request-ID'' (RequestID c) (set_header ''X-Correlation-ID'' (CorrelationID c) w)
      in if req_header r ''X-Tenant-ID'' = [] then EnforceTenant True h (with_context r c) w s
      else h (with_context r c) w s)"
  by (simp add: ContextMiddleware_def middleware_of_def context_decide_def Let_def mw_simps populated_ctx_reads(1,2,4))

end
