(* ===== verification/Metrics.thy ===== *)
theory Metrics
  imports Response "HOL-Library.Multiset"
begin

text \<open>
  \<open>internal/metrics/metrics.go\<close>: the table of request counts and latency sums, and its
  Prometheus text. The maps are association lists, whose order stands for Go's order of iteration: the
  text does not depend on it, because the keys are sorted first. The latencies that the gateway records
  are whole milliseconds, so a sum is an \<open>int\<close> (a float64 holds them exactly up to
  \<open>2 ^ 53\<close> ms). The first section holds what this table and the one of \<open>internal/llm\<close>
  share.
\<close>

section \<open>Counters and sorted tables\<close>

text \<open>\<open>m[k] += d\<close> on a map of counters; a missing key reads as zero.\<close>

definition cnt_get :: "('k \<times> int) list \<Rightarrow> 'k \<Rightarrow> int" where
  "cnt_get m k = (case map_of m k of None \<Rightarrow> 0 | Some n \<Rightarrow> n)"

definition cnt_inc :: "'k \<Rightarrow> ('k \<times> int) list \<Rightarrow> ('k \<times> int) list" where
  "cnt_inc k m = al_put k (wrap64 (cnt_get m k + 1)) m"

text \<open>One line per key of a map, in the order of the keys.\<close>

definition sorted_lines :: "('k :: linorder \<Rightarrow> int \<Rightarrow> string) \<Rightarrow> ('k \<times> int) list \<Rightarrow> string" where
  "sorted_lines line m = concat (map (\<lambda>k. line k (cnt_get m k)) (sort (map fst m)))"

lemma cnt_get_put: "cnt_get (al_put k v m) k' = (if k' = k then v else cnt_get m k')"
  by (simp add: cnt_get_def)

lemma cnt_get_del: "cnt_get (al_del k m) k' = (if k' = k then 0 else cnt_get m k')"
  by (simp add: cnt_get_def)

lemma cnt_get_Nil [simp]: "cnt_get [] k = 0"
  by (simp add: cnt_get_def)

lemma cnt_inc_simps:
  "cnt_get (cnt_inc k m) k' = (if k' = k then wrap64 (cnt_get m k + 1) else cnt_get m k')"
  "fst ` set (cnt_inc k m) = insert k (fst ` set m)"
  "al_distinct m \<Longrightarrow> al_distinct (cnt_inc k m)"
  by (simp_all add: cnt_inc_def cnt_get_put)

text \<open>The keys of a map in order are a function of the set of its keys.\<close>

lemma sort_keys_eq:
  fixes m m' :: "('k :: linorder \<times> int) list"
  assumes "al_distinct m" and "al_distinct m'" and "fst ` set m = fst ` set m'"
  shows "sort (map fst m) = sort (map fst m')"
proof -
  have "sort (map fst ps) = sorted_list_of_set (fst ` set ps)" if "al_distinct ps" for ps :: "('k \<times> int) list"
    using that sorted_list_of_set_sort_remdups [of "map fst ps"]
    by (simp add: al_distinct_def distinct_remdups_id)
  then show ?thesis using assms by simp
qed

lemma sorted_lines_eq:
  assumes "al_distinct m" and "al_distinct m'" and "fst ` set m = fst ` set m'"
    and "\<And>k. cnt_get m k = cnt_get m' k"
  shows "sorted_lines line m = sorted_lines line m'"
  using assms(4) by (simp add: sorted_lines_def sort_keys_eq [OF assms(1-3)])

section \<open>Label keys\<close>

text \<open>\<open>labelKey\<close>, in the order of the comparison that \<open>sort.Slice\<close> is given.\<close>

datatype label_key = LabelKey (lk_route: string) (lk_status: string)

definition label_before :: "label_key \<Rightarrow> label_key \<Rightarrow> bool" where
  "label_before a b \<longleftrightarrow>
     (if lk_route a \<noteq> lk_route b then lk_route a < lk_route b else lk_status a < lk_status b)"

instantiation label_key :: linorder
begin

definition less_label_key :: "label_key \<Rightarrow> label_key \<Rightarrow> bool" where
  "a < b \<longleftrightarrow> label_before a b"

definition less_eq_label_key :: "label_key \<Rightarrow> label_key \<Rightarrow> bool" where
  "less_eq_label_key a b \<longleftrightarrow> a < b \<or> a = (b :: label_key)"

instance
proof
  fix x y z :: label_key
  show "(x < y) = (x \<le> y \<and> \<not> y \<le> x)" and "x \<le> x"
    by (auto simp: less_label_key_def label_before_def less_eq_label_key_def split: if_splits)
  show "x \<le> y \<Longrightarrow> y \<le> z \<Longrightarrow> x \<le> z"
    by (auto simp: less_label_key_def label_before_def less_eq_label_key_def split: if_splits)
  show "x \<le> y \<Longrightarrow> y \<le> x \<Longrightarrow> x = y"
    by (auto simp: less_label_key_def label_before_def less_eq_label_key_def split: if_splits)
  show "x \<le> y \<or> y \<le> x"
    by (cases x; cases y) (auto simp: less_label_key_def label_before_def less_eq_label_key_def)
qed

end

section \<open>The registry\<close>

record metrics_registry =
  mr_counts :: "(label_key \<times> int) list"
  mr_latencySum :: "(string \<times> int) list"

definition metrics_New :: metrics_registry where
  "metrics_New = \<lparr>mr_counts = [], mr_latencySum = []\<rparr>"

definition Record :: "string \<Rightarrow> int \<Rightarrow> int \<Rightarrow> metrics_registry \<Rightarrow> metrics_registry" where
  "Record routeID statusCode latencyMS r =
     r\<lparr>mr_counts := cnt_inc (LabelKey routeID (itoa statusCode)) (mr_counts r),
       mr_latencySum := al_put routeID (cnt_get (mr_latencySum r) routeID + latencyMS) (mr_latencySum r)\<rparr>"

abbreviation nl :: string where "nl \<equiv> [CHR 10]"

definition WritePrometheus :: "go_lib \<Rightarrow> metrics_registry \<Rightarrow> string" where
  "WritePrometheus lib r =
     ''# HELP yaagents_gateway_requests_total Total proxied requests by route and HTTP status'' @ nl @
     ''# TYPE yaagents_gateway_requests_total counter'' @ nl @
     sorted_lines (\<lambda>k n. ''yaagents_gateway_requests_total{route='' @ fmt_quote lib (lk_route k) @
       '',status='' @ fmt_quote lib (lk_status k) @ ''} '' @ itoa n @ nl) (mr_counts r) @
     ''# HELP yaagents_gateway_request_duration_ms_total Total request latency in milliseconds by route'' @ nl @
     ''# TYPE yaagents_gateway_request_duration_ms_total counter'' @ nl @
     sorted_lines (\<lambda>rid n. ''yaagents_gateway_request_duration_ms_total{route='' @ fmt_quote lib rid @
       ''} '' @ itoa n @ ''.000'' @ nl) (mr_latencySum r)"

definition metrics_Handler :: "go_lib \<Rightarrow> metrics_registry \<Rightarrow> writer \<Rightarrow> writer" where
  "metrics_Handler lib r w =
     Write (WritePrometheus lib r)
       (WriteHeader 200 (set_header ''Content-Type'' ''text/plain; version=0.0.4; charset=utf-8'' w))"

section \<open>Observations\<close>

text \<open>An observation is a route, a status and a latency; \<open>record_all\<close> records a list of them.\<close>

type_synonym observation = "string \<times> int \<times> int"

definition record_all :: "observation list \<Rightarrow> metrics_registry \<Rightarrow> metrics_registry" where
  "record_all obs r = fold (\<lambda>(rid, st, ms). Record rid st ms) obs r"

definition mr_count :: "metrics_registry \<Rightarrow> string \<Rightarrow> int \<Rightarrow> int" where
  "mr_count r rid st = cnt_get (mr_counts r) (LabelKey rid (itoa st))"

definition mr_inv :: "metrics_registry \<Rightarrow> bool" where
  "mr_inv r \<longleftrightarrow> al_distinct (mr_counts r) \<and> al_distinct (mr_latencySum r)"

definition obs_key :: "observation \<Rightarrow> label_key" where
  "obs_key ob = LabelKey (fst ob) (itoa (fst (snd ob)))"

lemma record_all_Nil [simp]: "record_all [] r = r"
  by (simp add: record_all_def)

lemma record_all_snoc:
  "record_all (obs @ [(rid, st, ms)]) r = Record rid st ms (record_all obs r)"
  by (simp add: record_all_def)

lemma mr_inv_Record [simp]: "mr_inv r \<Longrightarrow> mr_inv (Record rid st ms r)"
  by (simp add: mr_inv_def Record_def cnt_inc_simps)

lemma wrap64_add1: "wrap64 (wrap64 x + 1) = wrap64 (x + 1)"
  "wrap64 (1 + wrap64 x) = wrap64 (1 + x)"
  by (simp_all add: wrap64_def mod_simps algebra_simps)

text \<open>What the tables hold after a list of observations, as functions of the list's multiset.\<close>

lemma record_all_tables:
  "mr_inv (record_all obs metrics_New) \<and>
   fst ` set (mr_counts (record_all obs metrics_New)) = obs_key ` set obs \<and>
   fst ` set (mr_latencySum (record_all obs metrics_New)) = fst ` set obs \<and>
   cnt_get (mr_counts (record_all obs metrics_New)) k = wrap64 (int (length (filter (\<lambda>ob. obs_key ob = k) obs))) \<and>
   cnt_get (mr_latencySum (record_all obs metrics_New)) rid =
     sum_list (map (\<lambda>(_, _, ms). ms) (filter (\<lambda>ob. fst ob = rid) obs))"
proof (induction obs rule: rev_induct)
  case Nil
  show ?case by (simp add: metrics_New_def mr_inv_def wrap64_def)
next
  case (snoc ob obs)
  obtain i st ms where ob: "ob = (i, st, ms)" by (cases ob)
  show ?case
    using snoc.IH
    by (simp add: ob record_all_snoc mr_inv_def)
      (auto simp: Record_def cnt_inc_simps cnt_get_put obs_key_def wrap64_add1 add.commute)
qed

section \<open>Properties\<close>

lemma mset_filter_length: "mset xs = mset ys \<Longrightarrow> length (filter P xs) = length (filter P ys)"
  by (metis mset_filter size_mset)

lemma mset_filter_sum:
  fixes f :: "'a \<Rightarrow> int"
  assumes "mset xs = mset ys"
  shows "sum_list (map f (filter P xs)) = sum_list (map f (filter P ys))"
proof -
  have "mset (map f (filter P xs)) = mset (map f (filter P ys))" using assms by simp
  then show ?thesis by (metis sum_mset_sum_list)
qed

text \<open>C24: the metrics text is a function of the observations that were recorded, not of the order in
  which concurrent requests recorded them nor of the order in which Go iterates over a map; and every
  counter in it is the number of observations of its route and status (as an int64).\<close>

theorem metrics_order_independent:
  assumes "mset obs = mset obs'"
  shows "WritePrometheus lib (record_all obs metrics_New) = WritePrometheus lib (record_all obs' metrics_New) \<and>
    mr_count (record_all obs metrics_New) rid st =
      wrap64 (int (length (filter (\<lambda>ob. fst ob = rid \<and> itoa (fst (snd ob)) = itoa st) obs)))"
proof -
  note t = record_all_tables [where obs = obs] record_all_tables [where obs = obs']
  have s: "set obs = set obs'" using assms by (metis set_mset_mset)
  have "sorted_lines line (mr_counts (record_all obs metrics_New)) =
      sorted_lines line (mr_counts (record_all obs' metrics_New))" for line
    by (rule sorted_lines_eq) (use t s mset_filter_length [OF assms] in \<open>simp_all add: mr_inv_def\<close>)
  moreover have "sorted_lines line (mr_latencySum (record_all obs metrics_New)) =
      sorted_lines line (mr_latencySum (record_all obs' metrics_New))" for line
    by (rule sorted_lines_eq) (use t s mset_filter_sum [OF assms] in \<open>simp_all add: mr_inv_def\<close>)
  ultimately show ?thesis
    using t(1) [of "LabelKey rid (itoa st)"] by (simp add: WritePrometheus_def mr_count_def obs_key_def)
qed

lemma metrics_order_independent_witness:
  "mr_count (record_all [(''a'', 200, 3), (''b'', 404, 1), (''a'', 200, 2)] metrics_New) ''a'' 200 = 2"
proof -
  have "itoa 200 = ''200''" "itoa 404 = ''404''" by code_simp+
  then show ?thesis
    using metrics_order_independent [of "[(''a'', 200, 3), (''b'', 404, 1), (''a'', 200, 2)]"
      "[(''b'', 404, 1), (''a'', 200, 2), (''a'', 200, 3)]" undefined "''a''" 200]
    by (simp add: wrap64_def)
qed

end
