(* ===== verification/SseMetrics.thy ===== *)
theory SseMetrics
  imports Metrics
begin

text \<open>
  \<open>internal/llm/metrics.go\<close>: the gauge of active SSE connections and the error counters, per
  tenant and route, with their Prometheus text. The methods hold the lock from start to end, so they run
  one at a time.
\<close>

section \<open>Keys\<close>

datatype active_key = ActiveKey (ak_tenantID: string) (ak_routeID: string)

datatype error_key = ErrorKey (ek_tenantID: string) (ek_routeID: string) (ek_errorKind: string)

definition active_before :: "active_key \<Rightarrow> active_key \<Rightarrow> bool" where
  "active_before a b \<longleftrightarrow>
     (if ak_tenantID a \<noteq> ak_tenantID b then ak_tenantID a < ak_tenantID b else ak_routeID a < ak_routeID b)"

instantiation active_key :: linorder
begin

definition less_active_key :: "active_key \<Rightarrow> active_key \<Rightarrow> bool" where
  "a < b \<longleftrightarrow> active_before a b"

definition less_eq_active_key :: "active_key \<Rightarrow> active_key \<Rightarrow> bool" where
  "less_eq_active_key a b \<longleftrightarrow> a < b \<or> a = (b :: active_key)"

instance
proof
  fix x y z :: active_key
  show "(x < y) = (x \<le> y \<and> \<not> y \<le> x)" and "x \<le> x"
    by (auto simp: less_active_key_def active_before_def less_eq_active_key_def split: if_splits)
  show "x \<le> y \<Longrightarrow> y \<le> z \<Longrightarrow> x \<le> z"
    by (auto simp: less_active_key_def active_before_def less_eq_active_key_def split: if_splits)
  show "x \<le> y \<Longrightarrow> y \<le> x \<Longrightarrow> x = y"
    by (auto simp: less_active_key_def active_before_def less_eq_active_key_def split: if_splits)
  show "x \<le> y \<or> y \<le> x"
    by (cases x; cases y) (auto simp: less_active_key_def active_before_def less_eq_active_key_def)
qed

end

definition error_before :: "error_key \<Rightarrow> error_key \<Rightarrow> bool" where
  "error_before a b \<longleftrightarrow>
     (if ek_tenantID a \<noteq> ek_tenantID b then ek_tenantID a < ek_tenantID b
      else if ek_routeID a \<noteq> ek_routeID b then ek_routeID a < ek_routeID b
      else ek_errorKind a < ek_errorKind b)"

instantiation error_key :: linorder
begin

definition less_error_key :: "error_key \<Rightarrow> error_key \<Rightarrow> bool" where
  "a < b \<longleftrightarrow> error_before a b"

definition less_eq_error_key :: "error_key \<Rightarrow> error_key \<Rightarrow> bool" where
  "less_eq_error_key a b \<longleftrightarrow> a < b \<or> a = (b :: error_key)"

instance
proof
  fix x y z :: error_key
  show "(x < y) = (x \<le> y \<and> \<not> y \<le> x)" and "x \<le> x"
    by (auto simp: less_error_key_def error_before_def less_eq_error_key_def split: if_splits)
  show "x \<le> y \<Longrightarrow> y \<le> z \<Longrightarrow> x \<le> z"
    by (auto simp: less_error_key_def error_before_def less_eq_error_key_def split: if_splits)
  show "x \<le> y \<Longrightarrow> y \<le> x \<Longrightarrow> x = y"
    by (auto simp: less_error_key_def error_before_def less_eq_error_key_def split: if_splits)
  show "x \<le> y \<or> y \<le> x"
    by (cases x; cases y) (auto simp: less_error_key_def error_before_def less_eq_error_key_def)
qed

end

section \<open>The tables\<close>

record sse_metrics =
  sm_active :: "(active_key \<times> int) list"
  sm_errors :: "(error_key \<times> int) list"

definition NewSSEMetrics :: sse_metrics where
  "NewSSEMetrics = \<lparr>sm_active = [], sm_errors = []\<rparr>"

definition sse_Inc :: "string \<Rightarrow> string \<Rightarrow> sse_metrics \<Rightarrow> sse_metrics" where
  "sse_Inc tenantID routeID m = m\<lparr>sm_active := cnt_inc (ActiveKey tenantID routeID) (sm_active m)\<rparr>"

definition sse_Dec :: "string \<Rightarrow> string \<Rightarrow> sse_metrics \<Rightarrow> sse_metrics" where
  "sse_Dec tenantID routeID m =
     (let k = ActiveKey tenantID routeID; v = wrap64 (cnt_get (sm_active m) k - 1) in
      if v \<le> 0 then m\<lparr>sm_active := al_del k (sm_active m)\<rparr>
      else m\<lparr>sm_active := al_put k v (sm_active m)\<rparr>)"

definition sse_Error :: "string \<Rightarrow> string \<Rightarrow> string \<Rightarrow> sse_metrics \<Rightarrow> sse_metrics" where
  "sse_Error tenantID routeID errorKind m =
     m\<lparr>sm_errors := cnt_inc (ErrorKey tenantID routeID errorKind) (sm_errors m)\<rparr>"

definition ActiveCount :: "string \<Rightarrow> string \<Rightarrow> sse_metrics \<Rightarrow> int" where
  "ActiveCount tenantID routeID m = cnt_get (sm_active m) (ActiveKey tenantID routeID)"

definition ErrorCount :: "string \<Rightarrow> string \<Rightarrow> string \<Rightarrow> sse_metrics \<Rightarrow> int" where
  "ErrorCount tenantID routeID kind m = cnt_get (sm_errors m) (ErrorKey tenantID routeID kind)"

definition sse_WritePrometheus :: "go_lib \<Rightarrow> sse_metrics \<Rightarrow> string" where
  "sse_WritePrometheus lib m =
     ''# HELP yaagents_gateway_sse_connections_active Active concurrent SSE connections by tenant and route'' @ nl @
     ''# TYPE yaagents_gateway_sse_connections_active gauge'' @ nl @
     sorted_lines (\<lambda>k n. ''yaagents_gateway_sse_connections_active{tenant_id='' @ fmt_quote lib (ak_tenantID k) @
       '',route_id='' @ fmt_quote lib (ak_routeID k) @ ''} '' @ itoa n @ nl) (sm_active m) @
     ''# HELP yaagents_gateway_sse_errors_total SSE error events by tenant, route, and error kind'' @ nl @
     ''# TYPE yaagents_gateway_sse_errors_total counter'' @ nl @
     sorted_lines (\<lambda>k n. ''yaagents_gateway_sse_errors_total{tenant_id='' @ fmt_quote lib (ek_tenantID k) @
       '',route_id='' @ fmt_quote lib (ek_routeID k) @ '',error_kind='' @ fmt_quote lib (ek_errorKind k) @ ''} '' @
       itoa n @ nl) (sm_errors m)"

section \<open>The gauge\<close>

text \<open>The table keeps no series at zero or below, and its values are int64.\<close>

definition sm_inv :: "sse_metrics \<Rightarrow> bool" where
  "sm_inv m \<longleftrightarrow> al_distinct (sm_active m) \<and> al_distinct (sm_errors m) \<and>
     (\<forall>(k, n) \<in> set (sm_active m). 0 < n \<and> n \<le> int64_max)"

text \<open>What the gauge promises: the number of open streams of each tenant and route. A history of opens
  and closes is an abstract counter.\<close>

datatype sse_event = Opened string string | Closed string string | Failed string string string

fun sse_apply :: "sse_event \<Rightarrow> sse_metrics \<Rightarrow> sse_metrics" where
  "sse_apply (Opened t r) m = sse_Inc t r m"
| "sse_apply (Closed t r) m = sse_Dec t r m"
| "sse_apply (Failed t r k) m = sse_Error t r k m"

definition sse_run :: "sse_event list \<Rightarrow> sse_metrics" where
  "sse_run evs = fold sse_apply evs NewSSEMetrics"

definition open_streams :: "sse_event list \<Rightarrow> string \<Rightarrow> string \<Rightarrow> int" where
  "open_streams evs t r = int (count_list evs (Opened t r)) - int (count_list evs (Closed t r))"

text \<open>Every close comes after its open: no prefix closes more than it opened.\<close>

definition closes_follow_opens :: "sse_event list \<Rightarrow> bool" where
  "closes_follow_opens evs \<longleftrightarrow> (\<forall>n t r. 0 \<le> open_streams (take n evs) t r)"

lemma sse_run_snoc: "sse_run (evs @ [ev]) = sse_apply ev (sse_run evs)"
  by (simp add: sse_run_def)

lemma closes_follow_opens_snoc:
  "closes_follow_opens (evs @ [ev]) \<Longrightarrow> closes_follow_opens evs \<and> 0 \<le> open_streams (evs @ [ev]) t r"
proof (intro conjI)
  assume a: "closes_follow_opens (evs @ [ev])"
  show "closes_follow_opens evs"
    unfolding closes_follow_opens_def
  proof (intro allI)
    fix n t r
    have "0 \<le> open_streams (take (min n (length evs)) (evs @ [ev])) t r"
      using a by (simp only: closes_follow_opens_def)
    then show "0 \<le> open_streams (take n evs) t r" by (simp add: min_def split: if_splits)
  qed
  have "0 \<le> open_streams (take (length evs + 1) (evs @ [ev])) t r"
    using a by (simp only: closes_follow_opens_def)
  then show "0 \<le> open_streams (evs @ [ev]) t r" by simp
qed

lemma closes_follow_opens_nonneg: "closes_follow_opens evs \<Longrightarrow> 0 \<le> open_streams evs t r"
  unfolding closes_follow_opens_def by (drule spec [of _ "length evs"]) simp

lemma open_streams_le: "open_streams evs t r \<le> int (length evs)"
  using count_le_length [of evs "Opened t r"] by (simp add: open_streams_def)

lemma open_streams_snoc:
  "open_streams (evs @ [ev]) t r =
     open_streams evs t r + (if ev = Opened t r then 1 else if ev = Closed t r then - 1 else 0)"
  by (simp add: open_streams_def)

lemma ActiveCount_ops:
  "ActiveCount t r (sse_Inc t' r' m) =
     (if t = t' \<and> r = r' then wrap64 (ActiveCount t r m + 1) else ActiveCount t r m)"
  "ActiveCount t r (sse_Dec t' r' m) =
     (if t = t' \<and> r = r' then max 0 (wrap64 (ActiveCount t r m - 1)) else ActiveCount t r m)"
  "ActiveCount t r (sse_Error t' r' k m) = ActiveCount t r m"
  by (auto simp: ActiveCount_def sse_Inc_def sse_Dec_def sse_Error_def Let_def cnt_inc_simps cnt_get_put cnt_get_del)

lemma ErrorCount_ops:
  "ErrorCount t r k (sse_Inc t' r' m) = ErrorCount t r k m"
  "ErrorCount t r k (sse_Dec t' r' m) = ErrorCount t r k m"
  "ErrorCount t r k (sse_Error t' r' k' m) =
     (if t = t' \<and> r = r' \<and> k = k' then wrap64 (ErrorCount t r k m + 1) else ErrorCount t r k m)"
  by (auto simp: ErrorCount_def sse_Inc_def sse_Dec_def sse_Error_def Let_def cnt_inc_simps)

lemma active_keys_ops:
  "fst ` set (sm_active (sse_Inc t r m)) = insert (ActiveKey t r) (fst ` set (sm_active m))"
  "fst ` set (sm_active (sse_Dec t r m)) =
     (if wrap64 (ActiveCount t r m - 1) \<le> 0 then fst ` set (sm_active m) - {ActiveKey t r}
      else insert (ActiveKey t r) (fst ` set (sm_active m)))"
  "sm_active (sse_Error t r k m) = sm_active m"
  by (simp_all add: sse_Inc_def sse_Dec_def sse_Error_def ActiveCount_def Let_def cnt_inc_simps)

text \<open>The simulation: the table shows exactly the abstract count of every stream.\<close>

definition shows_streams :: "sse_event list \<Rightarrow> sse_metrics \<Rightarrow> bool" where
  "shows_streams evs m \<longleftrightarrow>
     (\<forall>t r. ActiveCount t r m = open_streams evs t r) \<and>
     (\<forall>t r. ActiveKey t r \<in> fst ` set (sm_active m) \<longleftrightarrow> 0 < open_streams evs t r)"

lemma shows_streams_step:
  assumes "shows_streams evs m" and "\<And>t r. 0 \<le> open_streams (evs @ [ev]) t r"
    and "int (length evs) < int64_max" and "\<And>t r. 0 \<le> open_streams evs t r"
  shows "shows_streams (evs @ [ev]) (sse_apply ev m)"
proof -
  have act: "ActiveCount t r m = open_streams evs t r" for t r using assms(1) by (simp add: shows_streams_def)
  have keys: "ActiveKey t r \<in> fst ` set (sm_active m) \<longleftrightarrow> 0 < open_streams evs t r" for t r
    using assms(1) by (simp add: shows_streams_def)
  have le: "open_streams evs t r < int64_max" for t r using open_streams_le [of evs t r] assms(3) by simp
  show ?thesis
  proof (cases ev)
    case (Opened t r)
    have nn: "0 \<le> open_streams evs t r" by (rule assms(4))
    have w: "wrap64 (open_streams evs t r + 1) = open_streams evs t r + 1"
      using nn le [of t r] by (intro wrap64_id) (simp add: in_int64_def int64_min_def int64_max_def)
    have "ActiveKey u q \<in> fst ` set (sm_active (sse_apply ev m)) \<longleftrightarrow> 0 < open_streams (evs @ [ev]) u q" for u q
      using nn by (auto simp: Opened active_keys_ops keys open_streams_snoc)
    moreover have "ActiveCount u q (sse_apply ev m) = open_streams (evs @ [ev]) u q" for u q
      by (simp add: Opened ActiveCount_ops act open_streams_snoc w)
    ultimately show ?thesis by (simp add: shows_streams_def)
  next
    case (Closed t r)
    have pos: "0 \<le> open_streams evs t r - 1" using assms(2) [of t r] by (simp add: open_streams_snoc Closed)
    have w: "wrap64 (open_streams evs t r - 1) = open_streams evs t r - 1"
      using pos le [of t r] by (intro wrap64_id) (simp add: in_int64_def int64_min_def int64_max_def)
    have "ActiveKey u q \<in> fst ` set (sm_active (sse_apply ev m)) \<longleftrightarrow> 0 < open_streams (evs @ [ev]) u q" for u q
      using pos by (cases "u = t \<and> q = r") (auto simp: Closed active_keys_ops act keys open_streams_snoc w)
    moreover have "ActiveCount u q (sse_apply ev m) = open_streams (evs @ [ev]) u q" for u q
      using pos by (simp add: Closed ActiveCount_ops act open_streams_snoc w)
    ultimately show ?thesis by (simp add: shows_streams_def)
  next
    case (Failed t r k)
    then show ?thesis
      using assms(1) by (simp add: shows_streams_def ActiveCount_ops active_keys_ops open_streams_snoc)
  qed
qed

text \<open>C22: the gauge is exact. After any history in which a stream is closed only after it was opened,
  the gauge of a tenant and route is the number of its open streams, the table has a series for it only
  when there is one (no zero or negative series), and each error counter is the number of errors of its
  labels.\<close>

theorem sse_gauge_exact:
  assumes "closes_follow_opens evs" and "int (length evs) \<le> int64_max"
  shows "ActiveCount t r (sse_run evs) = open_streams evs t r \<and>
    (ActiveKey t r \<in> fst ` set (sm_active (sse_run evs)) \<longleftrightarrow> 0 < open_streams evs t r) \<and>
    ErrorCount t r k (sse_run evs) = int (count_list evs (Failed t r k))"
proof -
  have "shows_streams evs (sse_run evs) \<and> ErrorCount t r k (sse_run evs) = int (count_list evs (Failed t r k))"
    using assms
  proof (induction evs rule: rev_induct)
    case Nil
    show ?case
      by (simp add: shows_streams_def sse_run_def NewSSEMetrics_def ActiveCount_def ErrorCount_def open_streams_def)
  next
    case (snoc ev evs)
    note c = closes_follow_opens_snoc [OF snoc.prems(1)]
    have len: "int (length evs) < int64_max" using snoc.prems(2) by simp
    have IH: "shows_streams evs (sse_run evs)" "ErrorCount t r k (sse_run evs) = int (count_list evs (Failed t r k))"
      using snoc.IH c len by simp_all
    have "count_list evs (Failed t r k) \<le> length evs" by (rule count_le_length)
    then have "in_int64 (int (count_list evs (Failed t r k)) + 1)"
      using len by (simp add: in_int64_def int64_min_def int64_max_def)
    then have "ErrorCount t r k (sse_apply ev (sse_run evs)) = int (count_list (evs @ [ev]) (Failed t r k))"
      using IH(2) by (cases ev) (auto simp: ErrorCount_ops wrap64_id add.commute)
    then show ?case
      using shows_streams_step [OF IH(1) _ len, of ev] c closes_follow_opens_nonneg by (simp add: sse_run_snoc)
  qed
  then show ?thesis by (auto simp: shows_streams_def)
qed

lemma sse_gauge_exact_witness:
  "ActiveCount ''t'' ''r'' (sse_run [Opened ''t'' ''r'', Opened ''t'' ''r'', Closed ''t'' ''r'']) = 1"
proof -
  let ?evs = "[Opened ''t'' ''r'', Opened ''t'' ''r'', Closed ''t'' ''r'']"
  have "closes_follow_opens ?evs"
    unfolding closes_follow_opens_def
  proof (intro allI)
    fix n :: nat and t r
    consider "n = 0" | "n = 1" | "n = 2" | "3 \<le> n" by linarith
    then show "0 \<le> open_streams (take n ?evs) t r"
      by cases (auto simp: open_streams_def numeral_2_eq_2)
  qed
  from sse_gauge_exact [OF this, of "''t''" "''r''" "''k''"] show ?thesis
    by (simp add: open_streams_def int64_max_def)
qed

end
