(* ===== verification/AuditLog.thy ===== *)
theory AuditLog
  imports Response
begin

text \<open>
  \<open>internal/audit/audit.go\<close>: audit events as lines of JSON. The encoder escapes no HTML
  (\<open>SetEscapeHTML(false)\<close>) and writes each document, with its newline, in one write. The sink is
  the bytes written so far; a sink that fails is ignored by the code and not modelled. The latency is a
  whole number of milliseconds, which the encoder prints without a fraction.
\<close>

section \<open>Events\<close>

record audit_event =
  ev_Timestamp :: string
  ev_RouteID :: string
  ev_Method :: string
  ev_Path :: string
  ev_TenantID :: string
  ev_ActorSubject :: string
  ev_StatusCode :: int
  ev_LatencyMS :: int
  ev_CorrelationID :: string
  ev_RequestID :: string

definition raw_escape :: "char \<Rightarrow> string" where
  "raw_escape c = (if c = CHR ''<'' \<or> c = CHR ''>'' \<or> c = CHR ''&'' then [c] else json_escape c)"

definition raw_string :: "string \<Rightarrow> string" where
  "raw_string s = dquote # json_chars raw_escape s @ [dquote]"

definition raw_field :: "string \<Rightarrow> string \<Rightarrow> string" where
  "raw_field name v = raw_string name @ '':'' @ v"

definition omit_empty :: "string \<Rightarrow> string \<Rightarrow> string list" where
  "omit_empty name v = (if v = '''' then [] else [raw_field name (raw_string v)])"

definition encode_event :: "audit_event \<Rightarrow> string" where
  "encode_event e =
     ''{'' @ join '','' ([raw_field ''timestamp'' (raw_string (ev_Timestamp e)),
        raw_field ''route_id'' (raw_string (ev_RouteID e)),
        raw_field ''method'' (raw_string (ev_Method e)),
        raw_field ''path'' (raw_string (ev_Path e))] @
        omit_empty ''tenant_id'' (ev_TenantID e) @
        omit_empty ''actor_subject'' (ev_ActorSubject e) @
        [raw_field ''status_code'' (itoa (ev_StatusCode e)),
         raw_field ''latency_ms'' (itoa (ev_LatencyMS e)),
         raw_field ''correlation_id'' (raw_string (ev_CorrelationID e)),
         raw_field ''request_id'' (raw_string (ev_RequestID e))]) @ ''}''"

section \<open>The logger\<close>

record audit_log =
  al_sink :: string

definition audit_New :: "string \<Rightarrow> audit_log" where
  "audit_New sink = \<lparr>al_sink = sink\<rparr>"

definition Log :: "audit_event \<Rightarrow> audit_log \<Rightarrow> audit_log" where
  "Log e l = l\<lparr>al_sink := al_sink l @ encode_event e @ [CHR 10]\<rparr>"

text \<open>\<open>OpenSink\<close>, on whether \<open>os.OpenFile\<close> opens the path for appending.\<close>

datatype sink = Stdout | AppendFile string

definition OpenSink :: "go_lib \<Rightarrow> (string \<Rightarrow> bool) \<Rightarrow> string \<Rightarrow> string + sink" where
  "OpenSink lib opens path =
     (if path = '''' \<or> path = ''stdout'' then Inr Stdout
      else if \<not> opens path then Inl (''opening audit log '' @ fmt_quote lib path @ '': '')
      else Inr (AppendFile path))"

section \<open>Properties\<close>

lemma unquote_raw_escape:
  assumes "byte_of c < 128"
  shows "json_unquote (raw_escape c @ s) = map_option (\<lambda>(t, rest). (c # t, rest)) (json_unquote s)"
proof (cases "c = CHR ''<'' \<or> c = CHR ''>'' \<or> c = CHR ''&''")
  case True
  then show ?thesis by (auto simp: raw_escape_def intro!: unquote_plain)
next
  case False
  then show ?thesis using unquote_json_escape [OF assms] by (simp add: raw_escape_def)
qed

lemma raw_escape_line: "CHR 10 \<notin> set (raw_escape c)"
  using json_escape_line [of c] by (auto simp: raw_escape_def)

interpretation raw_json: json_escaper raw_escape
  by unfold_locales (simp_all add: unquote_raw_escape raw_escape_line)

lemma line_join: "CHR 10 \<notin> set sep \<Longrightarrow> (\<And>s. s \<in> set ss \<Longrightarrow> CHR 10 \<notin> set s) \<Longrightarrow> CHR 10 \<notin> set (join sep ss)"
  by (induction sep ss rule: join.induct) auto

lemma raw_string_line: "CHR 10 \<notin> set (raw_string s)"
  using raw_json.json_chars_line [of s] by (simp add: raw_string_def)

lemma itoa_line: "CHR 10 \<notin> set (itoa i)"
proof -
  have "CHR 10 \<notin> set (digits_of n)" for n
    using digits_of_hd [of "CHR 10" n] by (auto simp: is_digit_def)
  then show ?thesis by (simp add: itoa_def)
qed

lemma raw_field_line: "CHR 10 \<notin> set v \<Longrightarrow> CHR 10 \<notin> set (raw_field name v)"
  using raw_string_line [of name] by (simp add: raw_field_def)

lemma omit_empty_line: "s \<in> set (omit_empty n v) \<Longrightarrow> CHR 10 \<notin> set s"
  using raw_field_line [OF raw_string_line] by (auto simp: omit_empty_def split: if_splits)

lemma encode_event_line: "CHR 10 \<notin> set (encode_event e)"
proof -
  note lines = raw_field_line [OF raw_string_line] raw_field_line [OF itoa_line] omit_empty_line
  show ?thesis
    unfolding encode_event_def set_append Un_iff de_Morgan_disj
    by (intro conjI line_join) (auto dest: omit_empty_line simp: lines)
qed

definition log_all :: "audit_event list \<Rightarrow> audit_log \<Rightarrow> audit_log" where
  "log_all es l = fold Log es l"

lemma log_all_Cons: "log_all (e # es) l = log_all es (Log e l)"
  by (simp add: log_all_def)

lemma log_all_sink:
  "al_sink (log_all es l) = al_sink l @ concat (map (\<lambda>e. encode_event e @ [CHR 10]) es)"
  by (induction es arbitrary: l) (simp_all add: log_all_Cons Log_def log_all_def)

text \<open>C23: the audit log holds one line per event and nothing else: splitting what was logged at line
  breaks gives back the encoded events in order. No byte of a request's method, path or identity can
  forge, split or join lines; and a reader of the JSON gets the path back as the request had it (up to
  invalid UTF-8), whatever follows it in the line.\<close>

theorem audit_one_line_per_event:
  "split_on (CHR 10) (al_sink (log_all es (audit_New ''''))) = map encode_event es @ [''''] \<and>
   json_unquote (tl (raw_string (ev_Path e)) @ rest) = Some (to_valid_utf8 (ev_Path e), rest)"
proof
  have "split_on (CHR 10) (concat (map (\<lambda>e. encode_event e @ [CHR 10]) es)) = map encode_event es @ ['''']"
    by (induction es) (simp_all add: split_on_append_sep encode_event_line)
  then show "split_on (CHR 10) (al_sink (log_all es (audit_New ''''))) = map encode_event es @ ['''']"
    by (simp add: log_all_sink audit_New_def)
  show "json_unquote (tl (raw_string (ev_Path e)) @ rest) = Some (to_valid_utf8 (ev_Path e), rest)"
    by (simp add: raw_string_def raw_json.json_chars_roundtrip)
qed

end
