(* ===== verification/Upstream.thy ===== *)
theory Upstream
  imports Tenant Limiter SseMetrics AuditLog Routes
begin

text \<open>
  What the two proxies of the gateway share: the state that the dispatcher and its route handlers read and
  write (\<open>dispatch\<close>), the inputs that the world gives one request, and the pieces of
  \<open>net/http\<close> and \<open>net/http/httputil\<close> (Go 1.25) that they are written against: copying
  headers, hop-by-hop headers, \<open>http.Error\<close>.
\<close>

section \<open>State and inputs\<close>

text \<open>
  \<open>None\<close> is a nil pointer: the feature is off. \<open>ds_sent\<close> is the effect on the network: the
  requests sent upstream, oldest first.
\<close>

record dispatch =
  ds_reg :: "metrics_registry option"
  ds_audit :: "audit_log option"
  ds_lim :: "limiter option"
  ds_met :: "sse_metrics option"
  ds_sent :: "http_request list"

text \<open>
  The outcome of a round trip: an error, or a response with its headers (canonical keys), the chunks that
  reading its body gives, and whether the body then ends in an error instead of EOF. Informational
  responses come before either.
\<close>

record up_response =
  up_status :: int
  up_header :: header
  up_chunks :: "string list"
  up_broken :: bool

type_synonym up_infos = "(int \<times> header) list"

datatype up_result = UpErr up_infos | UpResp up_infos up_response

text \<open>
  The inputs of one request: the clock at its start and end and when a timeout is set, the printed time, the
  client's address (\<open>None\<close> when it does not parse), the upstream's answer to each request, and,
  when a round trip has failed, the time and whether the client has gone. \<open>px_newreq\<close> is whether
  \<open>http.NewRequestWithContext\<close> accepts the method and the printed target.
\<close>

record proxy_inputs =
  px_start :: int
  px_end :: int
  px_timestamp :: string
  px_now :: int
  px_remote :: "string option"
  px_newreq :: bool
  px_upstream :: "http_request \<Rightarrow> up_result"
  px_errnow :: int
  px_gone :: bool

definition send_upstream :: "http_request \<Rightarrow> dispatch \<Rightarrow> dispatch" where
  "send_upstream r s = s\<lparr>ds_sent := ds_sent s @ [r]\<rparr>"

definition met_apply :: "(sse_metrics \<Rightarrow> sse_metrics) \<Rightarrow> dispatch \<Rightarrow> dispatch" where
  "met_apply f s = s\<lparr>ds_met := map_option f (ds_met s)\<rparr>"

lemma dispatch_ops [simp]:
  "ds_sent (send_upstream r s) = ds_sent s @ [r]" "ds_lim (send_upstream r s) = ds_lim s"
  "ds_met (send_upstream r s) = ds_met s" "ds_reg (send_upstream r s) = ds_reg s"
  "ds_audit (send_upstream r s) = ds_audit s"
  "ds_sent (met_apply f s) = ds_sent s" "ds_lim (met_apply f s) = ds_lim s"
  "ds_met (met_apply f s) = map_option f (ds_met s)" "ds_reg (met_apply f s) = ds_reg s"
  "ds_audit (met_apply f s) = ds_audit s"
  by (simp_all add: send_upstream_def met_apply_def)

section \<open>Headers\<close>

text \<open>\<open>for k, vv := range src { for v in vv { dst.Add(k, v) } }\<close> on canonical keys.\<close>

definition copy_header :: "header \<Rightarrow> header \<Rightarrow> header" where
  "copy_header dst src = (\<lambda>k. dst k @ src k)"

definition trim_char :: "char \<Rightarrow> bool" where
  "trim_char c \<longleftrightarrow> c = CHR '' '' \<or> c = CHR 9 \<or> c = CHR 10 \<or> c = CHR 13"

definition trim_string :: "string \<Rightarrow> string" where
  "trim_string s = rev (dropWhile trim_char (rev (dropWhile trim_char s)))"

text \<open>The comma separated tokens of the values of a header.\<close>

definition header_tokens :: "string list \<Rightarrow> string list" where
  "header_tokens vs = map trim_string (concat (map (split_on (CHR '','')) vs))"

definition contains_token :: "string list \<Rightarrow> string \<Rightarrow> bool" where
  "contains_token vs tok = list_ex (\<lambda>t. equal_fold t tok) (header_tokens vs)"

definition hop_headers :: "string list" where
  "hop_headers = [''Connection'', ''Proxy-Connection'', ''Keep-Alive'', ''Proxy-Authenticate'',
     ''Proxy-Authorization'', ''Te'', ''Trailer'', ''Transfer-Encoding'', ''Upgrade'']"

text \<open>\<open>removeHopByHopHeaders\<close>: first what the \<open>Connection\<close> header names, then the fixed list.\<close>

definition remove_hop_by_hop :: "header \<Rightarrow> header" where
  "remove_hop_by_hop h =
     fold (\<lambda>k h. hdr_del h k)
       (filter (\<lambda>t. t \<noteq> '''') (header_tokens (h ''Connection'')) @ hop_headers) h"

lemma fold_hdr_del: "fold (\<lambda>k h. hdr_del h k) ks h x = (if x \<in> canon ` set ks then [] else h x)"
  by (induction ks arbitrary: h) (auto simp: hdr_del_apply)

lemma remove_hop_by_hop_apply:
  "remove_hop_by_hop h x =
     (if x \<in> canon ` ({t \<in> set (header_tokens (h ''Connection'')). t \<noteq> ''''} \<union> set hop_headers) then [] else h x)"
  unfolding remove_hop_by_hop_def fold_hdr_del set_append set_filter by (simp only: Collect_conj_eq Collect_mem_eq)

definition printable :: "string \<Rightarrow> bool" where
  "printable s = list_all (\<lambda>c. 32 \<le> byte_of c \<and> byte_of c \<le> 126) s"

definition upgrade_type :: "header \<Rightarrow> string" where
  "upgrade_type h = (if contains_token (h ''Connection'') ''Upgrade'' then hdr_get h ''Upgrade'' else '''')"

section \<open>http.Error\<close>

definition http_Error :: "writer \<Rightarrow> string \<Rightarrow> int \<Rightarrow> writer" where
  "http_Error w msg code =
     Write (msg @ [CHR 10])
       (WriteHeader code
          (set_header ''X-Content-Type-Options'' ''nosniff''
             (set_header ''Content-Type'' ''text/plain; charset=utf-8''
                (map_header (\<lambda>h. hdr_del h ''Content-Length'') w))))"

text \<open>Writing the chunks of a body: reads of no bytes are skipped.\<close>

definition write_chunks :: "string list \<Rightarrow> writer \<Rightarrow> writer" where
  "write_chunks cs w = fold Write (filter (\<lambda>c. c \<noteq> '''') cs) w"

lemma recorder_ok_write_chunks: "recorder_ok w \<Longrightarrow> recorder_ok (write_chunks cs w)"
  unfolding write_chunks_def by (induction cs arbitrary: w) (simp_all add: recorder_ok_Write)

lemma recorder_ok_http_Error: "recorder_ok w \<Longrightarrow> recorder_ok (http_Error w msg code)"
  by (simp add: http_Error_def set_header_def recorder_ok_map_header recorder_ok_WriteHeader recorder_ok_Write)

section \<open>Trace\<close>

definition traceFromReq :: "http_request \<Rightarrow> trace" where
  "traceFromReq r = trace_of (CorrelationID (r_ctx r)) (RequestID (r_ctx r)) ''''"

end
