(* ===== verification/LlmProxy.thy ===== *)
theory LlmProxy
  imports Upstream
begin

text \<open>
  \<open>internal/llm/proxy.go\<close> and \<open>internal/llm/sse.go\<close>: the proxy of routes with
  \<open>mode: sse\<close>. A slot of the tenant's limiter and the gauge are held around the exchange with the
  upstream; the body is piped chunk by chunk, flushed after each when the writer can flush.
\<close>

section \<open>The exchange\<close>

definition ModeSSE :: string where
  "ModeSSE = ''sse''"

text \<open>The outbound request; the target is the upstream's scheme and host with the path and query of the
  request.\<close>

definition sse_request :: "string \<times> string \<Rightarrow> http_request \<Rightarrow> http_request" where
  "sse_request upstream r =
     (let out = r\<lparr>r_scheme := fst upstream, r_urlhost := snd upstream, r_host := snd upstream\<rparr>;
          out = (if RequestID (r_ctx r) \<noteq> '''' then set_req_header ''X-Request-Id'' (RequestID (r_ctx r)) out else out);
          out = (if CorrelationID (r_ctx r) \<noteq> '''' then set_req_header ''X-Correlation-Id'' (CorrelationID (r_ctx r)) out
                 else out)
      in del_req_header ''Accept-Encoding'' out)"

text \<open>A failed round trip: the metric to count and what is written.\<close>

definition sse_failure :: "proxy_inputs \<Rightarrow> http_request \<Rightarrow> writer \<Rightarrow> string \<times> writer" where
  "sse_failure inp r w =
     (case CtxErr (r_ctx r) (px_errnow inp) (px_gone inp) of
        Some DeadlineExceeded \<Rightarrow>
          (''timeout'',
           WriteError w 500
             \<lparr>ErrType = ''error'', Code = ''EXECUTION_TIMEOUT'', Message = ''execution timeout exceeded'',
              RetryAfter = 0, Trace = trace_of (CorrelationID (r_ctx r)) (RequestID (r_ctx r)) ''''\<rparr>)
      | Some Canceled \<Rightarrow> (''client_disconnect'', w)
      | None \<Rightarrow> (''upstream_error'', http_Error w ''upstream_error'' 502))"

definition is_sse :: "header \<Rightarrow> bool" where
  "is_sse h = contains (hdr_get h ''Content-Type'') ''text/event-stream''"

text \<open>The response headers: those of the upstream, and for a stream no buffering on the way.\<close>

definition sse_headers :: "header \<Rightarrow> writer \<Rightarrow> writer" where
  "sse_headers h w =
     (let w = map_header (\<lambda>dst. copy_header dst h) w in
      if is_sse h then
        set_header ''X-Accel-Buffering'' ''no''
          (set_header ''Cache-Control'' ''no-cache'' (set_header ''Content-Encoding'' ''identity'' w))
      else w)"

text \<open>The pipe-and-flush loop, on the chunks that the reads give; a read error ends it as EOF does.\<close>

fun pipe_and_flush :: "string list \<Rightarrow> writer \<Rightarrow> writer" where
  "pipe_and_flush [] w = w"
| "pipe_and_flush (c # cs) w = pipe_and_flush cs (if c \<noteq> '''' then Flush (Write c w) else w)"

definition sse_respond :: "up_response \<Rightarrow> writer \<Rightarrow> writer" where
  "sse_respond resp w =
     (let w = WriteHeader (up_status resp) (sse_headers (up_header resp) w) in
      if \<not> is_sse (up_header resp) \<or> \<not> is_flusher w then write_chunks (up_chunks resp) w
      else pipe_and_flush (up_chunks resp) w)"

definition NewSSEProxy :: "string \<times> string \<Rightarrow> string \<Rightarrow> proxy_inputs \<Rightarrow> dispatch handler" where
  "NewSSEProxy upstream routeID inp r w s =
     (let tenantID = TenantID (r_ctx r) in
      if \<not> px_newreq inp then (http_Error w ''internal_error'' 500, s)
      else
        let out = sse_request upstream r; s = send_upstream out s in
        case px_upstream inp out of
          UpErr _ \<Rightarrow>
            (case sse_failure inp r w of (kind, w) \<Rightarrow> (w, met_apply (sse_Error tenantID routeID kind) s))
        | UpResp _ resp \<Rightarrow> (sse_respond resp w, s))"

section \<open>The proxy with its limit\<close>

definition limit_exceeded :: "http_request \<Rightarrow> writer \<Rightarrow> writer" where
  "limit_exceeded r w =
     WriteError w 429
       \<lparr>ErrType = ''error'', Code = ''SSE_CONCURRENCY_LIMIT_EXCEEDED'',
        Message = ''too many concurrent SSE connections for this tenant'', RetryAfter = 60,
        Trace = trace_of (CorrelationID (r_ctx r)) (RequestID (r_ctx r)) ''''\<rparr>"

text \<open>\<open>lim.TryAcquire\<close> when there is a limiter.\<close>

definition acquire_slot :: "string \<Rightarrow> dispatch \<Rightarrow> bool \<times> dispatch" where
  "acquire_slot tenantID s =
     (case ds_lim s of
        None \<Rightarrow> (True, s)
      | Some l \<Rightarrow> (case TryAcquire tenantID l of (ok, l) \<Rightarrow> (ok, s\<lparr>ds_lim := Some l\<rparr>)))"

definition release_slot :: "string \<Rightarrow> dispatch \<Rightarrow> dispatch" where
  "release_slot tenantID s = s\<lparr>ds_lim := map_option (Release tenantID) (ds_lim s)\<rparr>"

definition NewProxy :: "string \<times> string \<Rightarrow> string \<Rightarrow> proxy_inputs \<Rightarrow> dispatch handler" where
  "NewProxy upstream routeID inp r w s =
     (let tenantID = TenantID (r_ctx r) in
      case acquire_slot tenantID s of
        (False, s) \<Rightarrow> (limit_exceeded r w, met_apply (sse_Error tenantID routeID ''limit_exceeded'') s)
      | (True, s) \<Rightarrow>
          (let s = met_apply (sse_Inc tenantID routeID) s;
               (w, s) = NewSSEProxy upstream routeID inp r w s;
               s = met_apply (sse_Dec tenantID routeID) s
           in (w, release_slot tenantID s)))"

text \<open>\<open>SSEContextTimeout(d)\<close>, and the wrapper of the dispatcher, which is the same.\<close>

definition SSEContextTimeout :: "int \<Rightarrow> int \<Rightarrow> 'w handler \<Rightarrow> 'w handler" where
  "SSEContextTimeout d now next_h r w s = next_h (with_context r (WithTimeout (r_ctx r) now d)) w s"

interpretation timeout_mw: middleware "SSEContextTimeout d now" for d now
  by unfold_locales (unfold SSEContextTimeout_def, blast)

section \<open>Properties\<close>

lemma release_acquire:
  assumes "acquire_slot t s = (True, s')" and "ds_lim s'' = ds_lim s'"
  shows "map_option (Count u) (ds_lim (release_slot t s'')) = map_option (Count u) (ds_lim s)"
proof (cases "ds_lim s")
  case None
  then show ?thesis using assms by (simp add: acquire_slot_def release_slot_def)
next
  case (Some l)
  then obtain l' where "TryAcquire t l = (True, l')" and "ds_lim s' = Some l'"
    using assms(1) by (auto simp: acquire_slot_def split: prod.splits)
  then show ?thesis
    using Some assms(2) Release_TryAcquire [of t l u] by (simp add: release_slot_def)
qed

lemma acquire_slot_frame:
  assumes "acquire_slot t s = (ok, s')"
  shows "ds_met s' = ds_met s" and "ds_sent s' = ds_sent s"
    and "ds_reg s' = ds_reg s" and "ds_audit s' = ds_audit s"
  using assms by (auto simp: acquire_slot_def split: option.splits prod.splits)

lemma acquire_slot_result:
  "ds_lim s = Some l \<Longrightarrow> fst (acquire_slot t s) \<longleftrightarrow> Count t l < lim_maxPerTenant l"
  "ds_lim s = None \<Longrightarrow> fst (acquire_slot t s)"
  using TryAcquire_result [of t l] by (auto simp: acquire_slot_def split: prod.splits)

lemma acquire_slot_rejected:
  assumes "acquire_slot t s = (False, s')"
  shows "map_option (Count u) (ds_lim s') = map_option (Count u) (ds_lim s)"
proof -
  from assms obtain l l' where l: "ds_lim s = Some l" "TryAcquire t l = (False, l')" "s' = s\<lparr>ds_lim := Some l'\<rparr>"
    by (auto simp: acquire_slot_def split: option.splits prod.splits)
  have "\<not> Count t l < lim_maxPerTenant l" using TryAcquire_result [of t l] l(2) by simp
  then show ?thesis using TryAcquire_Count [of u t l] l by simp
qed

lemma NewSSEProxy_frame:
  assumes "NewSSEProxy up rid inp r w s = (w', s')"
  shows "ds_lim s' = ds_lim s" and "ds_reg s' = ds_reg s" and "ds_audit s' = ds_audit s"
    and "ds_sent s' = ds_sent s \<or> ds_sent s' = ds_sent s @ [sse_request up r]"
    and "\<exists>f \<in> {id} \<union> range (sse_Error (TenantID (r_ctx r)) rid). ds_met s' = map_option f (ds_met s)"
  using assms
  by (auto simp: NewSSEProxy_def Let_def option.map_id0 split: if_split_asm up_result.split_asm prod.split_asm)

lemma recorder_ok_sse_respond:
  assumes "recorder_ok w" and "\<not> is_flusher w"
  shows "recorder_ok (sse_respond resp w)"
proof -
  have "recorder_ok (sse_headers h w)" for h
    using assms(1) by (simp add: sse_headers_def Let_def set_header_def recorder_ok_map_header)
  moreover have "\<not> is_flusher (WriteHeader c (sse_headers h w))" for c h
    using assms(2) by (simp add: sse_headers_def Let_def set_header_def writer_simps)
  ultimately show ?thesis
    by (simp add: sse_respond_def Let_def recorder_ok_write_chunks recorder_ok_WriteHeader)
qed

text \<open>The gauge after an exchange: opened and closed, with at most an error counted.\<close>

lemma gauge_restored:
  assumes "0 \<le> ActiveCount t r m" and "ActiveCount t r m < int64_max"
    and "f \<in> {id} \<union> range (sse_Error t r)"
  shows "ActiveCount u q (sse_Dec t r (f (sse_Inc t r m))) = ActiveCount u q m"
proof -
  have w: "wrap64 (ActiveCount t r m + 1) = ActiveCount t r m + 1" "wrap64 (ActiveCount t r m) = ActiveCount t r m"
    using assms(1,2) by (auto intro!: wrap64_id simp: in_int64_def int64_min_def int64_max_def)
  have "ActiveCount a b (f m') = ActiveCount a b m'" for a b m'
    using assms(3) by (auto simp: ActiveCount_ops)
  then show ?thesis using assms(1) by (simp add: ActiveCount_ops w)
qed

text \<open>C12: a stream request gives back what it took. Whatever the upstream does (no answer, an error, a
  broken or an endless body that ends, a client that leaves), after the exchange every tenant's count of the
  limiter and every gauge is what it was before. With the limit reached the answer is 429 and nothing is
  sent upstream; below it at most one request is.\<close>

theorem llm_slot_returned:
  assumes "NewProxy up rid inp r w s = (w', s')" and "ds_lim s = Some l" and "ds_met s = Some m"
    and "0 \<le> ActiveCount (TenantID (r_ctx r)) rid m" and "ActiveCount (TenantID (r_ctx r)) rid m < int64_max"
  shows "map_option (Count u) (ds_lim s') = Some (Count u l) \<and>
    map_option (ActiveCount u q) (ds_met s') = Some (ActiveCount u q m) \<and>
    (if Count (TenantID (r_ctx r)) l < lim_maxPerTenant l
     then ds_sent s' = ds_sent s \<or> ds_sent s' = ds_sent s @ [sse_request up r]
     else ds_sent s' = ds_sent s \<and> w' = limit_exceeded r w)"
proof -
  let ?t = "TenantID (r_ctx r)"
  obtain ok s1 where acq: "acquire_slot ?t s = (ok, s1)" by fastforce
  have ok: "ok \<longleftrightarrow> Count ?t l < lim_maxPerTenant l" using acquire_slot_result(1) [OF assms(2), of ?t] acq by simp
  note frame = acquire_slot_frame [OF acq]
  show ?thesis
  proof (cases ok)
    case False
    then have "w' = limit_exceeded r w" and s': "s' = met_apply (sse_Error ?t rid ''limit_exceeded'') s1"
      using assms(1) acq by (simp_all add: NewProxy_def)
    then show ?thesis
      using False ok acquire_slot_rejected [of ?t s s1 u] acq assms(2,3) frame by (simp add: ActiveCount_ops)
  next
    case True
    obtain w2 s2 where ex: "NewSSEProxy up rid inp r w (met_apply (sse_Inc ?t rid) s1) = (w2, s2)" by fastforce
    then have s': "s' = release_slot ?t (met_apply (sse_Dec ?t rid) s2)"
      using assms(1) acq True by (simp add: NewProxy_def Let_def)
    note sse = NewSSEProxy_frame [OF ex]
    obtain f where f: "f \<in> {id} \<union> range (sse_Error ?t rid)" "ds_met s2 = map_option f (ds_met (met_apply (sse_Inc ?t rid) s1))"
      using sse(5) by blast
    then have "ds_met s' = Some (sse_Dec ?t rid (f (sse_Inc ?t rid m)))"
      using s' frame assms(3) by (simp add: release_slot_def)
    moreover have "map_option (Count u) (ds_lim s') = map_option (Count u) (ds_lim s)"
      unfolding s' using acq True by (intro release_acquire) (simp_all add: sse(1))
    moreover have "ds_sent s' = ds_sent s2" by (simp add: s' release_slot_def)
    ultimately show ?thesis
      using gauge_restored [OF assms(4,5) f(1)] assms(2) sse(4) ok True frame by simp
  qed
qed

section \<open>Flushing\<close>

lemma w_status_write_chunks:
  "c_status (w_conn w) = Some st \<Longrightarrow> \<not> c_aborted (w_conn w) \<Longrightarrow>
     w_out (write_chunks cs w) = w_out w @ map Chunk (filter (\<lambda>c. c \<noteq> '''') cs)"
proof -
  assume "c_status (w_conn w) = Some st" "\<not> c_aborted (w_conn w)"
  then have "c_out (w_conn (fold Write bs w)) = c_out (w_conn w) @ map Chunk bs" for bs
    by (induction bs arbitrary: w) (simp_all add: writer_simps conn_write_def conn_write_header_def Let_def)
  then show ?thesis by (simp add: write_chunks_def w_out_def)
qed

lemma pipe_and_flush_Conn:
  "c_status c = Some st \<Longrightarrow> \<not> c_aborted c \<Longrightarrow>
     w_out (pipe_and_flush cs (Conn c)) = c_out c @ concat (map (\<lambda>b. [Chunk b, Flushed]) (filter (\<lambda>b. b \<noteq> '''') cs))"
  by (induction cs arbitrary: c)
    (simp_all add: w_out_def conn_write_def conn_flush_def conn_write_header_def Let_def)

text \<open>C29: each chunk of an event stream is flushed as soon as it is read when the writer can flush; when it
  cannot, the same bytes are written and nothing is flushed. A response recorder is a writer that cannot,
  and the dispatcher wraps every writer in one, so through the gateway the flush loop never runs.\<close>

theorem sse_flush_needs_flusher:
  assumes "fresh w" and "final_status (up_status resp)" and "is_sse (up_header resp)"
  shows "w_out (sse_respond resp w) =
      (if is_flusher w then concat (map (\<lambda>b. [Chunk b, Flushed]) (filter (\<lambda>b. b \<noteq> '''') (up_chunks resp)))
       else map Chunk (filter (\<lambda>b. b \<noteq> '''') (up_chunks resp))) \<and>
    w_out (sse_respond resp (new_recorder w)) = map Chunk (filter (\<lambda>b. b \<noteq> '''') (up_chunks resp))"
proof -
  have started: "c_status (w_conn (WriteHeader st (sse_headers h v))) = Some st"
    "\<not> c_aborted (w_conn (WriteHeader st (sse_headers h v)))" "c_out (w_conn (WriteHeader st (sse_headers h v))) = []"
    "is_flusher (WriteHeader st (sse_headers h v)) = is_flusher v" if "fresh v" "final_status st" for st h v
    using that
    by (auto simp: sse_headers_def Let_def set_header_def writer_simps fresh_def final_status_def
        conn_write_header_def w_status_def w_out_def aborted_def)
  have plain: "w_out (sse_respond resp v) = map Chunk (filter (\<lambda>b. b \<noteq> '''') (up_chunks resp))"
    if "fresh v" "\<not> is_flusher v" for v
    using that(2) started [OF that(1) assms(2), of "up_header resp"] w_status_write_chunks
    by (simp add: sse_respond_def Let_def w_out_def)
  have "w_out (sse_respond resp w) = concat (map (\<lambda>b. [Chunk b, Flushed]) (filter (\<lambda>b. b \<noteq> '''') (up_chunks resp)))"
    if fl: "is_flusher w"
  proof -
    obtain c where c: "WriteHeader (up_status resp) (sse_headers (up_header resp) w) = Conn c"
      using fl started(4) [OF assms(1,2), of "up_header resp"]
      by (cases "WriteHeader (up_status resp) (sse_headers (up_header resp) w)") auto
    then show ?thesis
      using started [OF assms(1,2), of "up_header resp"] fl assms(3) pipe_and_flush_Conn
      by (simp add: sse_respond_def)
  qed
  moreover have "fresh (new_recorder w)" using assms(1) by (simp add: fresh_new_recorder)
  ultimately show ?thesis
    using plain [OF assms(1)] plain [of "new_recorder w"] by (simp add: writer_simps)
qed

definition ex_sse_resp :: up_response where
  "ex_sse_resp = \<lparr>up_status = 200, up_header = hdr_set no_header ''Content-Type'' ''text/event-stream'',
     up_chunks = [''data: a'', ''data: b''], up_broken = False\<rparr>"

lemma sse_flush_needs_flusher_witness:
  "w_out (sse_respond ex_sse_resp (Conn new_conn)) = [Chunk ''data: a'', Flushed, Chunk ''data: b'', Flushed] \<and>
   w_out (sse_respond ex_sse_resp (new_recorder (Conn new_conn))) = [Chunk ''data: a'', Chunk ''data: b'']"
proof -
  have "contains ''text/event-stream'' ''text/event-stream''" by code_simp
  then have "is_sse (up_header ex_sse_resp)" by (simp add: is_sse_def ex_sse_resp_def header_simps)
  moreover have "fresh (Conn new_conn)" by (rule fresh_new_conn)
  moreover have "final_status (up_status ex_sse_resp)" by (simp add: ex_sse_resp_def final_status_def)
  moreover have "is_flusher (Conn new_conn)" by (simp add: new_conn_def)
  ultimately show ?thesis
    using sse_flush_needs_flusher [of "Conn new_conn" ex_sse_resp] by (simp add: ex_sse_resp_def)
qed

definition ex_sse_request :: http_request where
  "ex_sse_request = \<lparr>r_method = ''POST'', r_scheme = '''', r_urlhost = '''', r_host = ''gw'', r_path = ''/chat'',
     r_query = '''', r_header = no_header, r_body = '''', r_ctx = WithTenantID Background ''acme''\<rparr>"

definition ex_sse_inputs :: proxy_inputs where
  "ex_sse_inputs = \<lparr>px_start = 0, px_end = 5000000, px_timestamp = ''t'', px_now = 0, px_remote = Some ''10.0.0.1'',
     px_newreq = True, px_upstream = (\<lambda>_. UpResp [] ex_sse_resp), px_errnow = 0, px_gone = False\<rparr>"

definition ex_dispatch :: dispatch where
  "ex_dispatch = \<lparr>ds_reg = Some metrics_New, ds_audit = Some (audit_New ''''), ds_lim = Some (NewLimiter 2),
     ds_met = Some NewSSEMetrics, ds_sent = []\<rparr>"

lemma llm_slot_returned_witness:
  "\<exists>w' s'. NewProxy (''http'', ''llm'') ''chat'' ex_sse_inputs ex_sse_request (Conn new_conn) ex_dispatch = (w', s') \<and>
     map_option (Count ''acme'') (ds_lim s') = Some 0"
proof -
  obtain w' s' where e: "NewProxy (''http'', ''llm'') ''chat'' ex_sse_inputs ex_sse_request (Conn new_conn) ex_dispatch =
      (w', s')" by fastforce
  have "ActiveCount t q NewSSEMetrics = 0" for t q by (simp add: ActiveCount_def NewSSEMetrics_def)
  then have "map_option (Count ''acme'') (ds_lim s') = Some (Count ''acme'' (NewLimiter 2))"
    using llm_slot_returned [OF e, of "NewLimiter 2" NewSSEMetrics "''acme''" "''chat''"]
    by (simp add: ex_dispatch_def int64_max_def)
  with e show ?thesis by simp
qed

end
