(* ===== verification/Dispatcher.thy ===== *)
theory Dispatcher
  imports LlmProxy
begin

text \<open>
  \<open>internal/proxy/dispatcher.go\<close>: the route table and the handler of each route (observe, tenant,
  roles, timeout, proxy). \<open>reverse_proxy\<close> is \<open>httputil.ReverseProxy\<close> of Go 1.25 with the
  \<open>Director\<close>, \<open>ModifyResponse\<close> and \<open>ErrorHandler\<close> of \<open>buildProxy\<close>. Trailers
  are left out. A 101 answer always ends in the error handler: the writer is a response recorder, which
  cannot be hijacked.
\<close>

section \<open>The reverse proxy\<close>

definition ProfileHeader :: string where
  "ProfileHeader = ''X-YAAgents-Profile''"

definition ProfileVersion :: string where
  "ProfileVersion = ''v0.2''"

definition director :: "string \<times> string \<Rightarrow> http_request \<Rightarrow> http_request" where
  "director target req =
     InjectUpstreamHeaders (req\<lparr>r_scheme := fst target, r_urlhost := snd target, r_host := snd target\<rparr>)"

definition modify_response :: "header \<Rightarrow> header" where
  "modify_response h = hdr_set h ProfileHeader ProfileVersion"

definition rp_error :: "proxy_inputs \<Rightarrow> http_request \<Rightarrow> writer \<Rightarrow> writer" where
  "rp_error inp r w =
     (if CtxErr (r_ctx r) (px_errnow inp) (px_gone inp) = Some DeadlineExceeded then
        WriteError w 500
          \<lparr>ErrType = ''error'', Code = ''EXECUTION_TIMEOUT'', Message = ''execution timeout exceeded'',
           RetryAfter = 0, Trace = traceFromReq r\<rparr>
      else
        WriteError w 502
          \<lparr>ErrType = ''failed_dependency'', Code = ''UPSTREAM_UNAVAILABLE'',
           Message = ''upstream service did not respond'', RetryAfter = 0, Trace = traceFromReq r\<rparr>)"

text \<open>What goes out: the director's request without hop-by-hop headers, with the client's address.\<close>

definition rp_headers :: "string option \<Rightarrow> header \<Rightarrow> header \<Rightarrow> header" where
  "rp_headers remote inbound out =
     (let up = upgrade_type out;
          h = remove_hop_by_hop out;
          h = (if contains_token (inbound ''Te'') ''trailers'' then hdr_set h ''Te'' ''trailers'' else h);
          h = (if up \<noteq> '''' then hdr_set (hdr_set h ''Connection'' ''Upgrade'') ''Upgrade'' up else h);
          h = (case remote of
                 None \<Rightarrow> h
               | Some ip \<Rightarrow> hdr_set h ''X-Forwarded-For'' (join '', '' (h ''X-Forwarded-For'' @ [ip])))
      in if h ''User-Agent'' = [] then hdr_set h ''User-Agent'' '''' else h)"

definition rp_request :: "string \<times> string \<Rightarrow> string option \<Rightarrow> http_request \<Rightarrow> http_request" where
  "rp_request target remote r =
     (let out = director target r in out\<lparr>r_header := rp_headers remote (r_header r) (r_header out)\<rparr>)"

text \<open>An informational response is passed on at once, and clears the headers set so far.\<close>

definition rp_info :: "int \<times> header \<Rightarrow> writer \<Rightarrow> writer" where
  "rp_info info w =
     map_header (\<lambda>_. no_header) (WriteHeader (fst info) (map_header (\<lambda>h. copy_header h (snd info)) w))"

text \<open>A body that breaks off aborts the handler (\<open>http.ErrAbortHandler\<close>).\<close>

definition rp_respond :: "up_response \<Rightarrow> writer \<Rightarrow> writer" where
  "rp_respond resp w =
     (let h = modify_response (remove_hop_by_hop (up_header resp));
          w = WriteHeader (up_status resp) (map_header (\<lambda>dst. copy_header dst h) w);
          w = write_chunks (up_chunks resp) w
      in if up_broken resp then panic w else w)"

definition reverse_proxy :: "string \<times> string \<Rightarrow> proxy_inputs \<Rightarrow> dispatch handler" where
  "reverse_proxy target inp r w s =
     (if \<not> printable (upgrade_type (r_header (director target r))) then (rp_error inp r w, s)
      else
        let out = rp_request target (px_remote inp) r; s = send_upstream out s in
        case px_upstream inp out of
          UpErr infos \<Rightarrow> (rp_error inp out (fold rp_info infos w), s)
        | UpResp infos resp \<Rightarrow>
            (let w = fold rp_info infos w in
             if up_status resp = 101 then (rp_error inp out w, s) else (rp_respond resp w, s)))"

section \<open>The handler of a route\<close>

text \<open>\<open>enforceRoles\<close>: the error that names the first missing role.\<close>

definition enforceRoles :: "http_request \<Rightarrow> string list \<Rightarrow> string option" where
  "enforceRoles r required =
     map_option (\<lambda>role. ''actor is missing required role: '' @ role)
       (find (\<lambda>role. role \<notin> set (ActorRoles (r_ctx r))) required)"

definition route_proxy :: "string \<times> string \<Rightarrow> Route \<Rightarrow> proxy_inputs \<Rightarrow> dispatch handler" where
  "route_proxy target route inp r w s =
     (if rt_Mode route = ModeSSE
      then NewProxy target (rt_ID route) inp r (set_header ProfileHeader ProfileVersion w) s
      else reverse_proxy target inp r w s)"

definition route_deadline :: "Route \<Rightarrow> int" where
  "route_deadline route =
     (let base = dur_seconds (rt_ExecutionTimeoutSeconds route) in
      if rt_Mode route = ModeSSE then wrap64 (base + 30 * second_ns) else base)"

definition route_timed :: "string \<times> string \<Rightarrow> Route \<Rightarrow> proxy_inputs \<Rightarrow> dispatch handler" where
  "route_timed target route inp =
     (if rt_ExecutionTimeoutSeconds route > 0
      then SSEContextTimeout (route_deadline route) (px_now inp) (route_proxy target route inp)
      else route_proxy target route inp)"

definition rbac_and_proxy :: "string \<times> string \<Rightarrow> Route \<Rightarrow> proxy_inputs \<Rightarrow> dispatch handler" where
  "rbac_and_proxy target route inp r w s =
     (case enforceRoles r (rt_Roles route) of
        Some err \<Rightarrow>
          (WriteError w 403
             \<lparr>ErrType = ''forbidden'', Code = ''INSUFFICIENT_ROLES'', Message = err, RetryAfter = 0,
              Trace = traceFromReq r\<rparr>, s)
      | None \<Rightarrow> route_timed target route inp r w s)"

definition makeRouteHandler :: "go_lib \<Rightarrow> Route \<Rightarrow> string + (proxy_inputs \<Rightarrow> dispatch handler)" where
  "makeRouteHandler lib route =
     (case url_parse lib (rt_Target route) of
        None \<Rightarrow> Inl (''parsing target '' @ fmt_quote lib (rt_Target route) @ '': '')
      | Some target \<Rightarrow>
          Inr (\<lambda>inp. EnforceTenant (rt_TenantRequired route) (rbac_and_proxy target route inp)))"

section \<open>Observation\<close>

text \<open>\<open>time.Since(start).Milliseconds()\<close> on the monotonic clock, in nanoseconds.\<close>

definition latency_ms :: "proxy_inputs \<Rightarrow> int" where
  "latency_ms inp = (px_end inp - px_start inp) div millisecond_ns"

definition observed_event :: "Route \<Rightarrow> proxy_inputs \<Rightarrow> http_request \<Rightarrow> int \<Rightarrow> audit_event" where
  "observed_event route inp r code =
     \<lparr>ev_Timestamp = px_timestamp inp, ev_RouteID = rt_ID route, ev_Method = r_method r, ev_Path = r_path r,
      ev_TenantID = TenantID (r_ctx r), ev_ActorSubject = ActorSubject (r_ctx r), ev_StatusCode = code,
      ev_LatencyMS = latency_ms inp, ev_CorrelationID = CorrelationID (r_ctx r),
      ev_RequestID = RequestID (r_ctx r)\<rparr>"

definition observe_record :: "Route \<Rightarrow> proxy_inputs \<Rightarrow> http_request \<Rightarrow> int \<Rightarrow> dispatch \<Rightarrow> dispatch" where
  "observe_record route inp r code s =
     (let s = s\<lparr>ds_reg := map_option (Record (rt_ID route) code (latency_ms inp)) (ds_reg s)\<rparr> in
      if rt_Audit route then s\<lparr>ds_audit := map_option (Log (observed_event route inp r code)) (ds_audit s)\<rparr> else s)"

text \<open>A handler that panics leaves \<open>observeHandler\<close> at once: nothing is recorded.\<close>

definition observeHandler ::
    "(proxy_inputs \<Rightarrow> dispatch handler) \<Rightarrow> Route \<Rightarrow> proxy_inputs \<Rightarrow> dispatch handler" where
  "observeHandler h route inp r w s =
     (case h inp r (new_recorder w) s of
        (rr, s) \<Rightarrow>
          if aborted rr then (unwrap rr, s)
          else (unwrap rr, observe_record route inp r (rr_code rr) s))"

section \<open>Dispatch\<close>

record route_entry =
  re_route :: Route
  re_handler :: "proxy_inputs \<Rightarrow> dispatch handler"

fun proxy_New :: "go_lib \<Rightarrow> Route list \<Rightarrow> string + route_entry list" where
  "proxy_New lib [] = Inr []"
| "proxy_New lib (r # rs) =
     (case makeRouteHandler lib r of
        Inl err \<Rightarrow> Inl (''building handler for route '' @ fmt_quote lib (rt_ID r) @ '': '' @ err)
      | Inr h \<Rightarrow>
          and_then (proxy_New lib rs) (\<lambda>es. Inr (\<lparr>re_route = r, re_handler = observeHandler h r\<rparr> # es)))"

definition splitPath :: "string \<Rightarrow> string list" where
  "splitPath path = filter (\<lambda>p. p \<noteq> '''') (split_on (CHR ''/'') path)"

definition is_param :: "string \<Rightarrow> bool" where
  "is_param ps \<longleftrightarrow> has_prefix ps ''{'' \<and> has_suffix ps ''}''"

fun match_segments :: "string list \<Rightarrow> string list \<Rightarrow> bool" where
  "match_segments (ps # pSegs) (rs # rSegs) =
     (if is_param ps then (if rs = '''' then False else match_segments pSegs rSegs)
      else if ps \<noteq> rs then False else match_segments pSegs rSegs)"
| "match_segments _ _ = True"

definition matchPath :: "string \<Rightarrow> string \<Rightarrow> bool" where
  "matchPath pat requestPath =
     (let pSegs = splitPath pat; rSegs = splitPath requestPath in
      if length pSegs \<noteq> length rSegs then False else match_segments pSegs rSegs)"

fun matchEntry :: "route_entry list \<Rightarrow> http_request \<Rightarrow> route_entry option" where
  "matchEntry [] r = None"
| "matchEntry (e # es) r =
     (if equal_fold (rt_Method (re_route e)) (r_method r) \<and> matchPath (rt_Path (re_route e)) (r_path r) then Some e
      else matchEntry es r)"

definition route_not_found :: "http_request \<Rightarrow> writer \<Rightarrow> writer" where
  "route_not_found r w =
     WriteError w 404
       \<lparr>ErrType = ''error'', Code = ''ROUTE_NOT_FOUND'',
        Message = ''no route matched '' @ r_method r @ '' '' @ r_path r, RetryAfter = 0, Trace = traceFromReq r\<rparr>"

definition dispatch_ServeHTTP :: "route_entry list \<Rightarrow> proxy_inputs \<Rightarrow> dispatch handler" where
  "dispatch_ServeHTTP es inp r w s =
     (case matchEntry es r of
        None \<Rightarrow> (route_not_found r w, s)
      | Some e \<Rightarrow> re_handler e inp r w s)"

end
