(* ===== verification/Responder.thy ===== *)
theory Responder
  imports Http
begin

text \<open>
  What a handler may do to its writer: call the methods of the interface, change the header map, or panic.
  \<open>writes w v\<close> says that the writer \<open>v\<close> came from \<open>w\<close> that way. The
  contract \<open>responder\<close> is that of a handler that keeps to it; what follows for every such
  handler is that a response recorder around its writer knows the status that the client gets.
\<close>

section \<open>Use of a writer\<close>

inductive writes :: "writer \<Rightarrow> writer \<Rightarrow> bool" for w where
  writes_refl: "writes w w"
| writes_header: "writes w v \<Longrightarrow> writes w (map_header f v)"
| writes_status: "writes w v \<Longrightarrow> writes w (WriteHeader c v)"
| writes_body: "writes w v \<Longrightarrow> writes w (Write b v)"
| writes_flush: "writes w v \<Longrightarrow> writes w (Flush v)"
| writes_panic: "writes w v \<Longrightarrow> writes w (panic v)"

lemmas writes_intros = writes.intros

lemma writes_trans: "writes v u \<Longrightarrow> writes w v \<Longrightarrow> writes w u"
  by (induction rule: writes.induct) (auto intro: writes_intros)

lemma writes_set_header [intro]: "writes w v \<Longrightarrow> writes w (set_header k x v)"
  by (simp add: set_header_def writes_header)

text \<open>Through a recorder, the writer inside is used the same way.\<close>

lemma writes_Recorder:
  "writes (Recorder w c b) v \<Longrightarrow> \<exists>w' c' b'. v = Recorder w' c' b' \<and> writes w w'"
  by (induction rule: writes.induct) (auto intro: writes_intros split: if_splits)

lemma recorder_ok_panic: "recorder_ok w \<Longrightarrow> recorder_ok (panic w)"
  by (induction w) (auto simp: writer_simps)

lemma recorder_ok_Flush: "recorder_ok w \<Longrightarrow> recorder_ok (Flush w)"
  by (cases w) auto

lemma writes_recorder_ok: "writes w v \<Longrightarrow> recorder_ok w \<Longrightarrow> recorder_ok v"
  by (induction rule: writes.induct)
    (auto intro: recorder_ok_map_header recorder_ok_WriteHeader recorder_ok_Write recorder_ok_Flush recorder_ok_panic)

text \<open>The code of a recorder on a live connection is the status of the client, as long as no
  informational status was written.\<close>

lemma recorder_client_status:
  assumes "recorder_ok (Recorder w c b)" and "\<not> aborted w" and "c_info (w_conn w) = []"
  shows "c = client_status (w_conn w)"
  using assms by (auto simp: aborted_def client_status_def split: if_splits)

text \<open>A recorder never lets a flush through.\<close>

fun flushes :: "writer \<Rightarrow> nat" where
  "flushes w = length (filter (\<lambda>e. e = Flushed) (w_out w))"

declare flushes.simps [simp del]

lemma flushes_conn:
  "length (filter (\<lambda>e. e = Flushed) (c_out (conn_write_header code c))) = length (filter (\<lambda>e. e = Flushed) (c_out c))"
  "length (filter (\<lambda>e. e = Flushed) (c_out (conn_write b c))) = length (filter (\<lambda>e. e = Flushed) (c_out c))"
  by (simp_all add: conn_write_header_def conn_write_def Let_def)

lemma writes_Recorder_no_flush: "writes (Recorder w c b) v \<Longrightarrow> flushes v = flushes w"
proof (induction rule: writes.induct)
  case (writes_flush v)
  from writes_Recorder [OF writes_flush.hyps] have "Flush v = v" by auto
  then show ?case using writes_flush.IH by simp
qed (auto simp: flushes.simps w_out_def writer_simps flushes_conn)

section \<open>The contract\<close>

locale responder =
  fixes h :: "'w handler"
  assumes uses_writer: "h r w s = (w', s') \<Longrightarrow> writes w w'"
begin

lemma through_recorder:
  assumes "h r (new_recorder w) s = (rr, s')" and "c_status (w_conn w) = None" and "recorder_ok w"
  obtains w' c b where "rr = Recorder w' c b" and "writes w w'" and "recorder_ok rr" and "flushes w' = flushes w"
proof -
  note u = uses_writer [OF assms(1)]
  obtain w' c b where rr: "rr = Recorder w' c b" "writes w w'"
    using writes_Recorder [OF u [unfolded new_recorder_def]] by blast
  moreover have "recorder_ok rr"
    using writes_recorder_ok [OF u] recorder_ok_new [OF assms(2,3)] by simp
  moreover have "flushes w' = flushes w"
    using writes_Recorder_no_flush [OF u [unfolded new_recorder_def]] rr(1)
    by (simp add: flushes.simps w_out_def)
  ultimately show thesis by (rule that)
qed

end

end
