(* ===== verification/DispatchSafety.thy ===== *)
theory DispatchSafety
  imports Dispatcher Responder
begin

text \<open>
  What the dispatcher guarantees: which route a request gets, who may reach an upstream, what the upstream is
  told about the caller, and that every exchange is observed once with the status that the client got.
\<close>

section \<open>Handlers keep to the writer's interface\<close>

lemma writes_WriteError [intro]: "writes w v \<Longrightarrow> writes w (WriteError v st b)"
  unfolding WriteError_def by (intro writes_body writes_status writes_set_header)

lemma writes_http_Error [intro]: "writes w v \<Longrightarrow> writes w (http_Error v m c)"
  unfolding http_Error_def by (intro writes_body writes_status writes_set_header writes_header)

lemma writes_chunks [intro]: "writes w v \<Longrightarrow> writes w (write_chunks cs v)"
proof -
  have "writes w v \<Longrightarrow> writes w (fold Write bs v)" for bs v
    by (induction bs arbitrary: v) (auto intro: writes_body)
  then show "writes w v \<Longrightarrow> writes w (write_chunks cs v)" by (simp add: write_chunks_def)
qed

lemma writes_pipe [intro]: "writes w v \<Longrightarrow> writes w (pipe_and_flush cs v)"
  by (induction cs v rule: pipe_and_flush.induct) (simp_all add: writes_flush writes_body)

lemma writes_rp_info [intro]: "writes w v \<Longrightarrow> writes w (fold rp_info infos v)"
  by (induction infos arbitrary: v) (simp_all add: rp_info_def writes_header writes_status)

lemma writes_sse_headers [intro]: "writes w v \<Longrightarrow> writes w (sse_headers h v)"
  by (auto simp: sse_headers_def Let_def intro: writes_header)

lemma writes_sse_respond [intro]: "writes w v \<Longrightarrow> writes w (sse_respond resp v)"
  by (auto simp: sse_respond_def Let_def intro!: writes_chunks writes_pipe writes_status writes_sse_headers)

lemma writes_rp_error [intro]: "writes w v \<Longrightarrow> writes w (rp_error inp r v)"
  by (auto simp: rp_error_def)

lemma writes_rp_respond [intro]: "writes w v \<Longrightarrow> writes w (rp_respond resp v)"
  by (auto simp: rp_respond_def Let_def intro!: writes_panic writes_chunks writes_status writes_header)

interpretation sse_responder: responder "NewSSEProxy up rid inp" for up rid inp
proof
  fix r w s w' s'
  assume "NewSSEProxy up rid inp r w s = (w', s')"
  then show "writes w w'"
    by (auto simp: NewSSEProxy_def Let_def sse_failure_def intro!: writes_http_Error writes_WriteError
        writes_sse_respond writes_refl split: if_splits up_result.splits option.splits ctx_err.splits)
qed

interpretation llm_responder: responder "NewProxy up rid inp" for up rid inp
proof
  fix r w s w' s'
  assume a: "NewProxy up rid inp r w s = (w', s')"
  obtain ok s1 where acq: "acquire_slot (TenantID (r_ctx r)) s = (ok, s1)" by fastforce
  show "writes w w'"
  proof (cases ok)
    case False
    with a acq show ?thesis by (auto simp: NewProxy_def limit_exceeded_def intro: writes_refl)
  next
    case True
    obtain w2 s2 where e: "NewSSEProxy up rid inp r w (met_apply (sse_Inc (TenantID (r_ctx r)) rid) s1) = (w2, s2)"
      by fastforce
    with a acq True have "w' = w2" by (simp add: NewProxy_def Let_def)
    with sse_responder.uses_writer [OF e] show ?thesis by simp
  qed
qed

interpretation rp_responder: responder "reverse_proxy target inp" for target inp
proof
  fix r w s w' s'
  assume "reverse_proxy target inp r w s = (w', s')"
  then show "writes w w'"
    by (auto simp: reverse_proxy_def Let_def intro!: writes_rp_error writes_rp_respond writes_rp_info writes_refl
        split: if_splits up_result.splits)
qed

interpretation route_responder: responder "route_proxy target route inp" for target route inp
proof
  fix r w s w' s'
  assume a: "route_proxy target route inp r w s = (w', s')"
  show "writes w w'"
  proof (cases "rt_Mode route = ModeSSE")
    case True
    with a have "NewProxy target (rt_ID route) inp r (set_header ProfileHeader ProfileVersion w) s = (w', s')"
      by (simp add: route_proxy_def)
    from llm_responder.uses_writer [OF this] show ?thesis by (rule writes_trans) (intro writes_set_header writes_refl)
  next
    case False
    with a show ?thesis by (auto simp: route_proxy_def dest: rp_responder.uses_writer)
  qed
qed

interpretation timed_responder: responder "route_timed target route inp" for target route inp
proof
  fix r w s w' s'
  assume "route_timed target route inp r w s = (w', s')"
  then show "writes w w'"
    by (auto simp: route_timed_def SSEContextTimeout_def dest: route_responder.uses_writer split: if_splits)
qed

interpretation rbac_responder: responder "rbac_and_proxy target route inp" for target route inp
proof
  fix r w s w' s'
  assume "rbac_and_proxy target route inp r w s = (w', s')"
  then show "writes w w'"
    by (auto simp: rbac_and_proxy_def intro!: writes_WriteError writes_refl dest: timed_responder.uses_writer
        split: option.splits)
qed

interpretation handler_responder: responder "EnforceTenant b (rbac_and_proxy target route inp)" for b target route inp
proof
  fix r w s w' s'
  assume "EnforceTenant b (rbac_and_proxy target route inp) r w s = (w', s')"
  then show "writes w w'"
    by (auto simp: mw_simps intro!: writes_WriteError writes_refl dest: rbac_responder.uses_writer split: if_splits)
qed

section \<open>Matching\<close>

text \<open>The reference: a path is an instance of a pattern when their non-empty segments agree one by one, a
  placeholder with any.\<close>

definition segment_matches :: "string \<Rightarrow> string \<Rightarrow> bool" where
  "segment_matches ps rs \<longleftrightarrow> is_param ps \<or> ps = rs"

definition route_matches :: "http_request \<Rightarrow> Route \<Rightarrow> bool" where
  "route_matches r route \<longleftrightarrow> equal_fold (rt_Method route) (r_method r) \<and>
     list_all2 segment_matches (splitPath (rt_Path route)) (splitPath (r_path r))"

lemma splitPath_nonempty: "'''' \<notin> set (splitPath p)"
  by (simp add: splitPath_def)

lemma match_segments_list_all2:
  "length ps = length rs \<Longrightarrow> '''' \<notin> set rs \<Longrightarrow> match_segments ps rs = list_all2 segment_matches ps rs"
  by (induction ps rs rule: match_segments.induct) (auto simp: segment_matches_def)

lemma matchPath_list_all2: "matchPath pat p = list_all2 segment_matches (splitPath pat) (splitPath p)"
  using match_segments_list_all2 [OF _ splitPath_nonempty]
  by (auto simp: matchPath_def Let_def list_all2_lengthD)

lemma matchEntry_find: "matchEntry es r = find (\<lambda>e. route_matches r (re_route e)) es"
  by (induction es) (simp_all add: route_matches_def matchPath_list_all2)

lemma proxy_New_entries:
  "proxy_New lib rs = Inr es \<Longrightarrow> map re_route es = rs \<and>
     (\<forall>e \<in> set es. \<exists>h. makeRouteHandler lib (re_route e) = Inr h \<and> re_handler e = observeHandler h (re_route e))"
  by (induction rs arbitrary: es) (auto simp: and_then_eq_Inr split: sum.splits)

lemma find_Some_first:
  "find P xs = Some x \<Longrightarrow> \<exists>ys zs. xs = ys @ x # zs \<and> P x \<and> (\<forall>y \<in> set ys. \<not> P y)"
proof (induction xs)
  case (Cons a xs)
  show ?case
  proof (cases "P a")
    case True
    with Cons.prems show ?thesis by (intro exI [of _ "[]"] exI [of _ xs]) simp
  next
    case False
    with Cons.prems Cons.IH obtain ys zs where "xs = ys @ x # zs" "P x" "\<forall>y \<in> set ys. \<not> P y" by auto
    with False show ?thesis by (intro exI [of _ "a # ys"] exI [of _ zs]) simp
  qed
qed simp

lemma find_map: "find P (map f xs) = map_option f (find (\<lambda>x. P (f x)) xs)"
  by (induction xs) simp_all

lemma dispatch_lookup:
  assumes "proxy_New lib routes = Inr es"
  obtains (unmatched) "find (route_matches r) routes = None" "dispatch_ServeHTTP es inp r w s = (route_not_found r w, s)"
  | (matched) route h where "find (route_matches r) routes = Some route" "makeRouteHandler lib route = Inr h"
      "dispatch_ServeHTTP es inp r w s = observeHandler h route inp r w s"
proof -
  note e = proxy_New_entries [OF assms]
  have f: "find (route_matches r) routes = map_option re_route (find (\<lambda>e. route_matches r (re_route e)) es)"
    using find_map [of "route_matches r" re_route es] e by simp
  show thesis
  proof (cases "find (\<lambda>e. route_matches r (re_route e)) es")
    case None
    with f show thesis by (intro unmatched) (simp_all add: dispatch_ServeHTTP_def matchEntry_find)
  next
    case (Some x)
    then have "x \<in> set es" using find_Some_first [OF Some] by auto
    then obtain h where "makeRouteHandler lib (re_route x) = Inr h" "re_handler x = observeHandler h (re_route x)"
      using e by blast
    with f Some show thesis by (intro matched [of "re_route x" h]) (simp_all add: dispatch_ServeHTTP_def matchEntry_find)
  qed
qed

text \<open>C19: the dispatcher implements the route table. Built from a list of routes, it serves a request with the
  handler of the first route whose method (in any case) and path pattern match it, segment by segment and
  blind to empty segments; without one it answers 404 and changes nothing else.\<close>

theorem dispatch_first_match:
  assumes "proxy_New lib routes = Inr es"
  shows "case find (route_matches r) routes of
      None \<Rightarrow> dispatch_ServeHTTP es inp r w s = (route_not_found r w, s)
    | Some route \<Rightarrow> \<exists>h. makeRouteHandler lib route = Inr h \<and>
        dispatch_ServeHTTP es inp r w s = observeHandler h route inp r w s"
  by (rule dispatch_lookup [OF assms, of r inp w s]) simp_all

section \<open>What reaches the upstream\<close>

lemma reverse_proxy_sent:
  assumes "reverse_proxy target inp r w s = (w', s')"
  shows "ds_sent s' = ds_sent s \<or> ds_sent s' = ds_sent s @ [rp_request target (px_remote inp) r]"
    and "ds_reg s' = ds_reg s" and "ds_audit s' = ds_audit s"
  using assms by (auto simp: reverse_proxy_def Let_def split: if_splits up_result.splits)

lemma NewProxy_frame:
  assumes "NewProxy up rid inp r w s = (w', s')"
  shows "ds_sent s' = ds_sent s \<or> ds_sent s' = ds_sent s @ [sse_request up r]"
    and "ds_reg s' = ds_reg s" and "ds_audit s' = ds_audit s"
proof -
  let ?t = "TenantID (r_ctx r)"
  obtain ok s1 where acq: "acquire_slot ?t s = (ok, s1)" by fastforce
  obtain w2 s2 where e: "NewSSEProxy up rid inp r w (met_apply (sse_Inc ?t rid) s1) = (w2, s2)" by fastforce
  note f = acquire_slot_frame [OF acq] NewSSEProxy_frame [OF e]
  have "s' = (if ok then release_slot ?t (met_apply (sse_Dec ?t rid) s2)
      else met_apply (sse_Error ?t rid ''limit_exceeded'') s1)"
    using assms acq e by (cases ok) (simp_all add: NewProxy_def Let_def)
  then show "ds_sent s' = ds_sent s \<or> ds_sent s' = ds_sent s @ [sse_request up r]"
    and "ds_reg s' = ds_reg s" and "ds_audit s' = ds_audit s"
    using f by (auto simp: release_slot_def)
qed

text \<open>The request that a route sends out, given the one that its proxy gets.\<close>

definition route_request :: "string \<times> string \<Rightarrow> Route \<Rightarrow> proxy_inputs \<Rightarrow> http_request \<Rightarrow> http_request" where
  "route_request target route inp r =
     (let r = (if rt_ExecutionTimeoutSeconds route > 0
               then with_context r (WithTimeout (r_ctx r) (px_now inp) (route_deadline route)) else r) in
      if rt_Mode route = ModeSSE then sse_request target r else rp_request target (px_remote inp) r)"

lemma route_timed_frame:
  assumes "route_timed target route inp r w s = (w', s')"
  shows "ds_sent s' = ds_sent s \<or> ds_sent s' = ds_sent s @ [route_request target route inp r]"
    and "ds_reg s' = ds_reg s" and "ds_audit s' = ds_audit s"
  using assms reverse_proxy_sent NewProxy_frame
  by (auto simp: route_timed_def route_proxy_def SSEContextTimeout_def route_request_def Let_def split: if_splits)

lemma enforceRoles_None: "enforceRoles r required = None \<longleftrightarrow> set required \<subseteq> set (ActorRoles (r_ctx r))"
  by (auto simp: enforceRoles_def find_None_iff)

text \<open>Past the tenant and role checks, or an answer of theirs and nothing sent.\<close>

lemma route_handler_gate:
  assumes "EnforceTenant (rt_TenantRequired route) (rbac_and_proxy target route inp) r w s = (w', s')"
  shows "ds_sent s' = ds_sent s \<or>
      ds_sent s' = ds_sent s @ [route_request target route inp r] \<and>
      set (rt_Roles route) \<subseteq> set (ActorRoles (r_ctx r)) \<and> (rt_TenantRequired route \<longrightarrow> TenantID (r_ctx r) \<noteq> '''')"
    and "ds_reg s' = ds_reg s" and "ds_audit s' = ds_audit s"
  using assms route_timed_frame [of target route inp r w s w' s']
  by (auto simp: mw_simps rbac_and_proxy_def enforceRoles_None [symmetric] split: if_splits option.splits)

lemma observeHandler_sent:
  assumes "observeHandler h route inp r w s = (w', s')"
  shows "\<exists>rr s1. h inp r (new_recorder w) s = (rr, s1) \<and> ds_sent s' = ds_sent s1"
  using assms by (auto simp: observeHandler_def observe_record_def Let_def split: prod.splits if_splits)

text \<open>What a dispatched request sends, and that it is sent past the route's checks.\<close>

lemma dispatch_sent:
  assumes "proxy_New lib routes = Inr es" and "dispatch_ServeHTTP es inp r w s = (w', s')"
    and "ds_sent s' \<noteq> ds_sent s"
  obtains route target where "find (route_matches r) routes = Some route"
    and "url_parse lib (rt_Target route) = Some target"
    and "ds_sent s' = ds_sent s @ [route_request target route inp r]"
    and "set (rt_Roles route) \<subseteq> set (ActorRoles (r_ctx r))"
    and "rt_TenantRequired route \<Longrightarrow> TenantID (r_ctx r) \<noteq> ''''"
proof (rule dispatch_lookup [OF assms(1), of r inp w s])
  assume "dispatch_ServeHTTP es inp r w s = (route_not_found r w, s)"
  with assms(2,3) show thesis by simp
next
  fix route h
  assume matched: "find (route_matches r) routes = Some route" "makeRouteHandler lib route = Inr h"
      "dispatch_ServeHTTP es inp r w s = observeHandler h route inp r w s"
  from matched(2) obtain target where t: "url_parse lib (rt_Target route) = Some target"
    and hd: "h = (\<lambda>inp. EnforceTenant (rt_TenantRequired route) (rbac_and_proxy target route inp))"
    by (auto simp: makeRouteHandler_def split: option.splits)
  have "observeHandler h route inp r w s = (w', s')" using matched(3) assms(2) by simp
  from observeHandler_sent [OF this] obtain rr s1 where
    e: "EnforceTenant (rt_TenantRequired route) (rbac_and_proxy target route inp) r (new_recorder w) s = (rr, s1)"
    and s1: "ds_sent s' = ds_sent s1" by (auto simp: hd)
  have "ds_sent s1 \<noteq> ds_sent s" using s1 assms(3) by simp
  with route_handler_gate(1) [OF e] s1 matched(1) t show thesis by (intro that [of route target]) simp_all
qed

lemma route_request_copies:
  "r_scheme (route_request target route inp r) = fst target \<and> r_urlhost (route_request target route inp r) = snd target \<and>
   r_host (route_request target route inp r) = snd target \<and> r_method (route_request target route inp r) = r_method r \<and>
   r_path (route_request target route inp r) = r_path r \<and> r_query (route_request target route inp r) = r_query r \<and>
   r_body (route_request target route inp r) = r_body r"
  by (simp add: route_request_def Let_def sse_request_def rp_request_def director_def InjectUpstreamHeaders_def
      del_req_header_def set_req_header_def with_context_def)

text \<open>C3: nothing reaches an upstream past the checks of its route. When serving a request adds to what was
  sent, the first route that matches the request is the one that sent it; it is a single request, to the
  scheme and host of that route's target, with the method, path, query and body of the client's; the actor
  has every role that the route lists, and a tenant when the route requires one.\<close>

theorem dispatch_gate:
  assumes "proxy_New lib routes = Inr es" and "dispatch_ServeHTTP es inp r w s = (w', s')"
    and "ds_sent s' \<noteq> ds_sent s"
  shows "\<exists>route scheme host out. find (route_matches r) routes = Some route \<and>
    url_parse lib (rt_Target route) = Some (scheme, host) \<and> ds_sent s' = ds_sent s @ [out] \<and>
    r_scheme out = scheme \<and> r_urlhost out = host \<and> r_host out = host \<and>
    r_method out = r_method r \<and> r_path out = r_path r \<and> r_query out = r_query r \<and> r_body out = r_body r \<and>
    set (rt_Roles route) \<subseteq> set (ActorRoles (r_ctx r)) \<and>
    (rt_TenantRequired route \<longrightarrow> TenantID (r_ctx r) \<noteq> '''')"
proof -
  from dispatch_sent [OF assms] obtain route target where
    "find (route_matches r) routes = Some route" "url_parse lib (rt_Target route) = Some target"
    "ds_sent s' = ds_sent s @ [route_request target route inp r]"
    "set (rt_Roles route) \<subseteq> set (ActorRoles (r_ctx r))" "rt_TenantRequired route \<longrightarrow> TenantID (r_ctx r) \<noteq> ''''"
    by metis
  with route_request_copies [of target route inp r] show ?thesis
    by (intro exI [of _ route] exI [of _ "fst target"] exI [of _ "snd target"] exI [of _ "route_request target route inp r"]) simp
qed

end
