(* ===== verification/Gateway.thy ===== *)
theory Gateway
  imports Loader Cors Config DispatchSafety TokenSafety
begin

text \<open>
  \<open>cmd/gateway/main.go\<close>: the program put together. \<open>gateway\<close> is the state of the running
  process: the two plugins the binary registers, the dispatcher's, the shutdown flag, and
  \<open>gw_env\<close>, what the outside world has in store for the request being served (key documents, the
  clock, the upstream's answers) with the escaped form of its path. Requests are served one at a time here; where the interleaving of
  goroutines matters is the limiter, which has a theory of its own. The HTTP server, its timeouts and
  signals are the library's; \<open>mux_serve\<close> is its \<open>ServeMux\<close> on the four patterns.
\<close>

section \<open>State and plugins\<close>

record gateway_env =
  ge_tv :: tv_inputs
  ge_proxy :: proxy_inputs
  ge_escapedPath :: string

record gateway =
  gw_env :: gateway_env
  gw_tv :: token_validator
  gw_cors :: cors_plugin
  gw_dispatch :: dispatch
  gw_shutting :: bool

definition cors_Plugin :: "gateway plugin" where
  "cors_Plugin =
     \<lparr>p_Name = ''cors'',
      p_Init = (\<lambda>cfg s. and_then (cors_Init cfg (gw_cors s)) (\<lambda>c. Inr (s\<lparr>gw_cors := c\<rparr>))),
      p_Handler = middleware_of gw_cors (\<lambda>c s. s\<lparr>gw_cors := c\<rparr>) cors_handle,
      p_Shutdown = (\<lambda>c s. (None, s))\<rparr>"

definition tv_Plugin :: "go_lib \<Rightarrow> jwt_lib \<Rightarrow> gateway plugin" where
  "tv_Plugin lib jl =
     \<lparr>p_Name = ''token-validator'',
      p_Init = (\<lambda>cfg s. and_then (tv_Init lib cfg (gw_tv s)) (\<lambda>tv. Inr (s\<lparr>gw_tv := tv\<rparr>))),
      p_Handler = (\<lambda>next_h r w s. middleware_of gw_tv (\<lambda>tv s. s\<lparr>gw_tv := tv\<rparr>)
         (tv_handle lib jl (ge_tv (gw_env s))) next_h r w s),
      p_Shutdown = (\<lambda>c s. (None, s))\<rparr>"

text \<open>The imports for side effect: the \<open>init\<close> functions run in the order of the import paths.\<close>

definition imported_plugins :: "go_lib \<Rightarrow> jwt_lib \<Rightarrow> gateway registry" where
  "imported_plugins lib jl = register_all [cors_Plugin, tv_Plugin lib jl] empty_registry"

section \<open>Handlers of main\<close>

definition dispatcher_handler :: "route_entry list \<Rightarrow> gateway handler" where
  "dispatcher_handler es r w s =
     (case dispatch_ServeHTTP es (ge_proxy (gw_env s)) r w (gw_dispatch s) of
        (w, d) \<Rightarrow> (w, s\<lparr>gw_dispatch := d\<rparr>))"

definition shutting_down :: "writer \<Rightarrow> writer" where
  "shutting_down w =
     WriteError w 503
       \<lparr>ErrType = ''error'', Code = ''SHUTTING_DOWN'', Message = ''gateway is shutting down; retry shortly'',
        RetryAfter = 0, Trace = trace_of '''' '''' ''''\<rparr>"

definition withShutdownGate :: "gateway handler \<Rightarrow> gateway handler" where
  "withShutdownGate h r w s = (if gw_shutting s then (shutting_down w, s) else h r w s)"

definition handleHealthz :: "writer \<Rightarrow> writer" where
  "handleHealthz w =
     Write (''{'' @ json_field ''status'' (json_string ''ok'') @ ''}'')
       (WriteHeader 200 (set_header ''Content-Type'' ''application/json'' w))"

definition makeReadyzHandler :: "bool \<Rightarrow> writer \<Rightarrow> writer" where
  "makeReadyzHandler ready w =
     (let w = set_header ''Content-Type'' ''application/json'' w in
      if ready then Write (''{'' @ json_field ''status'' (json_string ''ready'') @ ''}'') (WriteHeader 200 w)
      else Write (''{'' @ json_field ''status'' (json_string ''not ready'') @ '','' @
             json_field ''reason'' (json_string ''no routes loaded'') @ ''}'') (WriteHeader 503 w))"

definition metrics_endpoint :: "go_lib \<Rightarrow> dispatch \<Rightarrow> writer \<Rightarrow> writer" where
  "metrics_endpoint lib d w =
     (let w = WriteHeader 200 (set_header ''Content-Type'' ''text/plain; version=0.0.4; charset=utf-8'' w);
          w = (case ds_reg d of Some reg \<Rightarrow> Write (WritePrometheus lib reg) w | None \<Rightarrow> w)
      in case ds_met d of Some met \<Rightarrow> Write (sse_WritePrometheus lib met) w | None \<Rightarrow> w)"

section \<open>Boot\<close>

record boot_env =
  be_getenv :: "string \<Rightarrow> string"
  be_routesFile :: "string \<Rightarrow> string + string"
  be_routesYaml :: "string \<Rightarrow> string + Route list"
  be_loader :: loader_io
  be_opens :: "string \<Rightarrow> bool"

record running =
  rn_config :: gateway_config
  rn_routes :: "Route list"
  rn_loader :: "gateway loader"
  rn_entries :: "route_entry list"

definition dispatch_New :: "gateway_config \<Rightarrow> dispatch" where
  "dispatch_New cfg =
     \<lparr>ds_reg = Some metrics_New, ds_audit = Some (audit_New ''''), ds_lim = Some (NewLimiter (LLMMaxSSEPerTenant cfg)),
      ds_met = Some NewSSEMetrics, ds_sent = []\<rparr>"

definition gateway_zero :: "gateway_env \<Rightarrow> gateway_config \<Rightarrow> gateway" where
  "gateway_zero genv cfg =
     \<lparr>gw_env = genv, gw_tv = tv_zero, gw_cors = cors_zero, gw_dispatch = dispatch_New cfg, gw_shutting = False\<rparr>"

text \<open>Any error ends the process.\<close>

definition boot :: "go_lib \<Rightarrow> jwt_lib \<Rightarrow> boot_env \<Rightarrow> gateway_env \<Rightarrow> string + running \<times> gateway" where
  "boot lib jl be genv =
     (let cfg = config_Load (be_getenv be) in
      and_then (routes_Load lib (be_routesYaml be) (be_routesFile be) (RoutesFile cfg)) (\<lambda>routeList.
      case ValidateRouteOverrides lib routeList of
        Some err \<Rightarrow> Inl err
      | None \<Rightarrow>
          and_then (OpenSink lib (be_opens be) (AuditLog cfg)) (\<lambda>_.
          and_then (loader_Load lib (be_loader be) (imported_plugins lib jl) (PluginsFile cfg) (RoutesFile cfg)
              (JWTSecret cfg) (JWTJWKSURL cfg) (gateway_zero genv cfg)) (\<lambda>(ldr, s).
          and_then (proxy_New lib routeList) (\<lambda>es.
            Inr (\<lparr>rn_config = cfg, rn_routes = routeList, rn_loader = ldr, rn_entries = es\<rparr>, s))))))"

section \<open>Serving\<close>

definition chain_with_gate :: "running \<Rightarrow> gateway handler" where
  "chain_with_gate rn = withShutdownGate (Chain (rn_loader rn) (dispatcher_handler (rn_entries rn)))"

text \<open>\<open>http.ServeMux\<close>: an (escaped) path that is not clean is redirected to the clean one before any handler
  (the address in the answer is the library's); a pattern with GET also serves HEAD.\<close>

fun clean_segments :: "string list \<Rightarrow> string list \<Rightarrow> string list" where
  "clean_segments out [] = rev out"
| "clean_segments out (s # ss) =
     (if s = '''' \<or> s = ''.'' then clean_segments out ss
      else if s = ''..'' then clean_segments (tl out) ss
      else clean_segments (s # out) ss)"

definition clean_path :: "string \<Rightarrow> string" where
  "clean_path p =
     (let np = ''/'' @ join ''/'' (clean_segments [] (split_on (CHR ''/'') p)) in
      if has_suffix p ''/'' \<and> np \<noteq> ''/'' then np @ ''/'' else np)"

definition mux_serve :: "go_lib \<Rightarrow> running \<Rightarrow> gateway handler" where
  "mux_serve lib rn r w s =
     (if r_method r \<noteq> ''CONNECT'' \<and> clean_path (ge_escapedPath (gw_env s)) \<noteq> ge_escapedPath (gw_env s)
      then (WriteHeader 301 w, s)
      else if r_method r \<in> {''GET'', ''HEAD''} \<and> r_path r = ''/healthz'' then (handleHealthz w, s)
      else if r_method r \<in> {''GET'', ''HEAD''} \<and> r_path r = ''/readyz''
      then (makeReadyzHandler (rn_routes rn \<noteq> []) w, s)
      else if r_method r \<in> {''GET'', ''HEAD''} \<and> r_path r = ''/metrics'' then (metrics_endpoint lib (gw_dispatch s) w, s)
      else chain_with_gate rn r w s)"

text \<open>The signal handler: close the gate, then (the server having drained) shut the plugins down.\<close>

definition on_signal :: "running \<Rightarrow> ctx \<Rightarrow> gateway \<Rightarrow> (string \<times> string) list \<times> gateway" where
  "on_signal rn c s = loader_Shutdown (rn_loader rn) c (s\<lparr>gw_shutting := True\<rparr>)"

text \<open>A run: requests, each with the world's answers to it, and signals. The goroutine takes one signal; a later
  one finds no receiver.\<close>

datatype gateway_event = Request gateway_env http_request writer | Signal ctx

fun gateway_step :: "go_lib \<Rightarrow> running \<Rightarrow> gateway_event \<Rightarrow> gateway \<Rightarrow> gateway" where
  "gateway_step lib rn (Request genv r w) s = snd (mux_serve lib rn r w (s\<lparr>gw_env := genv\<rparr>))"
| "gateway_step lib rn (Signal c) s = (if gw_shutting s then s else snd (on_signal rn c s))"

definition gateway_run :: "go_lib \<Rightarrow> running \<Rightarrow> gateway_event list \<Rightarrow> gateway \<Rightarrow> gateway" where
  "gateway_run lib rn evs s = fold (gateway_step lib rn) evs s"

lemma gateway_run_snoc [simp]:
  "gateway_run lib rn [] s = s"
  "gateway_run lib rn (evs @ [ev]) s = gateway_step lib rn ev (gateway_run lib rn evs s)"
  by (simp_all add: gateway_run_def)

section \<open>The plugins as middlewares\<close>

lemma cors_Plugin_middleware: "middleware (p_Handler cors_Plugin)"
  unfolding cors_Plugin_def by (simp add: middleware_middleware_of)

lemma tv_Plugin_middleware: "middleware (p_Handler (tv_Plugin lib jl))"
proof
  fix r w s
  show "(\<exists>w' s'. \<forall>h. p_Handler (tv_Plugin lib jl) h r w s = (w', s')) \<or>
    (\<exists>r' w' s'. \<forall>h. p_Handler (tv_Plugin lib jl) h r w s = h r' w' s')"
    using middleware.answers_or_delegates [OF middleware_middleware_of, of gw_tv "\<lambda>tv s. s\<lparr>gw_tv := tv\<rparr>"
      "tv_handle lib jl (ge_tv (gw_env s))" r w s]
    by (simp add: tv_Plugin_def)
qed

interpretation gate_mw: middleware withShutdownGate
  by unfold_locales (unfold withShutdownGate_def, metis)

end
