(* ===== verification/ProxySafety.thy ===== *)
theory ProxySafety
  imports DispatchSafety
begin

text \<open>The identity headers an upstream receives, execution timeouts, and the observation of exchanges.\<close>

section \<open>Identity headers\<close>

text \<open>The names that the client's \<open>Connection\<close> header lists, canonical.\<close>

definition connection_names :: "http_request \<Rightarrow> string set" where
  "connection_names r = canon ` {t \<in> set (header_tokens (r_header r ''Connection'')). t \<noteq> ''''}"

definition identity_headers :: "string list" where
  "identity_headers = [''X-Tenant-Id'', ''X-Actor-Subject'', ''X-Actor-Roles'', ''X-Correlation-Id'', ''X-Request-Id'']"

lemma identity_not_hop:
  "k \<in> set identity_headers \<Longrightarrow> k \<notin> canon ` set hop_headers \<and> k \<noteq> ''Te'' \<and> k \<noteq> ''Upgrade'' \<and> k \<noteq> ''Connection'' \<and>
     k \<noteq> ''X-Forwarded-For'' \<and> k \<noteq> ''User-Agent''"
proof -
  have "\<forall>k \<in> set identity_headers. k \<notin> canon ` set hop_headers \<and> k \<noteq> ''Te'' \<and> k \<noteq> ''Upgrade'' \<and> k \<noteq> ''Connection'' \<and>
     k \<noteq> ''X-Forwarded-For'' \<and> k \<noteq> ''User-Agent''" by code_simp
  then show "k \<in> set identity_headers \<Longrightarrow> ?thesis" by blast
qed

lemma proxy_header_names:
  "canon ''Te'' = ''Te''" "canon ''Upgrade'' = ''Upgrade''" "canon ''X-Forwarded-For'' = ''X-Forwarded-For''"
  "canon ''User-Agent'' = ''User-Agent''" "canon ''Connection'' = ''Connection''"
  by code_simp+

lemma rp_headers_identity:
  assumes "k \<in> set identity_headers"
  shows "rp_headers remote inb out k =
    (if k \<in> canon ` {t \<in> set (header_tokens (out ''Connection'')). t \<noteq> ''''} then [] else out k)"
proof -
  have "remove_hop_by_hop out k =
      (if k \<in> canon ` {t \<in> set (header_tokens (out ''Connection'')). t \<noteq> ''''} then [] else out k)"
    using identity_not_hop [OF assms] by (simp add: remove_hop_by_hop_apply image_Un)
  then show ?thesis
    using identity_not_hop [OF assms]
    by (simp add: rp_headers_def Let_def hdr_set_apply proxy_header_names split: option.split)
qed

lemma director_header:
  "r_header (director target r) ''Connection'' = r_header r ''Connection''"
  by (simp add: director_def InjectUpstreamHeaders_def Let_def set_req_header_def hdr_set_apply upstream_header_names)

lemma rp_request_identity:
  assumes "canon k \<in> set identity_headers"
  shows "req_header (rp_request target remote r) k =
    (if canon k \<in> connection_names r then '''' else req_header (director target r) k)"
  using rp_headers_identity [OF assms, of remote "r_header r" "r_header (director target r)"]
  by (simp add: req_header_def rp_request_def Let_def hdr_get_def director_header connection_names_def)

lemma director_identity:
  "req_header (director target r) ''X-Tenant-ID'' =
     (if TenantID (r_ctx r) \<noteq> '''' then TenantID (r_ctx r) else req_header r ''X-Tenant-ID'')"
  "req_header (director target r) ''X-Actor-Subject'' =
     (if ActorSubject (r_ctx r) \<noteq> '''' then ActorSubject (r_ctx r) else req_header r ''X-Actor-Subject'')"
  "req_header (director target r) ''X-Actor-Roles'' =
     (if ActorRoles (r_ctx r) \<noteq> [] then join '','' (ActorRoles (r_ctx r)) else req_header r ''X-Actor-Roles'')"
  "req_header (director target r) ''X-Correlation-ID'' = CorrelationID (r_ctx r)"
  "req_header (director target r) ''X-Request-ID'' = RequestID (r_ctx r)"
  unfolding director_def InjectUpstreamHeaders_headers by (simp_all add: req_header_def)

text \<open>C18: what a standard route tells its upstream about the caller, exactly. Each identity header is the
  value of the request context; when the context has none, it is whatever the client sent under that name;
  and when the client's \<open>Connection\<close> header names it, it is absent, although the context has a
  value, because the reverse proxy removes hop-by-hop headers after the gateway has set its own. The
  correlation id is always the context's, even when that is empty and the client sent one.\<close>

theorem upstream_identity_headers:
  "let out = rp_request target remote r in
    req_header out ''X-Tenant-ID'' =
      (if ''X-Tenant-Id'' \<in> connection_names r then []
       else if TenantID (r_ctx r) \<noteq> [] then TenantID (r_ctx r) else req_header r ''X-Tenant-ID'') \<and>
    req_header out ''X-Actor-Subject'' =
      (if ''X-Actor-Subject'' \<in> connection_names r then []
       else if ActorSubject (r_ctx r) \<noteq> [] then ActorSubject (r_ctx r) else req_header r ''X-Actor-Subject'') \<and>
    req_header out ''X-Actor-Roles'' =
      (if ''X-Actor-Roles'' \<in> connection_names r then []
       else if ActorRoles (r_ctx r) \<noteq> [] then join '','' (ActorRoles (r_ctx r))
       else req_header r ''X-Actor-Roles'') \<and>
    req_header out ''X-Correlation-ID'' =
      (if ''X-Correlation-Id'' \<in> connection_names r then [] else CorrelationID (r_ctx r))"
  unfolding Let_def
  by (simp add: rp_request_identity identity_headers_def upstream_header_names director_identity)

text \<open>The case of the last clause of each header, on a concrete request: the client hides its tenant.\<close>

definition ex_hide_request :: http_request where
  "ex_hide_request = \<lparr>r_method = ''GET'', r_scheme = '''', r_urlhost = '''', r_host = ''gw'', r_path = ''/a'',
     r_query = '''', r_header = hdr_set no_header ''Connection'' ''keep-alive, x-tenant-id'', r_body = '''',
     r_ctx = WithTenantID Background ''acme''\<rparr>"

lemma connection_hides_tenant:
  "TenantID (r_ctx ex_hide_request) = ''acme'' \<and>
   req_header (rp_request target remote ex_hide_request) ''X-Tenant-ID'' = ''''"
proof -
  have "header_tokens [''keep-alive, x-tenant-id''] = [''keep-alive'', ''x-tenant-id'']"
    and "canon ''x-tenant-id'' = ''X-Tenant-Id''" by code_simp+
  then have "''X-Tenant-Id'' \<in> connection_names ex_hide_request"
    by (auto simp: connection_names_def ex_hide_request_def hdr_set_def proxy_header_names image_iff)
  then show ?thesis
    using rp_request_identity [of "''X-Tenant-ID''" target remote ex_hide_request]
    by (simp add: identity_headers_def upstream_header_names ex_hide_request_def ctx_simps)
qed

section \<open>Timeouts\<close>

lemma CtxErr_timeout:
  "ctx_deadline c = None \<Longrightarrow> CtxErr (WithTimeout c now d) t False =
     (if now + d \<le> t then Some DeadlineExceeded else None)"
  by (simp add: CtxErr_def WithTimeout_def)

lemma fresh_status_ops:
  "fresh w \<Longrightarrow> w_status (http_Error w m 502) = Some 502"
  by (simp add: http_Error_def fresh_def w_status_def aborted_def w_out_def set_header_def writer_simps
      conn_write_def conn_write_header_def Let_def)

lemma rp_error_status:
  "fresh w \<Longrightarrow> w_status (rp_error inp r w) =
     Some (if CtxErr (r_ctx r) (px_errnow inp) (px_gone inp) = Some DeadlineExceeded then 500 else 502)"
  by (simp add: rp_error_def WriteError_fresh final_status_def)

lemma rp_request_ctx [simp]: "r_ctx (rp_request target remote r) = r_ctx r"
  by (simp add: rp_request_def director_def Let_def)

text \<open>C20: an exchange that fails is answered, and the answer tells a timeout from a dead upstream. On a route
  with an execution timeout of \<open>n\<close> seconds, when the round trip fails and the client is still
  there, the client gets 500 if at least \<open>n\<close> seconds (\<open>n + 30\<close> on an SSE route) have
  passed since the request reached the proxy, and 502 otherwise.\<close>

theorem execution_timeout_status:
  assumes "0 < rt_ExecutionTimeoutSeconds route" and "rt_ExecutionTimeoutSeconds route \<le> 9223372000"
    and "ctx_deadline (r_ctx r) = None" and "fresh w" and "\<not> px_gone inp" and "px_newreq inp"
    and "\<And>q. px_upstream inp q = UpErr []"
    and "rt_Mode route = ModeSSE \<longrightarrow> fst (acquire_slot (TenantID (r_ctx r)) s)"
  defines "limit \<equiv> (rt_ExecutionTimeoutSeconds route + (if rt_Mode route = ModeSSE then 30 else 0)) * second_ns"
  shows "w_status (fst (route_timed target route inp r w s)) =
    Some (if px_now inp + limit \<le> px_errnow inp then 500 else 502)"
proof -
  let ?r = "with_context r (WithTimeout (r_ctx r) (px_now inp) (route_deadline route))"
  have d: "route_deadline route = limit"
    using assms(1,2) by (simp add: route_deadline_def limit_def Let_def dur_seconds_exact wrap64_small algebra_simps)
  have err: "CtxErr (r_ctx ?r) (px_errnow inp) (px_gone inp) =
      (if px_now inp + limit \<le> px_errnow inp then Some DeadlineExceeded else None)"
    using CtxErr_timeout [OF assms(3)] assms(5) d by simp
  have t: "route_timed target route inp r w s = route_proxy target route inp ?r w s"
    using assms(1) by (simp add: route_timed_def SSEContextTimeout_def)
  show ?thesis
  proof (cases "rt_Mode route = ModeSSE")
    case False
    then have "fst (route_timed target route inp r w s) = rp_error inp ?r w \<or>
        fst (route_timed target route inp r w s) = rp_error inp (rp_request target (px_remote inp) ?r) w"
      using assms(7) by (simp add: t route_proxy_def reverse_proxy_def Let_def)
    then show ?thesis using rp_error_status [OF assms(4)] err by auto
  next
    case True
    let ?w = "set_header ProfileHeader ProfileVersion w"
    obtain s1 where acq: "acquire_slot (TenantID (r_ctx ?r)) s = (True, s1)"
      using assms(8) True by (cases "acquire_slot (TenantID (r_ctx r)) s") (simp add: ctx_simps)
    have "fst (route_timed target route inp r w s) = snd (sse_failure inp ?r ?w)"
      using assms(6,7) acq True
      by (simp add: t route_proxy_def NewProxy_def NewSSEProxy_def Let_def split: prod.split)
    moreover have "fresh ?w" using assms(4) by (simp add: fresh_set_header)
    ultimately show ?thesis
      using err by (auto simp: sse_failure_def fresh_status_ops WriteError_fresh final_status_def)
  qed
qed

definition ex_timeout_route :: Route where
  "ex_timeout_route = \<lparr>rt_ID = ''chat'', rt_Method = ''POST'', rt_Path = ''/chat/{id}'', rt_Target = ''http://llm'',
     rt_Roles = [], rt_TenantRequired = True, rt_Audit = True, rt_Mode = ''sse'', rt_ExecutionTimeoutSeconds = 5,
     rt_Plugins = [], rt_PathParams = [''id'']\<rparr>"

lemma execution_timeout_status_witness:
  "w_status (fst (route_timed (''http'', ''llm'') ex_timeout_route
     (ex_sse_inputs\<lparr>px_upstream := (\<lambda>_. UpErr []), px_errnow := 36000000000\<rparr>)
     ex_sse_request (Conn new_conn) ex_dispatch)) = Some 500"
proof -
  have "fst (acquire_slot (TenantID (r_ctx ex_sse_request)) ex_dispatch)"
    by (subst acquire_slot_result(1) [where l = "NewLimiter 2"])
      (simp_all add: ex_dispatch_def Count_def NewLimiter_def)
  moreover have "ctx_deadline (r_ctx ex_sse_request) = None"
    by (simp add: ex_sse_request_def WithTenantID_def WithValue_def Background_def)
  ultimately show ?thesis
    using execution_timeout_status [of ex_timeout_route ex_sse_request "Conn new_conn"
      "ex_sse_inputs\<lparr>px_upstream := (\<lambda>_. UpErr []), px_errnow := 36000000000\<rparr>" ex_dispatch "(''http'', ''llm'')"]
    by (simp add: ex_timeout_route_def ex_sse_inputs_def ModeSSE_def fresh_new_conn)
qed

section \<open>Observation\<close>


definition ex_plain_inputs :: proxy_inputs where
  "ex_plain_inputs = ex_sse_inputs\<lparr>px_upstream := (\<lambda>_. UpErr [])\<rparr>"

definition ex_go_url :: go_lib where
  "ex_go_url = \<lparr>url_parse = (\<lambda>u. Some (''http'', ''llm'')), url_request_uri = (\<lambda>u. u \<noteq> ''''),
     fmt_quote = (\<lambda>s. CHR 0x22 # s @ [CHR 0x22]), json_object = (\<lambda>s. None)\<rparr>"


section \<open>Responses that break off\<close>

definition breaks_off :: "up_result \<Rightarrow> bool" where
  "breaks_off u \<longleftrightarrow> (case u of UpErr infos \<Rightarrow> False | UpResp infos resp \<Rightarrow> up_broken resp \<and> up_status resp \<noteq> 101)"

lemma aborted_ops [simp]: "aborted (panic w)" "aborted (unwrap w) = aborted w"
  by (cases w; simp add: aborted_def writer_simps)+

lemma reverse_proxy_broken:
  assumes "reverse_proxy target inp r w s = (w', s')" and "ds_sent s' \<noteq> ds_sent s" and "\<And>q. breaks_off (px_upstream inp q)"
  shows "aborted w'"
  using assms(1,2) assms(3) [of "rp_request target (px_remote inp) r"]
  by (auto simp: reverse_proxy_def breaks_off_def rp_respond_def Let_def split: if_splits up_result.splits)


end
