(* ===== verification/GatewaySafety.thy ===== *)
theory GatewaySafety
  imports Gateway ProxySafety
begin

text \<open>The properties of the whole program: what passes the chain, and what a request that reaches an upstream
  has gone through.\<close>

section \<open>The loaded chain\<close>

lemma imported_names:
  "first_named n (Registered (imported_plugins lib jl)) =
     (if n = ''cors'' then Some cors_Plugin else if n = tokenValidatorName then Some (tv_Plugin lib jl) else None)"
  using first_named_register_all [OF reg_inv_empty, of n "[cors_Plugin, tv_Plugin lib jl]"]
  by (simp add: imported_plugins_def first_named_Cons cors_Plugin_def tv_Plugin_def tokenValidatorName_def
      Registered_def empty_registry_def)

lemma reg_inv_imported: "reg_inv (imported_plugins lib jl)"
  by (simp add: imported_plugins_def)

lemma Plugin_names [simp]:
  "p_Name cors_Plugin = ''cors''" "p_Name (tv_Plugin lib jl) = tokenValidatorName"
  by (simp_all add: cors_Plugin_def tv_Plugin_def tokenValidatorName_def)

text \<open>The configurations of the entries that name the token validator.\<close>

definition tv_entries :: "entry list \<Rightarrow> config_map list" where
  "tv_entries es = map en_cfg (filter (\<lambda>e. en_name e = tokenValidatorName) es)"

definition merged_cfg :: "string \<Rightarrow> string \<Rightarrow> config_map \<Rightarrow> config_map" where
  "merged_cfg secret url cfg = merge_key ''jwks_url'' url (merge_key ''jwt_secret'' secret cfg)"

lemma tv_entries_merge:
  "tv_entries es = [cfg] \<Longrightarrow> tv_entries (mergeTokenValidatorEnv secret url es) = [merged_cfg secret url cfg]"
  by (induction es) (auto simp: tv_entries_def merged_cfg_def split: if_splits)

definition loaded_plugins :: "go_lib \<Rightarrow> jwt_lib \<Rightarrow> entry list \<Rightarrow> (gateway plugin \<times> config_map) list" where
  "loaded_plugins lib jl es = listed (\<lambda>n. first_named n (Registered (imported_plugins lib jl))) es"

lemma loaded_plugins_Cons:
  "loaded_plugins lib jl [] = []"
  "loaded_plugins lib jl (e # es) =
     (if en_name e = ''cors'' then [(cors_Plugin, en_cfg e)]
      else if en_name e = tokenValidatorName then [(tv_Plugin lib jl, en_cfg e)] else []) @ loaded_plugins lib jl es"
  by (simp_all add: loaded_plugins_def imported_names)

definition only_cors :: "(gateway plugin \<times> config_map) list \<Rightarrow> bool" where
  "only_cors pcs \<longleftrightarrow> fst ` set pcs \<subseteq> {cors_Plugin}"

lemma only_cors_simps [simp]:
  "only_cors []" "only_cors (pc # pcs) \<longleftrightarrow> fst pc = cors_Plugin \<and> only_cors pcs"
  by (auto simp: only_cors_def)

lemma loaded_plugins_none: "tv_entries es = [] \<Longrightarrow> only_cors (loaded_plugins lib jl es)"
  by (induction es) (auto simp: loaded_plugins_Cons tv_entries_def split: if_splits)

lemma loaded_plugins_split:
  "tv_entries es = [cfg] \<Longrightarrow>
     \<exists>A B. loaded_plugins lib jl es = A @ (tv_Plugin lib jl, cfg) # B \<and> only_cors A \<and> only_cors B"
proof (induction es)
  case (Cons e es)
  consider (tv) "en_name e = tokenValidatorName" | (cors) "en_name e = ''cors''" "en_name e \<noteq> tokenValidatorName"
    | (other) "en_name e \<noteq> ''cors''" "en_name e \<noteq> tokenValidatorName" by blast
  then show ?case
  proof cases
    case tv
    then have "tv_entries es = []" "en_cfg e = cfg" using Cons.prems by (simp_all add: tv_entries_def)
    moreover have "en_name e \<noteq> ''cors''" using tv by (simp add: tokenValidatorName_def)
    ultimately show ?thesis
      using tv loaded_plugins_none [of es lib jl]
      by (intro exI [of _ "[]"] exI [of _ "loaded_plugins lib jl es"]) (simp add: loaded_plugins_Cons)
  next
    case cors
    then obtain A B where "loaded_plugins lib jl es = A @ (tv_Plugin lib jl, cfg) # B" "only_cors A" "only_cors B"
      using Cons by (auto simp: tv_entries_def)
    then show ?thesis
      using cors by (intro exI [of _ "(cors_Plugin, en_cfg e) # A"] exI [of _ B]) (simp add: loaded_plugins_Cons)
  next
    case other
    then show ?thesis using Cons by (auto simp: tv_entries_def loaded_plugins_Cons)
  qed
qed (simp add: tv_entries_def)

section \<open>Initialisation\<close>

lemma init_run_append: "init_run (A @ B) s = and_then (init_run A s) (init_run B)"
proof (induction A arbitrary: s)
  case (Cons pc A)
  obtain p cfg where "pc = (p, cfg)" by (cases pc)
  then show ?case
    using Cons by (cases "p_Init p (NewMapConfig (Some cfg)) s") (simp_all add: init_run_Cons)
qed simp

lemma init_run_cors:
  "only_cors pcs \<Longrightarrow> init_run pcs s = Inr s' \<Longrightarrow> \<exists>c. s' = s\<lparr>gw_cors := c\<rparr>"
proof (induction pcs arbitrary: s)
  case Nil
  then show ?case by (intro exI [of _ "gw_cors s"]) simp
next
  case (Cons pc pcs)
  obtain cfg where pc: "pc = (cors_Plugin, cfg)" using Cons.prems(1) by (cases pc) simp
  then obtain s1 where "p_Init cors_Plugin (NewMapConfig (Some cfg)) s = Inr s1" "init_run pcs s1 = Inr s'"
    using Cons.prems(2) by (auto simp: init_run_Cons and_then_eq_Inr)
  moreover then obtain c where "s1 = s\<lparr>gw_cors := c\<rparr>" by (auto simp: cors_Plugin_def and_then_eq_Inr)
  ultimately show ?case using Cons by fastforce
qed

lemma init_run_tv:
  assumes "only_cors A" and "only_cors B" and "init_run (A @ (tv_Plugin lib jl, cfg) # B) s = Inr s'"
  shows "tv_Init lib (NewMapConfig (Some cfg)) (gw_tv s) = Inr (gw_tv s')"
    and "gw_dispatch s' = gw_dispatch s" and "gw_shutting s' = gw_shutting s"
proof -
  from assms(3) obtain s1 s2 where "init_run A s = Inr s1"
    and i: "p_Init (tv_Plugin lib jl) (NewMapConfig (Some cfg)) s1 = Inr s2" and "init_run B s2 = Inr s'"
    by (auto simp: init_run_append init_run_Cons and_then_eq_Inr)
  then obtain c d where "s1 = s\<lparr>gw_cors := c\<rparr>" "s' = s2\<lparr>gw_cors := d\<rparr>"
    using init_run_cors assms(1,2) by meson
  moreover obtain tv where "tv_Init lib (NewMapConfig (Some cfg)) (gw_tv s1) = Inr tv" "s2 = s1\<lparr>gw_tv := tv\<rparr>"
    using i by (auto simp: tv_Plugin_def and_then_eq_Inr)
  ultimately show "tv_Init lib (NewMapConfig (Some cfg)) (gw_tv s) = Inr (gw_tv s')"
    and "gw_dispatch s' = gw_dispatch s" and "gw_shutting s' = gw_shutting s" by simp_all
qed

section \<open>Passing the chain\<close>

lemma cors_Plugin_cases:
  obtains (answered) w' where "\<And>h. p_Handler cors_Plugin h r w s = (w', s)"
  | (passed) w' where "\<And>h. p_Handler cors_Plugin h r w s = h r w' s"
proof -
  obtain v c where d: "cors_handle r w (gw_cors s) = (v, c)" by fastforce
  then have c: "c = gw_cors s" and v: "\<And>r' w'. v = Next r' w' \<Longrightarrow> r' = r"
    by (auto simp: cors_handle_def Let_def split: if_splits)
  show thesis
  proof (cases v)
    case (Respond w')
    with d c show thesis by (intro answered [of w']) (simp add: cors_Plugin_def middleware_of_def)
  next
    case (Next r' w')
    with d c v show thesis by (intro passed [of w']) (simp add: cors_Plugin_def middleware_of_def)
  qed
qed

lemma cors_chain_cases:
  assumes "only_cors pcs"
  shows "(\<exists>w'. \<forall>h. foldr (\<lambda>(p, cfg). p_Handler p) pcs h r w s = (w', s)) \<or>
    (\<exists>w'. \<forall>h. foldr (\<lambda>(p, cfg). p_Handler p) pcs h r w s = h r w' s)"
  using assms
proof (induction pcs arbitrary: w)
  case (Cons pc pcs)
  obtain cfg where pc: "pc = (cors_Plugin, cfg)" using Cons.prems by (cases pc) simp
  have "only_cors pcs" using Cons.prems by simp
  note IH = Cons.IH [OF this]
  show ?case
  proof (cases rule: cors_Plugin_cases [of r w s])
    case (answered w')
    then show ?thesis by (auto simp: pc)
  next
    case (passed w')
    with IH [of w'] show ?thesis by (simp add: pc)
  qed
qed auto

definition tv_chain :: "go_lib \<Rightarrow> jwt_lib \<Rightarrow> (gateway plugin \<times> config_map) list \<Rightarrow> gateway loader \<Rightarrow> bool" where
  "tv_chain lib jl pcs l \<longleftrightarrow> ld_ordered l = map fst pcs \<and>
     (\<exists>A cfg B. pcs = A @ (tv_Plugin lib jl, cfg) # B \<and> only_cors A \<and> only_cors B)"

text \<open>A request that enters the chain is answered before the token validator, answered by it, answered after
  it, or reaches the dispatcher with the context the token validator gave it.\<close>

lemma tv_chain_cases:
  assumes "tv_chain lib jl pcs l" and "Chain l h r w s = (w', s')"
  obtains (before) "s' = s"
  | (rejected) w1 tv' where "snd (tv_handle lib jl (ge_tv (gw_env s)) r w1 (gw_tv s)) = tv'" and "s' = s\<lparr>gw_tv := tv'\<rparr>"
  | (passed) w1 r2 w2 tv' w3 where "tv_handle lib jl (ge_tv (gw_env s)) r w1 (gw_tv s) = (Next r2 w2, tv')"
      and "h r2 w3 (s\<lparr>gw_tv := tv'\<rparr>) = (w', s')"
proof -
  from assms(1) obtain A cfg B where pcs: "pcs = A @ (tv_Plugin lib jl, cfg) # B" "only_cors A" "only_cors B"
    and "ld_ordered l = map fst pcs" by (auto simp: tv_chain_def)
  note ch = Chain_listed [OF this(4), of h]
  let ?B = "foldr (\<lambda>(p, cfg). p_Handler p) B h"
  have e: "foldr (\<lambda>(p, cfg). p_Handler p) A (p_Handler (tv_Plugin lib jl) ?B) r w s = (w', s')"
    using assms(2) ch pcs(1) by simp
  from cors_chain_cases [OF pcs(2), of r w s] consider "s' = s"
    | w1 where "p_Handler (tv_Plugin lib jl) ?B r w1 s = (w', s')"
    using e by (metis prod.inject)
  then show thesis
  proof cases
    case 1
    then show thesis by (rule before)
  next
    case (2 w1)
    obtain v tv' where t: "tv_handle lib jl (ge_tv (gw_env s)) r w1 (gw_tv s) = (v, tv')" by fastforce
    show thesis
    proof (cases v)
      case (Respond w2)
      with 2 t show thesis by (intro rejected [of w1 tv']) (simp_all add: tv_Plugin_def middleware_of_def)
    next
      case (Next r2 w2)
      then have "?B r2 w2 (s\<lparr>gw_tv := tv'\<rparr>) = (w', s')"
        using 2 t by (simp add: tv_Plugin_def middleware_of_def)
      with cors_chain_cases [OF pcs(3), of r2 w2 "s\<lparr>gw_tv := tv'\<rparr>"] consider "s' = s\<lparr>gw_tv := tv'\<rparr>"
        | w3 where "h r2 w3 (s\<lparr>gw_tv := tv'\<rparr>) = (w', s')" by (metis prod.inject)
      then show thesis
      proof cases
        case 1
        with t show thesis by (intro rejected [of w1 tv']) simp_all
      next
        case (2 w3)
        with t Next show thesis by (intro passed [of w1 r2 w2 tv' w3]) simp_all
      qed
    qed
  qed
qed

section \<open>A booted gateway\<close>

text \<open>Boot with one entry for the token validator: its plugin is in the chain, initialised with that entry's
  configuration and the environment's JWT settings.\<close>

lemma boot_facts:
  assumes "boot lib jl be genv = Inr (rn, g0)" and "config = config_Load (be_getenv be)"
    and "readEntries lib (be_loader be) (PluginsFile config) (RoutesFile config) = Inr entries"
    and "tv_entries entries = [cfg]"
  shows "\<exists>pcs. tv_chain lib jl pcs (rn_loader rn)"
    and "tv_Init lib (NewMapConfig (Some (merged_cfg (JWTSecret config) (JWTJWKSURL config) cfg))) tv_zero = Inr (gw_tv g0)"
    and "gw_dispatch g0 = dispatch_New config" and "\<not> gw_shutting g0"
    and "proxy_New lib (rn_routes rn) = Inr (rn_entries rn)"
proof -
  from assms(1) have
    l: "loader_Load lib (be_loader be) (imported_plugins lib jl) (PluginsFile config) (RoutesFile config)
      (JWTSecret config) (JWTJWKSURL config) (gateway_zero genv config) = Inr (rn_loader rn, g0)"
    and p: "proxy_New lib (rn_routes rn) = Inr (rn_entries rn)"
    unfolding boot_def Let_def assms(2) [symmetric] by (auto simp: and_then_eq_Inr split: option.splits)
  let ?pcs = "loaded_plugins lib jl (mergeTokenValidatorEnv (JWTSecret config) (JWTJWKSURL config) entries)"
  have o: "ld_ordered (rn_loader rn) = map fst ?pcs" and i: "init_run ?pcs (gateway_zero genv config) = Inr g0"
    using loader_Load_facts [OF reg_inv_imported l] assms(3) by (auto simp: loaded_plugins_def)
  from loaded_plugins_split [OF tv_entries_merge [OF assms(4)]] obtain A B where
    s: "?pcs = A @ (tv_Plugin lib jl, merged_cfg (JWTSecret config) (JWTJWKSURL config) cfg) # B" "only_cors A" "only_cors B"
    by blast
  from s o show "\<exists>pcs. tv_chain lib jl pcs (rn_loader rn)" unfolding tv_chain_def by blast
  note r = init_run_tv [OF s(2,3) i [unfolded s(1)], unfolded gateway_zero_def, simplified]
  from r show "tv_Init lib (NewMapConfig (Some (merged_cfg (JWTSecret config) (JWTJWKSURL config) cfg))) tv_zero = Inr (gw_tv g0)"
    and "gw_dispatch g0 = dispatch_New config" and "\<not> gw_shutting g0" by simp_all
  show "proxy_New lib (rn_routes rn) = Inr (rn_entries rn)" by (rule p)
qed

section \<open>Runs\<close>

fun event_fetch :: "gateway_event \<Rightarrow> fetch_inputs list" where
  "event_fetch (Request genv r w) = [tvi_fetch (ge_tv genv)]"
| "event_fetch (Signal c) = []"

definition run_fetches :: "gateway_event list \<Rightarrow> fetch_inputs list" where
  "run_fetches evs = concat (map event_fetch evs)"

lemma run_fetches_simps [simp]:
  "run_fetches [] = []" "run_fetches (evs @ [ev]) = run_fetches evs @ event_fetch ev"
  by (simp_all add: run_fetches_def)

text \<open>The steps of the gateway are, for the token validator, calls of its handler with the inputs of the
  requests.\<close>

definition tv_stepped :: "go_lib \<Rightarrow> jwt_lib \<Rightarrow> fetch_inputs set \<Rightarrow> token_validator \<Rightarrow> token_validator \<Rightarrow> bool" where
  "tv_stepped lib jl F tv tv' \<longleftrightarrow> (\<exists>tevs. tv' = tv_run lib jl tevs tv \<and> (\<lambda>(i, r, w). tvi_fetch i) ` set tevs \<subseteq> F)"

lemma tv_stepped_refl: "tv_stepped lib jl F tv tv"
  unfolding tv_stepped_def by (intro exI [of _ "[]"]) simp

lemma tv_stepped_handle: "tv_stepped lib jl {tvi_fetch i} tv (snd (tv_handle lib jl i r w tv))"
  unfolding tv_stepped_def by (intro exI [of _ "[(i, r, w)]"]) (simp add: tv_run_def)

lemma tv_stepped_trans:
  assumes "tv_stepped lib jl F tv tv1" and "tv_stepped lib jl G tv1 tv2"
  shows "tv_stepped lib jl (F \<union> G) tv tv2"
proof -
  from assms obtain t1 t2 where "tv1 = tv_run lib jl t1 tv" "tv2 = tv_run lib jl t2 tv1"
    "(\<lambda>(i, r, w). tvi_fetch i) ` set t1 \<subseteq> F" "(\<lambda>(i, r, w). tvi_fetch i) ` set t2 \<subseteq> G"
    by (auto simp: tv_stepped_def)
  then show ?thesis unfolding tv_stepped_def by (intro exI [of _ "t1 @ t2"]) (auto simp: tv_run_def)
qed

lemma dispatcher_handler_frame:
  "dispatcher_handler es r w s = (w', s') \<Longrightarrow> s' = s\<lparr>gw_dispatch := gw_dispatch s'\<rparr>"
  by (auto simp: dispatcher_handler_def split: prod.splits)

lemma tv_chain_stepped:
  assumes "tv_chain lib jl pcs l" and "Chain l (dispatcher_handler es) r w s = (w', s')"
  shows "tv_stepped lib jl {tvi_fetch (ge_tv (gw_env s))} (gw_tv s) (gw_tv s') \<and> gw_shutting s' = gw_shutting s"
proof (rule tv_chain_cases [OF assms])
  assume "s' = s"
  then show ?thesis by (simp add: tv_stepped_refl)
next
  fix w1 tv' assume "snd (tv_handle lib jl (ge_tv (gw_env s)) r w1 (gw_tv s)) = tv'" and "s' = s\<lparr>gw_tv := tv'\<rparr>"
  then show ?thesis using tv_stepped_handle [of lib jl "ge_tv (gw_env s)" "gw_tv s" r w1] by simp
next
  fix w1 r2 w2 tv' w3
  assume t: "tv_handle lib jl (ge_tv (gw_env s)) r w1 (gw_tv s) = (Next r2 w2, tv')"
    and d: "dispatcher_handler es r2 w3 (s\<lparr>gw_tv := tv'\<rparr>) = (w', s')"
  from dispatcher_handler_frame [OF d] have "gw_tv s' = tv' \<and> gw_shutting s' = gw_shutting s"
    by (metis gateway.select_convs(2,5) gateway.surjective gateway.update_convs(2,4))
  then show ?thesis using tv_stepped_handle [of lib jl "ge_tv (gw_env s)" "gw_tv s" r w1] t by simp
qed

lemma mux_serve_stepped:
  assumes "tv_chain lib jl pcs (rn_loader rn)" and "mux_serve lib rn r w s = (w', s')"
  shows "tv_stepped lib jl {tvi_fetch (ge_tv (gw_env s))} (gw_tv s) (gw_tv s') \<and> gw_shutting s' = gw_shutting s"
proof -
  from assms(2) consider "s' = s" | "Chain (rn_loader rn) (dispatcher_handler (rn_entries rn)) r w s = (w', s')"
    by (auto simp: mux_serve_def chain_with_gate_def withShutdownGate_def split: if_splits)
  then show ?thesis
  proof cases
    case 1
    then show ?thesis by (simp add: tv_stepped_refl)
  next
    case 2
    with tv_chain_stepped [OF assms(1)] show ?thesis by blast
  qed
qed

lemma idle_shutdown: "\<forall>p \<in> set ps. \<forall>s. snd (p_Shutdown p c s) = s \<Longrightarrow> fold (\<lambda>p s. snd (p_Shutdown p c s)) ps s = s"
  by (induction ps) simp_all

text \<open>The operational endpoints answer with the status they set.\<close>

lemma status_sticks: "w_status v = Some st \<Longrightarrow> w_status (Write b v) = Some st"
  by (simp add: w_status_def writer_simps conn_status_stable)

lemma status_set: "fresh w \<Longrightarrow> final_status st \<Longrightarrow> w_status (WriteHeader st (set_header k v w)) = Some st"
  by (simp add: w_status_def fresh_def aborted_def final_status_def set_header_def writer_simps conn_write_header_def)

lemma operational_status:
  assumes "fresh w"
  shows "w_status (handleHealthz w) = Some 200"
    and "w_status (makeReadyzHandler ready w) = Some (if ready then 200 else 503)"
    and "w_status (metrics_endpoint lib d w) = Some 200"
    and "w_status (shutting_down w) = Some 503"
  using status_set [OF assms]
  by (simp_all add: handleHealthz_def makeReadyzHandler_def metrics_endpoint_def shutting_down_def Let_def status_sticks
      final_status_def WriteError_fresh [OF assms] split: option.split)

lemma tv_chain_shutdown:
  assumes "tv_chain lib jl pcs (rn_loader rn)"
  shows "snd (on_signal rn c s) = s\<lparr>gw_shutting := True\<rparr>"
proof -
  from assms obtain A cfg B where "ld_ordered (rn_loader rn) = map fst (A @ (tv_Plugin lib jl, cfg) # B)"
    "only_cors A" "only_cors B" by (auto simp: tv_chain_def)
  then have "set (ld_ordered (rn_loader rn)) \<subseteq> {cors_Plugin, tv_Plugin lib jl}"
    by (auto simp: only_cors_def)
  then have "\<forall>p \<in> set (rev (ld_ordered (rn_loader rn))). \<forall>s. snd (p_Shutdown p c s) = s"
    by (auto simp: cors_Plugin_def tv_Plugin_def)
  then show ?thesis by (simp add: on_signal_def shutdown_all idle_shutdown)
qed

lemma gateway_run_stepped:
  assumes "tv_chain lib jl pcs (rn_loader rn)"
  shows "tv_stepped lib jl (set (run_fetches evs)) (gw_tv s) (gw_tv (gateway_run lib rn evs s))"
proof (induction evs rule: rev_induct)
  case Nil
  show ?case by (simp add: tv_stepped_refl)
next
  case (snoc ev evs)
  have "tv_stepped lib jl (set (event_fetch ev)) (gw_tv (gateway_run lib rn evs s))
      (gw_tv (gateway_step lib rn ev (gateway_run lib rn evs s)))"
  proof (cases ev)
    case (Request genv r w)
    obtain w' g' where e: "mux_serve lib rn r w ((gateway_run lib rn evs s)\<lparr>gw_env := genv\<rparr>) = (w', g')" by fastforce
    with mux_serve_stepped [OF assms e] show ?thesis by (simp add: Request)
  next
    case (Signal c)
    then show ?thesis by (simp add: tv_chain_shutdown [OF assms] tv_stepped_refl)
  qed
  from tv_stepped_trans [OF snoc.IH this] show ?case by simp
qed

section \<open>The floor\<close>

lemma v2_context_fields:
  "ActorRoles (v2_context tv mc c) = claimStrSlice mc ''roles''"
  "ActorSubject (v2_context tv mc c) = claimStr mc ''sub''"
  "TenantID (v2_context tv mc c) = (if claimStr mc ''tenant_id'' \<noteq> '''' then claimStr mc ''tenant_id'' else TenantID c)"
  by (simp_all add: v2_context_def with_actor_def propagateClaimsToCtx_def Let_def ctx_simps)

lemma with_context_same:
  "route_matches (with_context r c) = route_matches r" "connection_names (with_context r c) = connection_names r"
  by (simp_all add: route_matches_def connection_names_def with_context_def fun_eq_iff)

lemma tv_chain_reached:
  assumes "tv_chain lib jl pcs l" and "Chain l h r w s = (w', s')" and "gw_dispatch s' \<noteq> gw_dispatch s"
  obtains w1 r2 w2 tv' w3 where "tv_handle lib jl (ge_tv (gw_env s)) r w1 (gw_tv s) = (Next r2 w2, tv')"
    and "h r2 w3 (s\<lparr>gw_tv := tv'\<rparr>) = (w', s')"
proof (rule tv_chain_cases [OF assms(1,2)])
  assume "s' = s"
  with assms(3) show thesis by simp
next
  fix tv' assume "s' = s\<lparr>gw_tv := tv'\<rparr>"
  with assms(3) show thesis by simp
qed (rule that)

lemma route_request_tenant:
  assumes "rt_Mode route \<noteq> ModeSSE" and "''X-Tenant-Id'' \<notin> connection_names r" and "TenantID (r_ctx r) \<noteq> ''''"
  shows "req_header (route_request target route inp r) ''X-Tenant-ID'' = TenantID (r_ctx r)"
proof -
  let ?r = "if rt_ExecutionTimeoutSeconds route > 0
      then with_context r (WithTimeout (r_ctx r) (px_now inp) (route_deadline route)) else r"
  have "TenantID (r_ctx ?r) = TenantID (r_ctx r)" "''X-Tenant-Id'' \<notin> connection_names ?r"
    using assms(2) by (simp_all add: with_context_same ctx_simps)
  with assms(1,3) show ?thesis
    by (simp add: route_request_def Let_def rp_request_identity identity_headers_def upstream_header_names director_identity
        del: if_split split del: if_split)
qed

text \<open>What the program does with a request whose token made the claims \<open>mc\<close>, when it sends something upstream: the
  route is the first of the table that the request matches, and the one request sent goes to its target with
  the client's method, path and body; the roles of the route are among the token's roles; a route that
  requires a tenant gets it from the token; and on a standard route that tenant is the one the upstream reads,
  unless the client's \<open>Connection\<close> header removes it.\<close>

definition forwarded_as ::
    "go_lib \<Rightarrow> Route list \<Rightarrow> http_request \<Rightarrow> config_map \<Rightarrow> http_request list \<Rightarrow> http_request list \<Rightarrow> bool" where
  "forwarded_as lib rts r mc sent sent' \<longleftrightarrow>
     (\<exists>route target out. find (route_matches r) rts = Some route \<and> url_parse lib (rt_Target route) = Some target \<and>
        sent' = sent @ [out] \<and>
        r_scheme out = fst target \<and> r_urlhost out = snd target \<and> r_host out = snd target \<and>
        r_method out = r_method r \<and> r_path out = r_path r \<and> r_body out = r_body r \<and>
        set (rt_Roles route) \<subseteq> set (claimStrSlice mc ''roles'') \<and>
        (rt_TenantRequired route \<longrightarrow> claimStr mc ''tenant_id'' \<noteq> '''') \<and>
        (rt_Mode route \<noteq> ModeSSE \<and> claimStr mc ''tenant_id'' \<noteq> '''' \<and> ''X-Tenant-Id'' \<notin> connection_names r \<longrightarrow>
           req_header out ''X-Tenant-ID'' = claimStr mc ''tenant_id''))"

lemma identity_forwarded:
  assumes "proxy_New lib rts = Inr es" and "dispatch_ServeHTTP es inp r2 w d = (w', d')" and "ds_sent d' \<noteq> ds_sent d"
    and "r2 = with_context r c" and "identity_of mc (r_ctx r) c" and "TenantID (r_ctx r) = ''''"
  shows "forwarded_as lib rts r mc (ds_sent d) (ds_sent d')"
proof -
  from dispatch_sent [OF assms(1,2)] assms(3) obtain route target where
    rt: "find (route_matches r2) rts = Some route" "url_parse lib (rt_Target route) = Some target"
      "ds_sent d' = ds_sent d @ [route_request target route inp r2]"
      "set (rt_Roles route) \<subseteq> set (ActorRoles (r_ctx r2))" "rt_TenantRequired route \<longrightarrow> TenantID (r_ctx r2) \<noteq> ''''"
    by metis
  let ?out = "route_request target route inp r2"
  have ctx: "r_ctx r2 = c" by (simp add: assms(4) with_context_def)
  have id: "ActorRoles c = claimStrSlice mc ''roles''" "TenantID c = claimStr mc ''tenant_id''"
    using assms(5,6) by (simp_all add: identity_of_def)
  have "rt_Mode route \<noteq> ModeSSE \<and> claimStr mc ''tenant_id'' \<noteq> '''' \<and> ''X-Tenant-Id'' \<notin> connection_names r \<longrightarrow>
      req_header ?out ''X-Tenant-ID'' = claimStr mc ''tenant_id''"
    using route_request_tenant [of route r2 target inp] ctx id by (auto simp: assms(4) with_context_same)
  moreover have "r_method r2 = r_method r" "r_path r2 = r_path r" "r_body r2 = r_body r"
    by (simp_all add: assms(4) with_context_def)
  moreover have "find (route_matches r) rts = Some route" using rt(1) by (simp add: assms(4) with_context_same)
  ultimately show ?thesis
    using route_request_copies [of target route inp r2] rt(2-5) ctx id unfolding forwarded_as_def
    by - (rule exI [of _ route], rule exI [of _ target], rule exI [of _ ?out], simp)
qed

text \<open>When serving a request adds to what was sent, its token passed the validator, in the state that the run left
  it in, and the dispatcher got what the validator let through.\<close>

lemma booted_reached:
  assumes "boot lib jl be genv0 = Inr (rn, g0)" and "config = config_Load (be_getenv be)"
    and "readEntries lib (be_loader be) (PluginsFile config) (RoutesFile config) = Inr entries"
    and "tv_entries entries = [cfg]" and "g = gateway_run lib rn evs g0"
    and "mux_serve lib rn r w (g\<lparr>gw_env := genv\<rparr>) = (w', g')"
    and "ds_sent (gw_dispatch g') \<noteq> ds_sent (gw_dispatch g)"
  obtains tevs w1 r2 w2 tv' w3 where
    "tv_handle lib jl (ge_tv genv) r w1 (tv_run lib jl tevs (gw_tv g0)) = (Next r2 w2, tv')"
    and "fetches tevs (ge_tv genv) \<subseteq> insert (tvi_fetch (ge_tv genv)) (set (run_fetches evs))"
    and "dispatch_ServeHTTP (rn_entries rn) (ge_proxy genv) r2 w3 (gw_dispatch g) = (w', gw_dispatch g')"
proof -
  let ?g = "g\<lparr>gw_env := genv\<rparr>"
  from boot_facts(1) [OF assms(1-4)] obtain pcs where ch: "tv_chain lib jl pcs (rn_loader rn)" by blast
  have "Chain (rn_loader rn) (dispatcher_handler (rn_entries rn)) r w ?g = (w', g')"
    using assms(6,7) by (auto simp: mux_serve_def chain_with_gate_def withShutdownGate_def split: if_splits)
  moreover have "gw_dispatch g' \<noteq> gw_dispatch ?g" using assms(7) by auto
  ultimately obtain w1 r2 w2 tv' w3 where
    t: "tv_handle lib jl (ge_tv genv) r w1 (gw_tv g) = (Next r2 w2, tv')"
    and d: "dispatcher_handler (rn_entries rn) r2 w3 (?g\<lparr>gw_tv := tv'\<rparr>) = (w', g')"
    by (rule tv_chain_reached [OF ch]) simp
  from gateway_run_stepped [OF ch, of evs g0] obtain tevs where
    tevs: "gw_tv g = tv_run lib jl tevs (gw_tv g0)" "(\<lambda>(i, r, w). tvi_fetch i) ` set tevs \<subseteq> set (run_fetches evs)"
    unfolding tv_stepped_def assms(5) by blast
  from d have "dispatch_ServeHTTP (rn_entries rn) (ge_proxy genv) r2 w3 (gw_dispatch g) = (w', gw_dispatch g')"
    by (auto simp: dispatcher_handler_def split: prod.splits)
  moreover have "fetches tevs (ge_tv genv) \<subseteq> insert (tvi_fetch (ge_tv genv)) (set (run_fetches evs))"
    using tevs(2) unfolding fetches_def by blast
  ultimately show thesis using t tevs(1) that by metis
qed

text \<open>The endpoints that a configuration names.\<close>

definition configured_urls :: "map_config \<Rightarrow> string set" where
  "configured_urls cfg =
     (if isV2Config (Raw cfg) then ic_jwksURL ` set (config_issuers cfg) else {GetString cfg ''jwks_url''})"

text \<open>One of the endpoints answered one of the fetches with a document that holds the key.\<close>

definition published_key :: "jwt_lib \<Rightarrow> string set \<Rightarrow> fetch_inputs set \<Rightarrow> rsa_key \<Rightarrow> bool" where
  "published_key jl urls F key \<longleftrightarrow>
     (\<exists>url \<in> urls. \<exists>i \<in> F. \<exists>kid ks. jwks_published jl (fi_fetch i url) = Inr ks \<and> map_of ks kid = Some key)"

lemma published_keyI:
  assumes "\<exists>i \<in> F. \<exists>ks. jwks_published jl (fi_fetch i url) = Inr ks \<and> map_of ks kid = Some key" and "F \<subseteq> G" and "url \<in> urls"
  shows "published_key jl urls G key"
  using assms unfolding published_key_def by blast



section \<open>Shutdown\<close>

lemma booted_plugins:
  assumes "boot lib jl be genv = Inr (rn, g0)"
  shows "set (ld_ordered (rn_loader rn)) \<subseteq> {cors_Plugin, tv_Plugin lib jl}"
proof -
  let ?c = "config_Load (be_getenv be)"
  from assms have "loader_Load lib (be_loader be) (imported_plugins lib jl) (PluginsFile ?c) (RoutesFile ?c)
      (JWTSecret ?c) (JWTJWKSURL ?c) (gateway_zero genv ?c) = Inr (rn_loader rn, g0)"
    unfolding boot_def Let_def by (auto simp: and_then_eq_Inr split: option.splits)
  then obtain es where "ld_ordered (rn_loader rn) = map fst (loaded_plugins lib jl es)"
    by (rule loader_Load_facts [OF reg_inv_imported]) (simp add: loaded_plugins_def)
  moreover have "fst ` set (loaded_plugins lib jl es) \<subseteq> {cors_Plugin, tv_Plugin lib jl}"
    by (induction es) (auto simp: loaded_plugins_Cons split: if_splits)
  ultimately show ?thesis by simp
qed

text \<open>Handlers that neither read the flag nor change it.\<close>

definition ignores_gate :: "gateway handler \<Rightarrow> bool" where
  "ignores_gate h \<longleftrightarrow>
     (\<forall>r w s b. h r w (s\<lparr>gw_shutting := b\<rparr>) = (fst (h r w s), (snd (h r w s))\<lparr>gw_shutting := b\<rparr>) \<and>
                gw_shutting (snd (h r w s)) = gw_shutting s)"

lemma ignores_gate_plugin:
  assumes "ignores_gate h" and "p \<in> {cors_Plugin, tv_Plugin lib jl}"
  shows "ignores_gate (p_Handler p h)"
proof -
  have set: "h r w (s\<lparr>gw_shutting := b\<rparr>) = (fst (h r w s), (snd (h r w s))\<lparr>gw_shutting := b\<rparr>)" for r w s b
    using assms(1) unfolding ignores_gate_def by blast
  have h: "h r w (s\<lparr>gw_shutting := b, gw_cors := c\<rparr>) =
      (fst (h r w (s\<lparr>gw_cors := c\<rparr>)), (snd (h r w (s\<lparr>gw_cors := c\<rparr>)))\<lparr>gw_shutting := b\<rparr>)"
    "h r w (s\<lparr>gw_shutting := b, gw_tv := tv\<rparr>) =
      (fst (h r w (s\<lparr>gw_tv := tv\<rparr>)), (snd (h r w (s\<lparr>gw_tv := tv\<rparr>)))\<lparr>gw_shutting := b\<rparr>)" for r w s c tv b
  proof -
    have "s\<lparr>gw_shutting := b, gw_cors := c\<rparr> = s\<lparr>gw_cors := c, gw_shutting := b\<rparr>"
      and "s\<lparr>gw_shutting := b, gw_tv := tv\<rparr> = s\<lparr>gw_tv := tv, gw_shutting := b\<rparr>" by simp_all
    then show "h r w (s\<lparr>gw_shutting := b, gw_cors := c\<rparr>) =
        (fst (h r w (s\<lparr>gw_cors := c\<rparr>)), (snd (h r w (s\<lparr>gw_cors := c\<rparr>)))\<lparr>gw_shutting := b\<rparr>)"
      "h r w (s\<lparr>gw_shutting := b, gw_tv := tv\<rparr>) =
        (fst (h r w (s\<lparr>gw_tv := tv\<rparr>)), (snd (h r w (s\<lparr>gw_tv := tv\<rparr>)))\<lparr>gw_shutting := b\<rparr>)"
      using set by metis+
  qed
  have k: "gw_shutting (snd (h r w s)) = gw_shutting s" for r w s
    using assms(1) unfolding ignores_gate_def by blast
  have "ignores_gate (p_Handler cors_Plugin h)" "ignores_gate (p_Handler (tv_Plugin lib jl) h)"
    by (simp_all add: ignores_gate_def cors_Plugin_def tv_Plugin_def middleware_of_def h k split: prod.split verdict.split)
  with assms(2) show ?thesis by blast
qed

lemma ignores_gate_chain:
  assumes "set ps \<subseteq> {cors_Plugin, tv_Plugin lib jl}" and "ignores_gate h"
  shows "ignores_gate (foldr p_Handler ps h)"
  using assms by (induction ps) (auto dest: ignores_gate_plugin)

lemma booted_chain_ignores_gate:
  assumes "boot lib jl be genv = Inr (rn, g0)"
  shows "ignores_gate (Chain (rn_loader rn) (dispatcher_handler (rn_entries rn)))"
proof -
  have "ignores_gate (dispatcher_handler (rn_entries rn))"
    by (simp add: ignores_gate_def dispatcher_handler_def split: prod.split)
  from ignores_gate_chain [OF booted_plugins [OF assms] this] show ?thesis by (simp add: Chain_foldr)
qed

lemma mux_keeps_gate:
  assumes "boot lib jl be genv = Inr (rn, g0)"
  shows "gw_shutting (snd (mux_serve lib rn r w s)) = gw_shutting s"
  using booted_chain_ignores_gate [OF assms]
  by (simp add: ignores_gate_def mux_serve_def chain_with_gate_def withShutdownGate_def)

lemma signal_closes_gate:
  assumes "boot lib jl be genv = Inr (rn, g0)"
  shows "snd (on_signal rn c s) = s\<lparr>gw_shutting := True\<rparr>"
proof -
  have "\<forall>p \<in> set (rev (ld_ordered (rn_loader rn))). \<forall>s. snd (p_Shutdown p c s) = s"
    using booted_plugins [OF assms] by (auto simp: cors_Plugin_def tv_Plugin_def)
  then show ?thesis by (simp add: on_signal_def shutdown_all idle_shutdown)
qed

lemma gate_stays_closed:
  assumes "boot lib jl be genv = Inr (rn, g0)" and "Signal c \<in> set evs"
  shows "gw_shutting (gateway_run lib rn evs g)"
  using assms(2)
proof (induction evs rule: rev_induct)
  case (snoc ev evs)
  show ?case
  proof (cases ev)
    case (Request genv r w)
    with snoc have "gw_shutting (gateway_run lib rn evs g)" by simp
    then show ?thesis by (simp add: Request mux_keeps_gate [OF assms(1)])
  next
    case (Signal d)
    then show ?thesis by (simp add: signal_closes_gate [OF assms(1)])
  qed
qed simp

text \<open>C14: after the first signal no request goes further than the gate. In any gateway that booted, whatever
  its plugins and whatever happened before and since, a request after a signal leaves the state as it was:
  no plugin runs, no upstream is contacted, nothing is recorded. It is answered with 503 and
  \<open>SHUTTING_DOWN\<close>, unless it is one of the three operational endpoints, which answer as before,
  or its path is not clean.\<close>

theorem shutdown_gate_closes:
  assumes "boot lib jl be genv0 = Inr (rn, g0)" and "Signal c \<in> set evs" and "g = gateway_run lib rn evs g0"
    and "clean_path (ge_escapedPath genv) = ge_escapedPath genv" and "fresh w"
    and "mux_serve lib rn r w (g\<lparr>gw_env := genv\<rparr>) = (w', g')"
  shows "g' = g\<lparr>gw_env := genv\<rparr> \<and>
    w_status w' = Some (if r_method r \<in> {''GET'', ''HEAD''} \<and> r_path r \<in> {''/healthz'', ''/metrics''} then 200
      else if r_method r \<in> {''GET'', ''HEAD''} \<and> r_path r = ''/readyz'' then (if rn_routes rn = [] then 503 else 200)
      else 503)"
proof -
  have s: "gw_shutting (g\<lparr>gw_env := genv\<rparr>)" using gate_stays_closed [OF assms(1,2)] assms(3) by simp
  show ?thesis
    using assms(4,6) s operational_status [OF assms(5)]
    by (auto simp: mux_serve_def chain_with_gate_def withShutdownGate_def split: if_splits)
qed

end
