(* ===== verification/Process.thy ===== *)
theory Process
  imports GatewaySafety
begin

text \<open>
  The life of the process, from \<open>main\<close> of \<open>cmd/gateway/main.go\<close>: the main goroutine in
  \<open>ListenAndServe\<close>, the goroutine that waits for a signal, and the requests in flight, interleaved.
  A request is accepted, reads the flag of the shutdown gate, and past it is served by the chain in a step of
  its own, from the state it finds then; the signal can come in between. The operational endpoints do not
  read the flag. \<open>Shutdown\<close> of the server closes the listener first; from then on
  \<open>ListenAndServe\<close> can return \<open>ErrServerClosed\<close>, and the process ends when \<open>main\<close> does.
\<close>

section \<open>State\<close>

datatype signal_pc = AwaitSignal | GateClosed | Draining ctx | Drained ctx | PluginsDown

type_synonym pending = "gateway_env \<times> http_request \<times> writer"

datatype request_pc = Accepted pending | PastGate pending

record process =
  pr_gateway :: gateway
  pr_listening :: bool
  pr_inflight :: "nat \<rightharpoonup> request_pc"
  pr_answers :: "(nat \<times> writer) list"
  pr_signal :: signal_pc
  pr_exited :: "int option"

definition process_start :: "gateway \<Rightarrow> process" where
  "process_start g =
     \<lparr>pr_gateway = g, pr_listening = True, pr_inflight = Map.empty, pr_answers = [], pr_signal = AwaitSignal,
      pr_exited = None\<rparr>"

text \<open>The context of the drain: \<open>context.WithTimeout(context.Background(), shutdownTimeout)\<close>.\<close>

definition shutdown_ctx :: "running \<Rightarrow> int \<Rightarrow> ctx" where
  "shutdown_ctx rn now = WithTimeout Background now (dur_seconds (ShutdownTimeoutS (rn_config rn)))"

text \<open>The mux hands a request to the gate when it is not for an operational endpoint and its path is clean.\<close>

definition mux_gated :: "gateway_env \<Rightarrow> http_request \<Rightarrow> bool" where
  "mux_gated genv r \<longleftrightarrow>
     (r_method r = ''CONNECT'' \<or> clean_path (ge_escapedPath genv) = ge_escapedPath genv) \<and>
     \<not> (r_method r \<in> {''GET'', ''HEAD''} \<and> r_path r \<in> {''/healthz'', ''/readyz'', ''/metrics''})"

text \<open>What the gate wraps.\<close>

definition gated_chain :: "running \<Rightarrow> gateway handler" where
  "gated_chain rn = Chain (rn_loader rn) (dispatcher_handler (rn_entries rn))"

section \<open>Steps\<close>

inductive process_step :: "go_lib \<Rightarrow> running \<Rightarrow> process \<Rightarrow> process \<Rightarrow> bool" for lib rn where
  accept: "pr_exited p = None \<Longrightarrow> pr_listening p \<Longrightarrow> i \<notin> dom (pr_inflight p) \<union> fst ` set (pr_answers p) \<Longrightarrow>
     process_step lib rn p (p\<lparr>pr_inflight := (pr_inflight p)(i \<mapsto> Accepted q)\<rparr>)"
| serve: "pr_exited p = None \<Longrightarrow> pr_inflight p i = Some (Accepted (genv, r, w)) \<Longrightarrow>
     \<not> mux_gated genv r \<or> gw_shutting (pr_gateway p) \<Longrightarrow>
     mux_serve lib rn r w ((pr_gateway p)\<lparr>gw_env := genv\<rparr>) = (w', g') \<Longrightarrow>
     process_step lib rn p (p\<lparr>pr_gateway := g', pr_inflight := (pr_inflight p)(i := None),
       pr_answers := pr_answers p @ [(i, w')]\<rparr>)"
| pass_gate: "pr_exited p = None \<Longrightarrow> pr_inflight p i = Some (Accepted (genv, r, w)) \<Longrightarrow> mux_gated genv r \<Longrightarrow>
     \<not> gw_shutting (pr_gateway p) \<Longrightarrow>
     process_step lib rn p (p\<lparr>pr_inflight := (pr_inflight p)(i \<mapsto> PastGate (genv, r, w))\<rparr>)"
| chain: "pr_exited p = None \<Longrightarrow> pr_inflight p i = Some (PastGate (genv, r, w)) \<Longrightarrow>
     gated_chain rn r w ((pr_gateway p)\<lparr>gw_env := genv\<rparr>) = (w', g') \<Longrightarrow>
     process_step lib rn p (p\<lparr>pr_gateway := g', pr_inflight := (pr_inflight p)(i := None),
       pr_answers := pr_answers p @ [(i, w')]\<rparr>)"
| signal: "pr_exited p = None \<Longrightarrow> pr_signal p = AwaitSignal \<Longrightarrow>
     process_step lib rn p (p\<lparr>pr_gateway := (pr_gateway p)\<lparr>gw_shutting := True\<rparr>, pr_signal := GateClosed\<rparr>)"
| srv_shutdown: "pr_exited p = None \<Longrightarrow> pr_signal p = GateClosed \<Longrightarrow>
     process_step lib rn p (p\<lparr>pr_listening := False, pr_signal := Draining (shutdown_ctx rn now)\<rparr>)"
| drained: "pr_exited p = None \<Longrightarrow> pr_signal p = Draining c \<Longrightarrow> pr_inflight p = Map.empty \<Longrightarrow>
     process_step lib rn p (p\<lparr>pr_signal := Drained c\<rparr>)"
| deadline: "pr_exited p = None \<Longrightarrow> pr_signal p = Draining c \<Longrightarrow> CtxErr c t False = Some DeadlineExceeded \<Longrightarrow>
     process_step lib rn p (p\<lparr>pr_signal := Drained c\<rparr>)"
| plugins_down: "pr_exited p = None \<Longrightarrow> pr_signal p = Drained c \<Longrightarrow>
     process_step lib rn p (p\<lparr>pr_gateway := snd (loader_Shutdown (rn_loader rn) c (pr_gateway p)),
       pr_signal := PluginsDown\<rparr>)"
| server_closed: "pr_exited p = None \<Longrightarrow> \<not> pr_listening p \<Longrightarrow> process_step lib rn p (p\<lparr>pr_exited := Some 0\<rparr>)"
| listen_failed: "pr_exited p = None \<Longrightarrow> pr_listening p \<Longrightarrow>
     process_step lib rn p (p\<lparr>pr_listening := False, pr_exited := Some 1\<rparr>)"

inductive process_reach :: "go_lib \<Rightarrow> running \<Rightarrow> gateway \<Rightarrow> process \<Rightarrow> bool" for lib rn g where
  start: "process_reach lib rn g (process_start g)"
| step: "process_reach lib rn g p \<Longrightarrow> process_step lib rn p p' \<Longrightarrow> process_reach lib rn g p'"

section \<open>The process runs the gateway\<close>

lemma plugins_shutdown_idle:
  assumes "boot lib jl be genv = Inr (rn, g0)"
  shows "snd (loader_Shutdown (rn_loader rn) c s) = s"
proof -
  have "\<forall>p \<in> set (rev (ld_ordered (rn_loader rn))). \<forall>s. snd (p_Shutdown p c s) = s"
    using booted_plugins [OF assms] by (auto simp: cors_Plugin_def tv_Plugin_def)
  then show ?thesis by (simp add: shutdown_all idle_shutdown)
qed

text \<open>The answers of a run of the gateway, in order.\<close>

fun gateway_output :: "go_lib \<Rightarrow> running \<Rightarrow> gateway_event \<Rightarrow> gateway \<Rightarrow> writer list" where
  "gateway_output lib rn (Request genv r w) s = [fst (mux_serve lib rn r w (s\<lparr>gw_env := genv\<rparr>))]"
| "gateway_output lib rn (Signal c) s = []"

fun run_outputs :: "go_lib \<Rightarrow> running \<Rightarrow> gateway_event list \<Rightarrow> gateway \<Rightarrow> writer list" where
  "run_outputs lib rn [] s = []"
| "run_outputs lib rn (ev # evs) s = gateway_output lib rn ev s @ run_outputs lib rn evs (gateway_step lib rn ev s)"

lemma run_outputs_snoc [simp]:
  "run_outputs lib rn (evs @ [ev]) s = run_outputs lib rn evs s @ gateway_output lib rn ev (gateway_run lib rn evs s)"
  by (induction evs arbitrary: s) (simp_all add: gateway_run_def)

lemma boot_open:
  assumes "boot lib jl be genv = Inr (rn, g0)"
  shows "\<not> gw_shutting g0"
proof -
  let ?c = "config_Load (be_getenv be)"
  from assms have "loader_Load lib (be_loader be) (imported_plugins lib jl) (PluginsFile ?c) (RoutesFile ?c)
      (JWTSecret ?c) (JWTJWKSURL ?c) (gateway_zero genv ?c) = Inr (rn_loader rn, g0)"
    unfolding boot_def Let_def by (auto simp: and_then_eq_Inr split: option.splits)
  then obtain es where i: "init_run (loaded_plugins lib jl es) (gateway_zero genv ?c) = Inr g0"
    by (rule loader_Load_facts [OF reg_inv_imported]) (simp add: loaded_plugins_def)
  have "gw_shutting s' = gw_shutting s" if "init_run (loaded_plugins lib jl es) s = Inr s'" for es s s'
    using that
  proof (induction es arbitrary: s)
    case (Cons e es)
    then show ?case
      by (auto simp: loaded_plugins_Cons init_run_Cons and_then_eq_Inr cors_Plugin_def tv_Plugin_def split: if_splits)
        fastforce+
  qed (simp add: loaded_plugins_Cons)
  from this [OF i] show ?thesis by (simp add: gateway_zero_def)
qed

section \<open>Past the gate the flag does not matter\<close>

lemma ignores_gate_gated_chain:
  assumes "boot lib jl be genv = Inr (rn, g0)"
  shows "ignores_gate (gated_chain rn)"
  using booted_chain_ignores_gate [OF assms] by (simp add: gated_chain_def)

lemma mux_serve_gated:
  "mux_gated (gw_env s) r \<Longrightarrow>
   mux_serve lib rn r w s = (if gw_shutting s then (shutting_down w, s) else gated_chain rn r w s)"
  by (auto simp: mux_gated_def mux_serve_def chain_with_gate_def withShutdownGate_def gated_chain_def)

lemma mux_serve_ungated:
  "\<not> mux_gated (gw_env s) r \<Longrightarrow> snd (mux_serve lib rn r w s) = s"
  "\<not> mux_gated (gw_env s) r \<Longrightarrow> fst (mux_serve lib rn r w (s\<lparr>gw_shutting := b\<rparr>)) = fst (mux_serve lib rn r w s)"
  by (auto simp: mux_gated_def mux_serve_def)


section \<open>Runs of the process\<close>

fun request_event :: "nat \<times> pending \<Rightarrow> gateway_event" where
  "request_event (i, (genv, r, w)) = Request genv r w"

text \<open>A request that found the gate closed, and its answer.\<close>

fun refusal :: "nat \<times> pending \<Rightarrow> nat \<times> writer" where
  "refusal (i, (genv, r, w)) = (i, shutting_down w)"

definition numbered_answers :: "go_lib \<Rightarrow> running \<Rightarrow> gateway \<Rightarrow> (nat \<times> pending) list \<Rightarrow> (nat \<times> writer) list" where
  "numbered_answers lib rn g qs = zip (map fst qs) (run_outputs lib rn (map request_event qs) g)"

lemma length_run_outputs [simp]: "length (run_outputs lib rn (map request_event qs) g) = length qs"
proof (induction qs arbitrary: g)
  case (Cons q qs)
  then show ?case by (cases q) simp
qed simp

lemma numbered_answers_snoc [simp]:
  "numbered_answers lib rn g [] = []"
  "numbered_answers lib rn g (qs @ [(i, (genv, r, w))]) = numbered_answers lib rn g qs @
     [(i, fst (mux_serve lib rn r w ((gateway_run lib rn (map request_event qs) g)\<lparr>gw_env := genv\<rparr>)))]"
  by (simp_all add: numbered_answers_def)

definition process_inv ::
    "go_lib \<Rightarrow> running \<Rightarrow> gateway \<Rightarrow> process \<Rightarrow> (nat \<times> pending) list \<Rightarrow> (nat \<times> pending) list \<Rightarrow> bool" where
  "process_inv lib rn g p served refused \<longleftrightarrow>
     (let s = gateway_run lib rn (map request_event served) g in
        \<not> gw_shutting s \<and>
        pr_gateway p = s\<lparr>gw_env := gw_env (pr_gateway p), gw_shutting := (pr_signal p \<noteq> AwaitSignal)\<rparr>) \<and>
     mset (pr_answers p) = mset (numbered_answers lib rn g served) + mset (map refusal refused) \<and>
     (\<forall>i genv r w. (i, (genv, r, w)) \<in> set refused \<longrightarrow> mux_gated genv r \<and> pr_signal p \<noteq> AwaitSignal) \<and>
     (\<forall>i genv r w. pr_inflight p i = Some (PastGate (genv, r, w)) \<longrightarrow> mux_gated genv r) \<and>
     (pr_exited p \<noteq> Some 1 \<longrightarrow> (pr_listening p \<longleftrightarrow> pr_signal p \<in> {AwaitSignal, GateClosed})) \<and>
     (pr_exited p \<noteq> None \<longrightarrow> \<not> pr_listening p)"

lemma process_invD:
  assumes "process_inv lib rn g p served refused" and "s = gateway_run lib rn (map request_event served) g"
  shows "\<not> gw_shutting s"
    and "pr_gateway p = s\<lparr>gw_env := gw_env (pr_gateway p), gw_shutting := (pr_signal p \<noteq> AwaitSignal)\<rparr>"
    and "gw_shutting (pr_gateway p) \<longleftrightarrow> pr_signal p \<noteq> AwaitSignal"
    and "(pr_gateway p)\<lparr>gw_env := genv\<rparr> = s\<lparr>gw_env := genv, gw_shutting := (pr_signal p \<noteq> AwaitSignal)\<rparr>"
    and "pr_inflight p i = Some (PastGate (genv, r, w)) \<Longrightarrow> mux_gated genv r"
proof -
  show eq: "pr_gateway p = s\<lparr>gw_env := gw_env (pr_gateway p), gw_shutting := (pr_signal p \<noteq> AwaitSignal)\<rparr>"
    using assms unfolding process_inv_def Let_def by blast
  show "gw_shutting (pr_gateway p) \<longleftrightarrow> pr_signal p \<noteq> AwaitSignal" by (subst eq) simp
  show "(pr_gateway p)\<lparr>gw_env := genv\<rparr> = s\<lparr>gw_env := genv, gw_shutting := (pr_signal p \<noteq> AwaitSignal)\<rparr>"
    by (subst eq) simp
  show "\<not> gw_shutting s" using assms unfolding process_inv_def Let_def by blast
  show "mux_gated genv r" if "pr_inflight p i = Some (PastGate (genv, r, w))"
    using assms(1) that unfolding process_inv_def by blast
qed

text \<open>A request that is served past the gate, or beside it, has the answer and the effect that it has while the
  flag is unset.\<close>

lemma process_inv_served:
  assumes "process_inv lib rn g p served refused" and "s = gateway_run lib rn (map request_event served) g"
    and "mux_serve lib rn r w (s\<lparr>gw_env := genv\<rparr>) = (w', s')" and "\<not> gw_shutting s'"
    and "g' = s'\<lparr>gw_shutting := (pr_signal p \<noteq> AwaitSignal)\<rparr>"
  shows "process_inv lib rn g (p\<lparr>pr_gateway := g', pr_inflight := (pr_inflight p)(i := None),
    pr_answers := pr_answers p @ [(i, w')]\<rparr>) (served @ [(i, (genv, r, w))]) refused"
proof -
  have run: "gateway_run lib rn (map request_event (served @ [(i, (genv, r, w))])) g = s'"
    "numbered_answers lib rn g (served @ [(i, (genv, r, w))]) = numbered_answers lib rn g served @ [(i, w')]"
    using assms(2,3) by simp_all
  have g': "g' = s'\<lparr>gw_env := gw_env g', gw_shutting := (pr_signal p \<noteq> AwaitSignal)\<rparr>" by (simp add: assms(5))
  show ?thesis
    using assms(1,4) g' unfolding process_inv_def Let_def run by (simp split: if_split_asm)
qed

lemma process_inv_refused:
  assumes "process_inv lib rn g p served refused" and "mux_gated genv r" and "gw_shutting (pr_gateway p)"
  shows "process_inv lib rn g (p\<lparr>pr_gateway := (pr_gateway p)\<lparr>gw_env := genv\<rparr>, pr_inflight := (pr_inflight p)(i := None),
    pr_answers := pr_answers p @ [(i, shutting_down w)]\<rparr>) served (refused @ [(i, (genv, r, w))])"
proof -
  note d = process_invD [OF assms(1) refl]
  show ?thesis
    using assms d(1,3) d(4) [of genv] unfolding process_inv_def Let_def by (auto split: if_split_asm)
qed

lemma process_inv_beside:
  assumes "process_inv lib rn g p served refused" and "\<not> mux_gated genv r"
    and "mux_serve lib rn r w ((pr_gateway p)\<lparr>gw_env := genv\<rparr>) = (w', g')"
  shows "process_inv lib rn g (p\<lparr>pr_gateway := g', pr_inflight := (pr_inflight p)(i := None),
    pr_answers := pr_answers p @ [(i, w')]\<rparr>) (served @ [(i, (genv, r, w))]) refused"
proof -
  define s where "s = gateway_run lib rn (map request_event served) g"
  note d = process_invD [OF assms(1) s_def]
  let ?s = "s\<lparr>gw_env := genv\<rparr>" and ?b = "pr_signal p \<noteq> AwaitSignal"
  have "\<not> mux_gated (gw_env (?s\<lparr>gw_shutting := ?b\<rparr>)) r" and "\<not> mux_gated (gw_env ?s) r" using assms(2) by simp_all
  note serve = mux_serve_ungated(1) [OF this(1), of lib rn w] mux_serve_ungated(1) [OF this(2), of lib rn w]
    mux_serve_ungated(2) [OF this(2), of lib rn w ?b]
  have "mux_serve lib rn r w (?s\<lparr>gw_shutting := ?b\<rparr>) = (w', g')" using assms(3) d(4) [of genv] by simp
  with serve have g': "g' = ?s\<lparr>gw_shutting := ?b\<rparr>" and "mux_serve lib rn r w ?s = (w', ?s)"
    by (simp_all add: prod_eq_iff del: gateway.update_convs)
  from process_inv_served [OF assms(1) s_def this(2) _ g'] d(1) show ?thesis by simp
qed

lemma process_inv_chain:
  assumes "process_inv lib rn g p served refused" and "ignores_gate (gated_chain rn)"
    and "pr_inflight p i = Some (PastGate (genv, r, w))"
    and "gated_chain rn r w ((pr_gateway p)\<lparr>gw_env := genv\<rparr>) = (w', g')"
  shows "process_inv lib rn g (p\<lparr>pr_gateway := g', pr_inflight := (pr_inflight p)(i := None),
    pr_answers := pr_answers p @ [(i, w')]\<rparr>) (served @ [(i, (genv, r, w))]) refused"
proof -
  define s where "s = gateway_run lib rn (map request_event served) g"
  note d = process_invD [OF assms(1) s_def]
  let ?s = "s\<lparr>gw_env := genv\<rparr>" and ?b = "pr_signal p \<noteq> AwaitSignal"
  note ig = assms(2) [unfolded ignores_gate_def]
  have "gated_chain rn r w (?s\<lparr>gw_shutting := ?b\<rparr>) = (w', g')" using assms(4) d(4) [of genv] by simp
  with ig obtain s' where c: "gated_chain rn r w ?s = (w', s')" and g': "g' = s'\<lparr>gw_shutting := ?b\<rparr>"
    by (metis prod.collapse fst_conv snd_conv)
  have "\<not> gw_shutting s'" using ig c d(1) by (metis gateway.select_convs(5) gateway.surjective gateway.update_convs(1) snd_conv)
  moreover have "mux_serve lib rn r w ?s = (w', s')" using d(5) [OF assms(3)] d(1) c by (simp add: mux_serve_gated)
  ultimately show ?thesis using process_inv_served [OF assms(1) s_def _ _ g'] by blast
qed

lemma process_inv_step:
  assumes "boot lib jl be genv0 = Inr (rn, g0)" and "process_step lib rn p p'" and "process_inv lib rn g0 p served refused"
  shows "\<exists>served refused. process_inv lib rn g0 p' served refused"
  using assms(2)
proof (cases rule: process_step.cases)
  case (serve i genv r w w' g')
  show ?thesis
  proof (cases "mux_gated genv r")
    case True
    with serve(4) have sh: "gw_shutting (pr_gateway p)" by simp
    with serve(5) True have "w' = shutting_down w" "g' = (pr_gateway p)\<lparr>gw_env := genv\<rparr>"
      by (simp_all add: mux_serve_gated)
    with process_inv_refused [OF assms(3) True sh] serve(1) show ?thesis by blast
  next
    case False
    with process_inv_beside [OF assms(3) _ serve(5)] serve(1) show ?thesis by blast
  qed
next
  case (chain i genv r w w' g')
  with process_inv_chain [OF assms(3) ignores_gate_gated_chain [OF assms(1)]] show ?thesis by blast
next
  case signal
  note eq = process_invD(2) [OF assms(3) refl]
  have "(pr_gateway p)\<lparr>gw_shutting := True\<rparr> =
      (gateway_run lib rn (map request_event served) g0)\<lparr>gw_env := gw_env (pr_gateway p), gw_shutting := True\<rparr>"
    by (subst eq) simp
  then show ?thesis
    using assms(3) signal
    by - (rule exI [of _ served], rule exI [of _ refused], simp add: process_inv_def Let_def)
next
  case (plugins_down c)
  then show ?thesis
    using assms(3)
    by - (rule exI [of _ served], rule exI [of _ refused], simp add: process_inv_def plugins_shutdown_idle [OF assms(1)])
qed (rule exI [of _ served], rule exI [of _ refused], insert assms(3), simp add: process_inv_def Let_def split: if_split_asm)+

lemma process_inv_reach:
  assumes "boot lib jl be genv0 = Inr (rn, g0)" and "process_reach lib rn g0 p"
  shows "\<exists>served refused. process_inv lib rn g0 p served refused"
  using assms(2)
proof induction
  case start
  show ?case
    using boot_open [OF assms(1)]
    by (intro exI [of _ "[]"]) (simp add: process_inv_def process_start_def)
next
  case (step p p')
  then show ?case using process_inv_step [OF assms(1)] by blast
qed

text \<open>Requests that find the gate closed are refused, and change nothing.\<close>

lemma gateway_run_append: "gateway_run lib rn (xs @ ys) g = gateway_run lib rn ys (gateway_run lib rn xs g)"
  by (simp add: gateway_run_def)

lemma run_outputs_append:
  "run_outputs lib rn (xs @ ys) g = run_outputs lib rn xs g @ run_outputs lib rn ys (gateway_run lib rn xs g)"
  by (induction xs arbitrary: g) (simp_all add: gateway_run_def)

lemma refusal_zip: "zip (map fst qs) (map (snd \<circ> refusal) qs) = map refusal qs"
proof (induction qs)
  case (Cons q qs)
  then show ?case by (cases q) simp
qed simp

lemma closed_gate_run:
  assumes "\<forall>(i, genv, r, w) \<in> set qs. mux_gated genv r" and "gw_shutting s"
  shows "(\<exists>e. gateway_run lib rn (map request_event qs) s = s\<lparr>gw_env := e\<rparr>) \<and>
    run_outputs lib rn (map request_event qs) s = map (snd \<circ> refusal) qs"
  using assms
proof (induction qs arbitrary: s)
  case Nil
  then show ?case by (auto simp: gateway_run_def intro: exI [of _ "gw_env s"])
next
  case (Cons q qs)
  obtain i genv r w where q: "q = (i, (genv, r, w))" by (metis prod.exhaust)
  let ?s = "s\<lparr>gw_env := genv\<rparr>"
  have m: "mux_serve lib rn r w ?s = (shutting_down w, ?s)"
    using Cons.prems by (simp add: mux_serve_gated q)
  from Cons.IH [of ?s] Cons.prems m show ?case by (auto simp: q gateway_run_def)
qed

text \<open>Once the signal has come no request passes the gate any more, and when those past it are done no request
  has an effect.\<close>

definition past_gate :: "process \<Rightarrow> nat set" where
  "past_gate p = {i. \<exists>q. pr_inflight p i = Some (PastGate q)}"

lemma signal_ends_step:
  assumes "boot lib jl be genv0 = Inr (rn, g0)" and "process_step lib rn p p'" and "gw_shutting (pr_gateway p)"
    and "pr_signal p \<noteq> AwaitSignal"
  shows "gw_shutting (pr_gateway p') \<and> pr_signal p' \<noteq> AwaitSignal \<and> past_gate p' \<subseteq> past_gate p \<and>
    (past_gate p = {} \<longrightarrow> (pr_gateway p')\<lparr>gw_env := e\<rparr> = (pr_gateway p)\<lparr>gw_env := e\<rparr>)"
  using assms(2)
proof (cases rule: process_step.cases)
  case (serve i genv r w w' g')
  have "g' = (pr_gateway p)\<lparr>gw_env := genv\<rparr>"
  proof (cases "mux_gated genv r")
    case True
    then show ?thesis using serve(5) assms(3) by (simp add: mux_serve_gated)
  next
    case False
    then show ?thesis
      using serve(5) mux_serve_ungated(1) [where s = "(pr_gateway p)\<lparr>gw_env := genv\<rparr>" and r = r and w = w and lib = lib and rn = rn]
      by simp
  qed
  then show ?thesis using serve(1) assms(3,4) by (auto simp: past_gate_def split: if_split_asm)
next
  case (chain i genv r w w' g')
  have "gw_shutting g'"
    using chain(4) assms(3) ignores_gate_gated_chain [OF assms(1)] unfolding ignores_gate_def
    by (metis gateway.select_convs(5) gateway.surjective gateway.update_convs(1) snd_conv)
  then show ?thesis using chain assms(4) by (auto simp: past_gate_def split: if_split_asm)
next
  case (plugins_down c)
  then show ?thesis using assms(3) by (simp add: past_gate_def plugins_shutdown_idle [OF assms(1)])
qed (use assms(3,4) in \<open>auto simp: past_gate_def split: if_split_asm\<close>)

lemma signal_ends_admission:
  assumes "boot lib jl be genv0 = Inr (rn, g0)" and "(process_step lib rn)\<^sup>*\<^sup>* p p'" and "gw_shutting (pr_gateway p)"
    and "pr_signal p \<noteq> AwaitSignal"
  shows "gw_shutting (pr_gateway p') \<and> pr_signal p' \<noteq> AwaitSignal \<and> past_gate p' \<subseteq> past_gate p \<and>
    (past_gate p = {} \<longrightarrow> (pr_gateway p')\<lparr>gw_env := e\<rparr> = (pr_gateway p)\<lparr>gw_env := e\<rparr>)"
  using assms(2)
proof (induction rule: rtranclp_induct)
  case base
  show ?case using assms(3,4) by simp
next
  case (step p1 p2)
  with signal_ends_step [OF assms(1) step(2), of e] show ?case by auto
qed

lemma refused_run:
  assumes "boot lib jl be genv0 = Inr (rn, g0)" and "process_inv lib rn g0 p served refused"
    and "s = gateway_run lib rn (map request_event served) g0"
    and "sig = (if pr_signal p = AwaitSignal then [] else [Signal Background])"
  shows "\<exists>e. gateway_run lib rn (sig @ map request_event refused) s =
      s\<lparr>gw_env := e, gw_shutting := (pr_signal p \<noteq> AwaitSignal)\<rparr> \<and>
    run_outputs lib rn (sig @ map request_event refused) s = map (snd \<circ> refusal) refused"
proof (cases "pr_signal p = AwaitSignal")
  case True
  then have "refused = []" using assms(2) unfolding process_inv_def by (cases refused) fastforce+
  with True show ?thesis
    using process_invD(1) [OF assms(2,3)] by (intro exI [of _ "gw_env s"]) (simp add: assms(4) gateway_run_def)
next
  case False
  have gated: "\<forall>(i, genv, r, w) \<in> set refused. mux_gated genv r" using assms(2) unfolding process_inv_def by blast
  from closed_gate_run [OF gated, of "s\<lparr>gw_shutting := True\<rparr>" lib rn] obtain e where
    "gateway_run lib rn (map request_event refused) (s\<lparr>gw_shutting := True\<rparr>) = s\<lparr>gw_shutting := True, gw_env := e\<rparr>"
    "run_outputs lib rn (map request_event refused) (s\<lparr>gw_shutting := True\<rparr>) = map (snd \<circ> refusal) refused" by auto
  then show ?thesis
    using False process_invD(1) [OF assms(2,3)] signal_closes_gate [OF assms(1), of Background s]
    by (intro exI [of _ e]) (simp add: assms(4) gateway_run_def)
qed


text \<open>C27: the drain does not hold the process. For every booted gateway and every request there is a run in which a
  signal arrives while the request is in flight, past the gate if it goes there, the listener is closed,
  \<open>ListenAndServe\<close> returns and \<open>main\<close> ends the process with status 0: the request is never
  answered, and no plugin is shut down.\<close>

theorem drain_may_cut_requests:
  assumes "boot lib jl be genv0 = Inr (rn, g0)" and "q = (genv, r, w)"
  shows "\<exists>p. process_reach lib rn g0 p \<and> pr_exited p = Some 0 \<and>
    pr_inflight p i = Some (if mux_gated genv r then PastGate q else Accepted q) \<and> pr_answers p = [] \<and>
    pr_signal p \<noteq> PluginsDown \<and> gw_shutting (pr_gateway p)"
proof -
  let ?p0 = "process_start g0"
  let ?p1 = "?p0\<lparr>pr_inflight := (pr_inflight ?p0)(i \<mapsto> Accepted q)\<rparr>"
  let ?p1' = "?p1\<lparr>pr_inflight := (pr_inflight ?p0)(i \<mapsto> (if mux_gated genv r then PastGate q else Accepted q))\<rparr>"
  let ?p2 = "?p1'\<lparr>pr_gateway := (pr_gateway ?p1')\<lparr>gw_shutting := True\<rparr>, pr_signal := GateClosed\<rparr>"
  let ?p3 = "?p2\<lparr>pr_listening := False, pr_signal := Draining (shutdown_ctx rn 0)\<rparr>"
  let ?p4 = "?p3\<lparr>pr_exited := Some 0\<rparr>"
  note steps = process_reach.step [OF _ process_step.accept] process_reach.step [OF _ process_step.signal]
    process_reach.step [OF _ process_step.srv_shutdown] process_reach.step [OF _ process_step.server_closed]
  have 1: "process_reach lib rn g0 ?p1" by (rule steps(1) [OF process_reach.start]) (simp_all add: process_start_def)
  have "process_reach lib rn g0 ?p1'"
  proof (cases "mux_gated genv r")
    case True
    have "process_step lib rn ?p1 (?p1\<lparr>pr_inflight := (pr_inflight ?p1)(i \<mapsto> PastGate (genv, r, w))\<rparr>)"
      by (rule process_step.pass_gate) (simp_all add: process_start_def assms(2) True boot_open [OF assms(1)])
    with process_reach.step [OF 1] have "process_reach lib rn g0 (?p1\<lparr>pr_inflight := (pr_inflight ?p1)(i \<mapsto> PastGate (genv, r, w))\<rparr>)" .
    then show ?thesis using True assms(2) by simp
  next
    case False
    with 1 show ?thesis by simp
  qed
  then have "process_reach lib rn g0 ?p2" by (rule steps(2)) (simp_all add: process_start_def)
  then have "process_reach lib rn g0 ?p3" by (rule steps(3)) (simp_all add: process_start_def)
  then have "process_reach lib rn g0 ?p4" by (rule steps(4)) (simp_all add: process_start_def)
  then show ?thesis by (intro exI [of _ ?p4]) (simp add: process_start_def)
qed

end
