(* ===== verification/DispatchExamples.thy ===== *)
theory DispatchExamples
  imports ProxySafety TokenExamples
begin

text \<open>A route table with one protected route, and requests to it, on which the properties of the dispatcher are
  applied.\<close>

definition ex_users_route :: Route where
  "ex_users_route = \<lparr>rt_ID = ''users'', rt_Method = ''GET'', rt_Path = ''/a'', rt_Target = ''http://users'',
     rt_Roles = [''admin''], rt_TenantRequired = True, rt_Audit = True, rt_Mode = '''', rt_ExecutionTimeoutSeconds = 0,
     rt_Plugins = [], rt_PathParams = []\<rparr>"

definition ex_users_inputs :: proxy_inputs where
  "ex_users_inputs = \<lparr>px_start = 0, px_end = 7000000, px_timestamp = ''t'', px_now = 0, px_remote = Some ''10.0.0.1'',
     px_newreq = True, px_upstream = (\<lambda>_. UpErr []), px_errnow = 0, px_gone = False\<rparr>"

lemma ex_users_match: "r_method r = ''GET'' \<Longrightarrow> r_path r = ''/a'' \<Longrightarrow> route_matches r ex_users_route"
proof -
  have "equal_fold ''GET'' ''GET''" "splitPath ''/a'' = [''a'']" by code_simp+
  then show "r_method r = ''GET'' \<Longrightarrow> r_path r = ''/a'' \<Longrightarrow> route_matches r ex_users_route"
    by (simp add: route_matches_def ex_users_route_def segment_matches_def)
qed

text \<open>An admin of a tenant, on a connection without upgrade, reaches the upstream.\<close>

lemma standard_route_sends:
  assumes "rt_Mode route \<noteq> ModeSSE" and "rt_ExecutionTimeoutSeconds route \<le> 0"
    and "set (rt_Roles route) \<subseteq> set (ActorRoles (r_ctx r))" and "TenantID (r_ctx r) \<noteq> ''''"
    and "makeRouteHandler lib route = Inr h" and "r_header r ''Connection'' = []"
  shows "ds_sent (snd (observeHandler h route inp r w s)) \<noteq> ds_sent s"
proof -
  from assms(5) obtain target where h: "h = (\<lambda>inp. EnforceTenant (rt_TenantRequired route) (rbac_and_proxy target route inp))"
    by (auto simp: makeRouteHandler_def split: option.splits)
  have none: "enforceRoles r (rt_Roles route) = None" using assms(3) by (simp add: enforceRoles_None)
  have up: "printable (upgrade_type (r_header (director target r)))"
    by (simp add: upgrade_type_def contains_token_def header_tokens_def director_header assms(6) printable_def)
  have e: "h inp r (new_recorder w) s = reverse_proxy target inp r (new_recorder w) s"
    using assms(1,2,4) none by (simp add: h mw_simps rbac_and_proxy_def route_timed_def route_proxy_def)
  obtain rr s1 where rp: "reverse_proxy target inp r (new_recorder w) s = (rr, s1)" by fastforce
  then have "ds_sent s1 \<noteq> ds_sent s" using up by (auto simp: reverse_proxy_def Let_def split: up_result.splits if_splits)
  moreover obtain w' s' where o: "observeHandler h route inp r w s = (w', s')" by fastforce
  ultimately show ?thesis using observeHandler_sent [OF o] e rp by simp
qed

definition ex_users_ctx :: ctx where
  "ex_users_ctx = WithActorRoles (WithTenantID Background ''acme'') [''admin'']"

definition ex_users_request :: http_request where
  "ex_users_request = ex_http ''Accept'' ''text/plain'' \<lparr>r_ctx := ex_users_ctx\<rparr>"

lemma ex_users_request_fields:
  "r_method ex_users_request = ''GET''" "r_path ex_users_request = ''/a''" "r_ctx ex_users_request = ex_users_ctx"
  "r_header ex_users_request ''Connection'' = []"
proof -
  have "canon ''Accept'' = ''Accept''" by code_simp
  then show "r_header ex_users_request ''Connection'' = []"
    by (simp add: ex_users_request_def ex_http_def hdr_set_apply no_header_def)
qed (simp_all add: ex_users_request_def ex_http_def)

lemma ex_users_built: "\<exists>es h. proxy_New ex_go [ex_users_route] = Inr es \<and> makeRouteHandler ex_go ex_users_route = Inr h"
  by (simp add: makeRouteHandler_def ex_go_def)

lemma dispatch_first_match_witness:
  "\<exists>es h. proxy_New ex_go [ex_users_route] = Inr es \<and>
     dispatch_ServeHTTP es ex_users_inputs ex_users_request (Conn new_conn) ex_dispatch =
       observeHandler h ex_users_route ex_users_inputs ex_users_request (Conn new_conn) ex_dispatch"
proof -
  obtain es where es: "proxy_New ex_go [ex_users_route] = Inr es" using ex_users_built by blast
  have "find (route_matches ex_users_request) [ex_users_route] = Some ex_users_route"
    using ex_users_match by (simp add: ex_users_request_fields)
  with dispatch_first_match [OF es, where r = ex_users_request and inp = ex_users_inputs and w = "Conn new_conn"
      and s = ex_dispatch] es
  show ?thesis by auto
qed

lemma dispatch_gate_witness:
  "\<exists>es w' s' out. proxy_New ex_go [ex_users_route] = Inr es \<and>
     dispatch_ServeHTTP es ex_users_inputs ex_users_request (Conn new_conn) ex_dispatch = (w', s') \<and>
     ds_sent s' = [out] \<and> r_host out = ''h'' \<and> r_path out = ''/a''"
proof -
  obtain es h where es: "proxy_New ex_go [ex_users_route] = Inr es" and h: "makeRouteHandler ex_go ex_users_route = Inr h"
    using ex_users_built by blast
  have f: "find (route_matches ex_users_request) [ex_users_route] = Some ex_users_route"
    using ex_users_match by (simp add: ex_users_request_fields)
  obtain w' s' where d: "dispatch_ServeHTTP es ex_users_inputs ex_users_request (Conn new_conn) ex_dispatch = (w', s')"
    by fastforce
  have "dispatch_ServeHTTP es ex_users_inputs ex_users_request (Conn new_conn) ex_dispatch =
      observeHandler h ex_users_route ex_users_inputs ex_users_request (Conn new_conn) ex_dispatch"
    by (rule dispatch_lookup [OF es, of ex_users_request ex_users_inputs "Conn new_conn" ex_dispatch]) (use f h in auto)
  moreover have "ds_sent (snd (observeHandler h ex_users_route ex_users_inputs ex_users_request (Conn new_conn) ex_dispatch))
      \<noteq> ds_sent ex_dispatch"
    by (rule standard_route_sends [OF _ _ _ _ h])
      (simp_all add: ex_users_route_def ModeSSE_def ex_users_request_fields ex_users_ctx_def ctx_simps)
  ultimately have "ds_sent s' \<noteq> ds_sent ex_dispatch" using d by (metis snd_conv)
  from dispatch_gate [OF es d this] f obtain scheme host out where
    "url_parse ex_go (rt_Target ex_users_route) = Some (scheme, host)" "ds_sent s' = ds_sent ex_dispatch @ [out]"
    "r_host out = host" "r_path out = r_path ex_users_request" by auto
  moreover have "url_parse ex_go u = Some (''http'', ''h'')" for u by (simp add: ex_go_def)
  moreover have "ds_sent ex_dispatch = []" by (simp add: ex_dispatch_def)
  ultimately have "ds_sent s' = [out] \<and> r_host out = ''h'' \<and> r_path out = ''/a''" by (simp add: ex_users_request_fields)
  with es d show ?thesis by blast
qed

definition ex_broken_inputs :: proxy_inputs where
  "ex_broken_inputs = ex_users_inputs\<lparr>px_upstream :=
     (\<lambda>_. UpResp [] \<lparr>up_status = 200, up_header = no_header, up_chunks = [''par''], up_broken = True\<rparr>)\<rparr>"


end
