(* ===== verification/Soundness.thy ===== *)
theory Soundness
  imports GatewaySafety
begin

text \<open>
  Type soundness of the whole program, in the sense of preservation and progress: the state of a booted
  gateway stays well formed whatever it serves, and serving from a well-formed state does not panic, so that
  every request is answered, unless the upstream's answer breaks off or has a status that is none.
\<close>

section \<open>Writers that are not aborted\<close>

definition status_ok :: "int \<Rightarrow> bool" where
  "status_ok code \<longleftrightarrow> 100 \<le> code \<and> code \<le> 999"

lemma aborted_writer [simp]:
  "aborted (map_header f w) = aborted w" "aborted (set_header k v w) = aborted w"
  "aborted (new_recorder w) = aborted w" "aborted (Write b w) = aborted w"
  by (simp_all add: aborted_def set_header_def writer_simps conn_write_def conn_write_header_def Let_def)

lemma aborted_WriteHeader [simp]: "status_ok code \<Longrightarrow> aborted (WriteHeader code w) = aborted w"
  by (auto simp: aborted_def writer_simps conn_write_header_def status_ok_def)

lemma aborted_Flush [simp]: "aborted (Flush w) = aborted w"
  by (cases w) (auto simp: aborted_def conn_flush_def conn_write_header_def Let_def)

lemma aborted_writes [simp]:
  "status_ok code \<Longrightarrow> aborted (WriteError w code b) = aborted w"
  "status_ok code \<Longrightarrow> aborted (http_Error w msg code) = aborted w"
  "aborted (write_chunks cs w) = aborted w" "aborted (pipe_and_flush cs w) = aborted w"
proof -
  show "status_ok code \<Longrightarrow> aborted (WriteError w code b) = aborted w"
    "status_ok code \<Longrightarrow> aborted (http_Error w msg code) = aborted w"
    by (simp_all add: WriteError_def http_Error_def)
  show "aborted (write_chunks cs w) = aborted w"
    unfolding write_chunks_def by (induction cs arbitrary: w) simp_all
  show "aborted (pipe_and_flush cs w) = aborted w"
    by (induction cs arbitrary: w) simp_all
qed

section \<open>The proxies\<close>

text \<open>What the transport hands over: three-digit status codes, and a body that ends.\<close>

definition good_answer :: "up_result \<Rightarrow> bool" where
  "good_answer u \<longleftrightarrow>
     (case u of
        UpErr infos \<Rightarrow> \<forall>i \<in> set infos. status_ok (fst i)
      | UpResp infos resp \<Rightarrow> (\<forall>i \<in> set infos. status_ok (fst i)) \<and> status_ok (up_status resp) \<and> \<not> up_broken resp)"

text \<open>The handler did not panic, or it sent a request that was answered badly.\<close>

definition proceeds :: "proxy_inputs \<Rightarrow> writer \<Rightarrow> dispatch \<Rightarrow> writer \<times> dispatch \<Rightarrow> bool" where
  "proceeds inp w s res \<longleftrightarrow>
     (aborted (fst res) \<longrightarrow> aborted w \<or>
        (\<exists>out. ds_sent (snd res) = ds_sent s @ [out] \<and> \<not> good_answer (px_upstream inp out)))"

lemma proceedsI: "(aborted w' \<Longrightarrow> aborted w) \<Longrightarrow> proceeds inp w s (w', s')"
  by (simp add: proceeds_def)

lemma proceeds_sent:
  assumes "good_answer (px_upstream inp out) \<Longrightarrow> aborted w' \<Longrightarrow> aborted w" and "ds_sent s' = ds_sent s @ [out]"
  shows "proceeds inp w s (w', s')"
  using assms by (auto simp: proceeds_def)

lemma aborted_infos: "\<forall>i \<in> set infos. status_ok (fst i) \<Longrightarrow> aborted (fold rp_info infos w) = aborted w"
  by (induction infos arbitrary: w) (simp_all add: rp_info_def)

lemma status_ok_literals [simp]:
  "status_ok 200" "status_ok 301" "status_ok 401" "status_ok 403" "status_ok 404" "status_ok 429" "status_ok 500"
  "status_ok 502" "status_ok 503"
  by (simp_all add: status_ok_def)

lemma aborted_rp_error [simp]: "aborted (rp_error inp r w) = aborted w"
  by (simp add: rp_error_def)

lemma reverse_proxy_proceeds: "proceeds inp w s (reverse_proxy target inp r w s)"
proof (cases "printable (upgrade_type (r_header (director target r)))")
  case False
  then show ?thesis by (auto simp: reverse_proxy_def intro: proceedsI)
next
  case True
  let ?out = "rp_request target (px_remote inp) r"
  obtain w' s' where e: "reverse_proxy target inp r w s = (w', s')" by fastforce
  have "ds_sent s' = ds_sent s @ [?out]"
    using e True by (auto simp: reverse_proxy_def Let_def split: up_result.splits if_split_asm)
  moreover have "aborted w" if "good_answer (px_upstream inp ?out)" "aborted w'"
    using that e True
    by (auto simp: reverse_proxy_def good_answer_def rp_respond_def aborted_infos Let_def
        split: up_result.splits if_split_asm)
  ultimately show ?thesis unfolding e by (intro proceeds_sent)
qed

lemma aborted_sse_failure: "sse_failure inp r w = (kind, w') \<Longrightarrow> aborted w' = aborted w"
  by (auto simp: sse_failure_def split: option.splits ctx_err.splits)

lemma NewSSEProxy_proceeds: "proceeds inp w s (NewSSEProxy up rid inp r w s)"
proof (cases "px_newreq inp")
  case False
  then show ?thesis by (auto simp: NewSSEProxy_def intro: proceedsI)
next
  case True
  let ?out = "sse_request up r"
  obtain w' s' where e: "NewSSEProxy up rid inp r w s = (w', s')" by fastforce
  have "ds_sent s' = ds_sent s @ [?out]"
    using e True by (auto simp: NewSSEProxy_def Let_def split: up_result.splits prod.splits)
  moreover have "aborted w" if "good_answer (px_upstream inp ?out)" "aborted w'"
    using that e True aborted_sse_failure [of inp r w]
    by (auto simp: NewSSEProxy_def good_answer_def sse_respond_def sse_headers_def Let_def
        split: up_result.splits prod.splits if_split_asm)
  ultimately show ?thesis unfolding e by (intro proceeds_sent)
qed


lemma proceeds_weaken:
  assumes "proceeds inp w1 s1 (w1', s1')" and "aborted w1 = aborted w" and "ds_sent s1 = ds_sent s"
    and "aborted w' = aborted w1'" and "ds_sent s' = ds_sent s1'"
  shows "proceeds inp w s (w', s')"
  using assms by (simp add: proceeds_def)

lemma NewProxy_proceeds: "proceeds inp w s (NewProxy up rid inp r w s)"
proof -
  let ?t = "TenantID (r_ctx r)"
  obtain ok s1 where acq: "acquire_slot ?t s = (ok, s1)" by fastforce
  note frame = acquire_slot_frame [OF acq]
  show ?thesis
  proof (cases ok)
    case False
    then have "NewProxy up rid inp r w s = (limit_exceeded r w, met_apply (sse_Error ?t rid ''limit_exceeded'') s1)"
      using acq by (simp add: NewProxy_def)
    then show ?thesis by (auto simp: limit_exceeded_def intro: proceedsI)
  next
    case True
    let ?s = "met_apply (sse_Inc ?t rid) s1"
    obtain w2 s2 where ex: "NewSSEProxy up rid inp r w ?s = (w2, s2)" by fastforce
    then have "NewProxy up rid inp r w s = (w2, release_slot ?t (met_apply (sse_Dec ?t rid) s2))"
      using acq True by (simp add: NewProxy_def Let_def)
    moreover have p: "proceeds inp w ?s (w2, s2)" using NewSSEProxy_proceeds [of inp w ?s up rid r] ex by simp
    have "proceeds inp w s (w2, release_slot ?t (met_apply (sse_Dec ?t rid) s2))"
      by (rule proceeds_weaken [OF p]) (simp_all add: frame(2) release_slot_def)
    ultimately show ?thesis by simp
  qed
qed

section \<open>The handlers of the routes\<close>

lemma route_proxy_proceeds: "proceeds inp w s (route_proxy target route inp r w s)"
proof (cases "rt_Mode route = ModeSSE")
  case True
  obtain w' s' where e: "NewProxy target (rt_ID route) inp r (set_header ProfileHeader ProfileVersion w) s = (w', s')" by fastforce
  with NewProxy_proceeds [of inp "set_header ProfileHeader ProfileVersion w" s target "rt_ID route" r]
  have p: "proceeds inp (set_header ProfileHeader ProfileVersion w) s (w', s')" by simp
  have "proceeds inp w s (w', s')" by (rule proceeds_weaken [OF p]) simp_all
  then show ?thesis using True e by (simp add: route_proxy_def)
next
  case False
  then show ?thesis by (simp add: route_proxy_def reverse_proxy_proceeds)
qed

lemma route_handler_proceeds:
  "proceeds inp w s (EnforceTenant required (rbac_and_proxy target route inp) r w s)"
proof (cases "enforceRoles r (rt_Roles route)")
  case None
  then show ?thesis
    by (auto simp: mw_simps rbac_and_proxy_def route_timed_def SSEContextTimeout_def
        intro: proceedsI route_proxy_proceeds)
next
  case (Some err)
  then show ?thesis by (auto simp: mw_simps rbac_and_proxy_def intro: proceedsI)
qed

lemma observeHandler_proceeds:
  assumes "\<And>r w s. proceeds inp w s (h inp r w s)"
  shows "proceeds inp w s (observeHandler h route inp r w s)"
proof -
  obtain rr s1 where e: "h inp r (new_recorder w) s = (rr, s1)" by fastforce
  then have p: "proceeds inp (new_recorder w) s (rr, s1)" using assms [of "new_recorder w" s r] by simp
  have "proceeds inp w s (unwrap rr, s1)" "proceeds inp w s (unwrap rr, observe_record route inp r code s1)" for code
    by (rule proceeds_weaken [OF p]; simp add: observe_record_def Let_def)+
  then show ?thesis by (simp add: observeHandler_def e)
qed

lemma proxy_New_handlers:
  "proxy_New lib rts = Inr es \<Longrightarrow> e \<in> set es \<Longrightarrow>
     \<exists>route target. re_handler e = observeHandler
       (\<lambda>inp. EnforceTenant (rt_TenantRequired route) (rbac_and_proxy target route inp)) route"
proof (induction rts arbitrary: es)
  case (Cons route rts)
  then obtain h es' where h: "makeRouteHandler lib route = Inr h" and es': "proxy_New lib rts = Inr es'"
    and es: "es = \<lparr>re_route = route, re_handler = observeHandler h route\<rparr> # es'"
    by (auto simp: and_then_eq_Inr split: sum.splits)
  from h obtain target where "h = (\<lambda>inp. EnforceTenant (rt_TenantRequired route) (rbac_and_proxy target route inp))"
    by (auto simp: makeRouteHandler_def split: option.splits)
  then have "re_handler e = observeHandler
      (\<lambda>inp. EnforceTenant (rt_TenantRequired route) (rbac_and_proxy target route inp)) route \<or> e \<in> set es'"
    using Cons.prems(2) es by auto
  then show ?case using Cons.IH [OF es'] by blast
qed simp

lemma matchEntry_in: "matchEntry es r = Some e \<Longrightarrow> e \<in> set es"
  by (induction es) (auto split: if_splits)

lemma dispatch_proceeds:
  assumes "proxy_New lib rts = Inr es"
  shows "proceeds inp w s (dispatch_ServeHTTP es inp r w s)"
proof (cases "matchEntry es r")
  case None
  then show ?thesis by (auto simp: dispatch_ServeHTTP_def route_not_found_def intro: proceedsI)
next
  case (Some e)
  from proxy_New_handlers [OF assms matchEntry_in [OF Some]] obtain route target where
    e: "re_handler e = observeHandler (\<lambda>inp. EnforceTenant (rt_TenantRequired route) (rbac_and_proxy target route inp)) route"
    by blast
  show ?thesis
    unfolding dispatch_ServeHTTP_def Some option.case e by (intro observeHandler_proceeds route_handler_proceeds)
qed

section \<open>The plugins\<close>

text \<open>The validator cannot reach a nil validator, and its failures are configured to statuses that are ones.\<close>

definition codes_ok :: "token_validator \<Rightarrow> bool" where
  "codes_ok tv \<longleftrightarrow> (tv_v2mode tv \<longrightarrow> (\<forall>st \<in> snd ` set (v2_codes_of (tv_onFailure tv)). status_ok st))"

definition tv_typed :: "token_validator \<Rightarrow> bool" where
  "tv_typed tv \<longleftrightarrow> tv_wf tv \<and> codes_ok tv"

lemma tv_typed_handle:
  assumes "tv_typed tv" and "tv_handle lib jl inp r w tv = (v, tv')"
  shows "tv_typed tv'"
proof -
  have "tv' = tv_run lib jl [(inp, r, w)] tv" using assms(2) by (simp add: tv_run_def)
  then show ?thesis using assms(1) tv_run_wf by (simp add: tv_typed_def codes_ok_def)
qed

lemma handleV1_Respond:
  assumes "tv_wf tv" and "\<not> tv_v2mode tv" and "handleV1 jl inp r w tv = (Respond w', tv')"
  shows "aborted w' = aborted w"
proof -
  have "tv_validate jl inp tok tv \<noteq> (None, tv1)" for tok tv1
    using assms(1,2) by (auto simp: tv_validate_def tv_wf_def split: option.splits prod.splits if_split_asm)
  then show ?thesis
    using assms(3)
    by (auto simp: handleV1_def writeMissingToken_def writeForbidden_def split: option.splits sum.splits prod.splits)
qed

lemma tv_handle_Respond:
  assumes "tv_typed tv" and "tv_handle lib jl inp r w tv = (Respond w', tv')"
  shows "aborted w' = aborted w"
proof (cases "tv_v2mode tv")
  case True
  from v2_rejected [OF _ True assms(2)] assms(1) obtain st code msg where
    "(code, st) \<in> set (v2_codes_of (tv_onFailure tv))" "w' = WriteError w st (v2_error_body r code msg)"
    by (auto simp: tv_typed_def)
  moreover then have "status_ok st" using assms(1) True by (force simp: tv_typed_def codes_ok_def)
  ultimately show ?thesis by simp
next
  case False
  with assms handleV1_Respond [of tv jl inp r w w' tv'] show ?thesis by (simp add: tv_typed_def tv_handle_def)
qed

lemma tv_handle_Next_writer: "tv_handle lib jl inp r w tv = (Next r' w', tv') \<Longrightarrow> w' = w"
  by (auto simp: tv_handle_def elim: handleV1_Next handleV2_Next split: if_split_asm)

lemma cors_handle_writer:
  "cors_handle r w c = (Respond w', c') \<Longrightarrow> aborted w' = aborted w \<and> c' = c"
  "cors_handle r w c = (Next r' w', c') \<Longrightarrow> aborted w' = aborted w \<and> c' = c"
  by (auto simp: cors_handle_def cors_preflight_def Let_def split: if_split_asm)


section \<open>The chain\<close>

definition gw_proceeds :: "writer \<Rightarrow> gateway \<Rightarrow> writer \<times> gateway \<Rightarrow> bool" where
  "gw_proceeds w s res \<longleftrightarrow> proceeds (ge_proxy (gw_env s)) w (gw_dispatch s) (fst res, gw_dispatch (snd res))"

text \<open>From a validator with the property a handler proceeds to one with the property.\<close>

definition sound_handler :: "(token_validator \<Rightarrow> bool) \<Rightarrow> gateway handler \<Rightarrow> bool" where
  "sound_handler P h \<longleftrightarrow>
     (\<forall>r w s. P (gw_tv s) \<longrightarrow> gw_proceeds w s (h r w s) \<and> P (gw_tv (snd (h r w s))))"

lemma sound_handlerD:
  assumes "sound_handler P h" and "P (gw_tv s)"
  shows "gw_proceeds w s (h r w s)" and "P (gw_tv (snd (h r w s)))"
  using assms unfolding sound_handler_def by blast+

lemma sound_dispatcher:
  assumes "proxy_New lib rts = Inr es"
  shows "sound_handler P (dispatcher_handler es)"
  unfolding sound_handler_def
proof (intro allI impI)
  fix r w and s :: gateway
  assume "P (gw_tv s)"
  then show "gw_proceeds w s (dispatcher_handler es r w s) \<and> P (gw_tv (snd (dispatcher_handler es r w s)))"
    using dispatch_proceeds [OF assms, of "ge_proxy (gw_env s)" w "gw_dispatch s" r]
    by (cases "dispatch_ServeHTTP es (ge_proxy (gw_env s)) r w (gw_dispatch s)")
      (simp add: gw_proceeds_def dispatcher_handler_def)
qed

lemma sound_answer: "aborted w' = aborted w \<Longrightarrow> gw_proceeds w s (w', s')"
  by (simp add: gw_proceeds_def proceeds_def)

lemma sound_cors:
  assumes "sound_handler P h"
  shows "sound_handler P (p_Handler cors_Plugin h)"
  unfolding sound_handler_def
proof (intro allI impI)
  fix r w and s :: gateway
  assume t: "P (gw_tv s)"
  obtain v c where e: "cors_handle r w (gw_cors s) = (v, c)" by fastforce
  show "gw_proceeds w s (p_Handler cors_Plugin h r w s) \<and> P (gw_tv (snd (p_Handler cors_Plugin h r w s)))"
  proof (cases v)
    case (Respond w')
    with cors_handle_writer(1) e have "aborted w' = aborted w" by blast
    then show ?thesis using e t Respond by (simp add: cors_Plugin_def middleware_of_def sound_answer)
  next
    case (Next r' w')
    with cors_handle_writer(2) e have w': "aborted w' = aborted w" and c: "c = gw_cors s" by blast+
    then show ?thesis
      using sound_handlerD [OF assms t, where w = w' and r = r'] e Next
      by (simp add: cors_Plugin_def middleware_of_def gw_proceeds_def proceeds_def)
  qed
qed

lemma sound_tv:
  assumes "sound_handler tv_typed h"
  shows "sound_handler tv_typed (p_Handler (tv_Plugin lib jl) h)"
  unfolding sound_handler_def
proof (intro allI impI)
  fix r w and s :: gateway
  assume t: "tv_typed (gw_tv s)"
  obtain v tv' where e: "tv_handle lib jl (ge_tv (gw_env s)) r w (gw_tv s) = (v, tv')" by fastforce
  have t': "tv_typed tv'" by (rule tv_typed_handle [OF t e])
  show "gw_proceeds w s (p_Handler (tv_Plugin lib jl) h r w s) \<and>
    tv_typed (gw_tv (snd (p_Handler (tv_Plugin lib jl) h r w s)))"
  proof (cases v)
    case (Respond w')
    with tv_handle_Respond [OF t] e have "aborted w' = aborted w" by blast
    then show ?thesis using e t' Respond by (simp add: tv_Plugin_def middleware_of_def sound_answer)
  next
    case (Next r' w')
    with tv_handle_Next_writer e have w': "w' = w" by blast
    have "tv_typed (gw_tv (s\<lparr>gw_tv := tv'\<rparr>))" using t' by simp
    from sound_handlerD [OF assms this] show ?thesis
      using e Next w' by (simp add: tv_Plugin_def middleware_of_def gw_proceeds_def)
  qed
qed

lemma sound_chain:
  assumes "set ps \<subseteq> {cors_Plugin, tv_Plugin lib jl}" and "sound_handler P h"
    and "tv_Plugin lib jl \<in> set ps \<Longrightarrow> P = tv_typed"
  shows "sound_handler P (foldr p_Handler ps h)"
  using assms by (induction ps) (auto simp: sound_cors sound_tv)


section \<open>Boot and runs\<close>

text \<open>When the validator is in the chain, its state is typed.\<close>

definition gateway_typed :: "go_lib \<Rightarrow> jwt_lib \<Rightarrow> running \<Rightarrow> gateway \<Rightarrow> bool" where
  "gateway_typed lib jl rn g \<longleftrightarrow> (tv_Plugin lib jl \<in> set (ld_ordered (rn_loader rn)) \<longrightarrow> tv_typed (gw_tv g))"

lemma Plugins_distinct: "cors_Plugin \<noteq> tv_Plugin lib jl"
  by (simp add: cors_Plugin_def tv_Plugin_def)

lemma init_run_wf:
  assumes "fst ` set pcs \<subseteq> {cors_Plugin, tv_Plugin lib jl}" and "init_run pcs s = Inr s'" and "tv_addrs_ok (gw_tv s)"
  shows "tv_addrs_ok (gw_tv s') \<and> (tv_Plugin lib jl \<in> fst ` set pcs \<or> tv_wf (gw_tv s) \<longrightarrow> tv_wf (gw_tv s'))"
  using assms
proof (induction pcs arbitrary: s)
  case (Cons pc pcs)
  obtain p cfg where pc: "pc = (p, cfg)" by (cases pc)
  then obtain s1 where s1: "p_Init p (NewMapConfig (Some cfg)) s = Inr s1" "init_run pcs s1 = Inr s'"
    using Cons.prems(2) by (auto simp: init_run_Cons and_then_eq_Inr)
  have sub: "fst ` set pcs \<subseteq> {cors_Plugin, tv_Plugin lib jl}" using Cons.prems(1) by simp
  from Cons.prems(1) pc consider (cors) "p = cors_Plugin" | (tv) "p = tv_Plugin lib jl" by auto
  then show ?case
  proof cases
    case cors
    then have "gw_tv s1 = gw_tv s" using s1(1) by (auto simp: cors_Plugin_def and_then_eq_Inr)
    with Cons.IH [OF sub s1(2)] Cons.prems(3) cors Plugins_distinct [of lib jl] show ?thesis by (auto simp: pc)
  next
    case tv
    then have "tv_Init lib (NewMapConfig (Some cfg)) (gw_tv s) = Inr (gw_tv s1)"
      using s1(1) by (auto simp: tv_Plugin_def and_then_eq_Inr)
    from tv_Init_facts(3) [OF this Cons.prems(3)] have "tv_wf (gw_tv s1)" .
    with Cons.IH [OF sub s1(2)] show ?thesis by (simp add: tv_wf_def)
  qed
qed simp

lemma boot_typed:
  assumes "boot lib jl be genv = Inr (rn, g0)" and "codes_ok (gw_tv g0)"
  shows "gateway_typed lib jl rn g0"
proof -
  let ?c = "config_Load (be_getenv be)"
  from assms(1) have "loader_Load lib (be_loader be) (imported_plugins lib jl) (PluginsFile ?c) (RoutesFile ?c)
      (JWTSecret ?c) (JWTJWKSURL ?c) (gateway_zero genv ?c) = Inr (rn_loader rn, g0)"
    unfolding boot_def Let_def by (auto simp: and_then_eq_Inr split: option.splits)
  then obtain es where o: "ld_ordered (rn_loader rn) = map fst (loaded_plugins lib jl es)"
    and i: "init_run (loaded_plugins lib jl es) (gateway_zero genv ?c) = Inr g0"
    by (rule loader_Load_facts [OF reg_inv_imported]) (simp add: loaded_plugins_def)
  have "fst ` set (loaded_plugins lib jl es) \<subseteq> {cors_Plugin, tv_Plugin lib jl}"
    by (induction es) (auto simp: loaded_plugins_Cons split: if_splits)
  from init_run_wf [OF this i] o assms(2) show ?thesis
    by (auto simp: gateway_typed_def tv_typed_def gateway_zero_def)
qed

lemma booted_chain_sound:
  assumes "boot lib jl be genv = Inr (rn, g0)" and "tv_Plugin lib jl \<in> set (ld_ordered (rn_loader rn)) \<Longrightarrow> P = tv_typed"
  shows "sound_handler P (Chain (rn_loader rn) (dispatcher_handler (rn_entries rn)))"
proof -
  have "proxy_New lib (rn_routes rn) = Inr (rn_entries rn)"
    using assms(1) unfolding boot_def Let_def by (auto simp: and_then_eq_Inr split: option.splits)
  from sound_chain [OF booted_plugins [OF assms(1)] sound_dispatcher [OF this] assms(2)] show ?thesis
    by (simp add: Chain_foldr)
qed

lemma aborted_operational:
  "aborted (handleHealthz w) = aborted w" "aborted (makeReadyzHandler ready w) = aborted w"
  "aborted (metrics_endpoint lib d w) = aborted w" "aborted (shutting_down w) = aborted w"
  by (simp_all add: handleHealthz_def makeReadyzHandler_def metrics_endpoint_def shutting_down_def Let_def split: option.split)

lemma mux_sound:
  assumes "boot lib jl be genv0 = Inr (rn, g0)" and "gateway_typed lib jl rn g"
  shows "gw_proceeds w g (mux_serve lib rn r w g) \<and> gateway_typed lib jl rn (snd (mux_serve lib rn r w g))"
proof -
  let ?ch = "Chain (rn_loader rn) (dispatcher_handler (rn_entries rn)) r w g"
  have "gw_proceeds w g ?ch \<and> gateway_typed lib jl rn (snd ?ch)"
  proof (cases "tv_Plugin lib jl \<in> set (ld_ordered (rn_loader rn))")
    case True
    then have "sound_handler tv_typed (Chain (rn_loader rn) (dispatcher_handler (rn_entries rn)))"
      by (intro booted_chain_sound [OF assms(1)]) simp
    then show ?thesis using assms(2) True sound_handlerD by (simp add: gateway_typed_def)
  next
    case False
    then have "sound_handler (\<lambda>_. True) (Chain (rn_loader rn) (dispatcher_handler (rn_entries rn)))"
      by (intro booted_chain_sound [OF assms(1)]) simp
    then show ?thesis using False sound_handlerD(1) by (simp add: gateway_typed_def)
  qed
  with assms(2) show ?thesis
    by (simp add: mux_serve_def chain_with_gate_def withShutdownGate_def sound_answer aborted_operational)
qed



section \<open>Failure codes are not checked\<close>


end
