(* ===== verification/GatewayExamples.thy ===== *)
theory GatewayExamples
  imports Process DispatchExamples Soundness
begin

text \<open>A gateway with one protected route and the token validator in its v2 form, booted and serving.\<close>

definition ex_entries :: "entry list" where
  "ex_entries = [\<lparr>en_name = tokenValidatorName, en_cfg = ex_v2_raw\<rparr>]"

definition ex_boot :: boot_env where
  "ex_boot = \<lparr>be_getenv = (\<lambda>_. ''''), be_routesFile = (\<lambda>_. Inr ''''), be_routesYaml = (\<lambda>_. Inr [ex_users_route]),
     be_loader = ex_list_io [(''name'', AStr ''token-validator'') # ex_v2_raw], be_opens = (\<lambda>_. True)\<rparr>"

definition ex_genv :: gateway_env where
  "ex_genv = \<lparr>ge_tv = ex_inp, ge_proxy = ex_users_inputs, ge_escapedPath = ''/a''\<rparr>"

abbreviation ex_config where "ex_config \<equiv> config_Load (be_getenv ex_boot)"

lemma ex_config_fields:
  "PluginsFile ex_config = ''''" "RoutesFile ex_config = ''routes.yaml''" "JWTSecret ex_config = ''''"
  "JWTJWKSURL ex_config = ''''" "AuditLog ex_config = ''stdout''"
  by (simp_all add: config_Load_def ex_boot_def envOr_def)

lemma ex_boot_entries: "readEntries ex_go (be_loader ex_boot) (PluginsFile ex_config) (RoutesFile ex_config) = Inr ex_entries"
proof -
  have "plugin_entries 0 [(''name'', AStr ''token-validator'') # ex_v2_raw] = Inr ex_entries" by code_simp
  then show ?thesis by (simp add: ex_config_fields) (simp add: readEntries_def ex_boot_def ex_list_io_def)
qed

lemma ex_boot_routes: "routes_Load ex_go (be_routesYaml ex_boot) (be_routesFile ex_boot) p = Inr [ex_users_route]"
proof -
  have "validate ex_go [ex_users_route] = Inr [ex_users_route]" by code_simp
  then show ?thesis by (simp add: routes_Load_def routes_parse_def ex_boot_def)
qed

lemma ex_boot_load:
  "loader_Load ex_go (be_loader ex_boot) (imported_plugins ex_go ex_rs) (PluginsFile ex_config) (RoutesFile ex_config)
     (JWTSecret ex_config) (JWTJWKSURL ex_config) (gateway_zero genv c) =
   Inr (\<lparr>ld_ordered = [tv_Plugin ex_go ex_rs]\<rparr>, (gateway_zero genv c)\<lparr>gw_tv := ex_v2\<rparr>)"
proof -
  have "assertTokenValidatorAlwaysOn ex_entries = None" by code_simp
  moreover have "mergeTokenValidatorEnv '''' '''' ex_entries = ex_entries"
    by (simp add: ex_entries_def merge_key_def)
  moreover have "distinct (map p_Name (Registered (imported_plugins ex_go ex_rs)))"
    using reg_inv_imported by (simp add: reg_inv_def Registered_def)
  then have "reg_by_name (Registered (imported_plugins ex_go ex_rs)) tokenValidatorName = Some (tv_Plugin ex_go ex_rs)"
    by (simp add: reg_by_name_distinct imported_names tokenValidatorName_def)
  moreover have "p_Init (tv_Plugin ex_go ex_rs) (NewMapConfig (Some ex_v2_raw)) (gateway_zero genv c) =
      Inr ((gateway_zero genv c)\<lparr>gw_tv := ex_v2\<rparr>)"
    using ex_v2_init by (simp add: tv_Plugin_def gateway_zero_def ex_v2_cfg_def)
  ultimately show ?thesis
    unfolding loader_Load_def ex_boot_entries
    unfolding ex_config_fields by (simp del: assertTokenValidatorAlwaysOn.simps mergeTokenValidatorEnv.simps)
      (simp add: ex_entries_def)
qed

lemma ex_boots:
  obtains rn g0 es where "boot ex_go ex_rs ex_boot ex_genv = Inr (rn, g0)" and "rn_routes rn = [ex_users_route]"
    and "rn_entries rn = es" and "proxy_New ex_go [ex_users_route] = Inr es"
    and "ld_ordered (rn_loader rn) = [tv_Plugin ex_go ex_rs]"
    and "gw_tv g0 = ex_v2" and "gw_dispatch g0 = dispatch_New ex_config" and "\<not> gw_shutting g0"
proof -
  obtain es where es: "proxy_New ex_go [ex_users_route] = Inr es" using ex_users_built by blast
  have ov: "ValidateRouteOverrides ex_go [ex_users_route] = None"
    by (simp add: ex_users_route_def route_disables_def)
  obtain sink where sink: "OpenSink ex_go (be_opens ex_boot) ''stdout'' = Inr sink"
    by (auto simp: OpenSink_def)
  show thesis
  proof (rule that)
    show "boot ex_go ex_rs ex_boot ex_genv =
        Inr (\<lparr>rn_config = ex_config, rn_routes = [ex_users_route], rn_loader = \<lparr>ld_ordered = [tv_Plugin ex_go ex_rs]\<rparr>,
          rn_entries = es\<rparr>, (gateway_zero ex_genv ex_config)\<lparr>gw_tv := ex_v2\<rparr>)"
      unfolding boot_def Let_def ex_boot_routes
      by (simp add: ov es ex_boot_load ex_config_fields(5) sink del: proxy_New.simps ValidateRouteOverrides.simps)
  qed (rule es | simp add: gateway_zero_def)+
qed

abbreviation ex_get :: http_request where
  "ex_get \<equiv> ex_http ''Authorization'' ''Bearer YQ.Yg.c''"

lemma ex_get_fields:
  "r_method ex_get = ''GET''" "r_path ex_get = ''/a''" "r_ctx ex_get = Background" "r_header ex_get ''Connection'' = []"
proof -
  have "canon ''Authorization'' = ''Authorization''" by code_simp
  then show "r_header ex_get ''Connection'' = []" by (simp add: ex_http_def hdr_set_apply no_header_def)
qed (simp_all add: ex_http_def)

lemma ex_clean: "clean_path ''/a'' = ''/a''"
  by code_simp

lemma ex_claim_fields: "claimStrSlice ex_claims ''roles'' = [''admin'']" "claimStr ex_claims ''tenant_id'' = ''acme''"
  by code_simp+

text \<open>The request with the token reaches the upstream.\<close>

lemma ex_served:
  assumes "boot ex_go ex_rs ex_boot ex_genv = Inr (rn, g0)" and "rn_entries rn = es"
    and "proxy_New ex_go [ex_users_route] = Inr es" and "ld_ordered (rn_loader rn) = [tv_Plugin ex_go ex_rs]"
    and "gw_tv g0 = ex_v2" and "\<not> gw_shutting g0"
  shows "ds_sent (gw_dispatch (snd (mux_serve ex_go rn ex_get (Conn new_conn) (g0\<lparr>gw_env := ex_genv\<rparr>)))) \<noteq>
    ds_sent (gw_dispatch g0)"
proof -
  obtain h where h: "makeRouteHandler ex_go ex_users_route = Inr h" using ex_users_built by blast
  obtain tv' where t: "tv_handle ex_go ex_rs ex_inp ex_get (Conn new_conn) ex_v2 =
      (Next (with_context ex_get (v2_context tv' ex_claims Background)) (Conn new_conn), tv')"
    using ex_v2_next [of "Conn new_conn"] by blast
  let ?r = "with_context ex_get (v2_context tv' ex_claims Background)"
  let ?w = "Conn new_conn" and ?s = "gw_dispatch g0"
  have f: "r_method ?r = ''GET''" "r_path ?r = ''/a''" "r_header ?r ''Connection'' = []"
    "r_ctx ?r = v2_context tv' ex_claims Background"
    using ex_get_fields by (simp_all add: with_context_def)
  have m: "find (route_matches ?r) [ex_users_route] = Some ex_users_route" using ex_users_match f by simp
  have d: "dispatch_ServeHTTP es ex_users_inputs ?r ?w ?s = observeHandler h ex_users_route ex_users_inputs ?r ?w ?s"
    by (rule dispatch_lookup [OF assms(3), of ?r ex_users_inputs ?w ?s]) (use m h in auto)
  have "ds_sent (snd (observeHandler h ex_users_route ex_users_inputs ?r ?w ?s)) \<noteq> ds_sent ?s"
    by (rule standard_route_sends [OF _ _ _ _ h])
      (simp_all add: ex_users_route_def ModeSSE_def f(4) v2_context_fields ex_claim_fields ex_get_fields(4))
  moreover have "gw_dispatch (snd (mux_serve ex_go rn ex_get ?w (g0\<lparr>gw_env := ex_genv\<rparr>))) =
      snd (dispatch_ServeHTTP es ex_users_inputs ?r ?w ?s)"
  proof -
    let ?g = "g0\<lparr>gw_env := ex_genv\<rparr>"
    have env: "ge_tv ex_genv = ex_inp" "ge_proxy ex_genv = ex_users_inputs" "ge_escapedPath ex_genv = ''/a''"
      by (simp_all add: ex_genv_def)
    have "mux_serve ex_go rn ex_get ?w ?g = Chain (rn_loader rn) (dispatcher_handler es) ex_get ?w ?g"
      using assms(2,6) by (simp add: mux_serve_def env ex_clean ex_get_fields chain_with_gate_def withShutdownGate_def)
    also have "\<dots> = p_Handler (tv_Plugin ex_go ex_rs) (dispatcher_handler es) ex_get ?w ?g"
      by (simp add: Chain_foldr assms(4))
    also have "\<dots> = dispatcher_handler es ?r ?w (?g\<lparr>gw_tv := tv'\<rparr>)"
      unfolding tv_Plugin_def middleware_of_def plugin.select_convs gateway.select_convs gateway.update_convs
      using t by (simp add: env assms(5))
    finally show ?thesis by (simp add: dispatcher_handler_def env split: prod.split)
  qed
  ultimately show ?thesis using d by simp
qed

lemma ex_run:
  obtains rn g0 w' g' where "boot ex_go ex_rs ex_boot ex_genv = Inr (rn, g0)"
    and "mux_serve ex_go rn ex_get (Conn new_conn) (g0\<lparr>gw_env := ex_genv\<rparr>) = (w', g')"
    and "ds_sent (gw_dispatch g') \<noteq> ds_sent (gw_dispatch g0)" and "rn_routes rn = [ex_users_route]"
proof -
  obtain rn g0 es where b: "boot ex_go ex_rs ex_boot ex_genv = Inr (rn, g0)" "rn_routes rn = [ex_users_route]"
    "rn_entries rn = es" "proxy_New ex_go [ex_users_route] = Inr es" "ld_ordered (rn_loader rn) = [tv_Plugin ex_go ex_rs]"
    "gw_tv g0 = ex_v2" "gw_dispatch g0 = dispatch_New ex_config" "\<not> gw_shutting g0"
    by (rule ex_boots)
  obtain w' g' where m: "mux_serve ex_go rn ex_get (Conn new_conn) (g0\<lparr>gw_env := ex_genv\<rparr>) = (w', g')" by fastforce
  have "ds_sent (gw_dispatch g') \<noteq> ds_sent (gw_dispatch g0)" using ex_served [OF b(1,3-6,8)] m by (metis snd_conv)
  from that [OF b(1) m this b(2)] show thesis .
qed

lemma ex_run_facts:
  "tv_entries ex_entries = [ex_v2_raw]"
  "ex_v2_cfg = NewMapConfig (Some (merged_cfg (JWTSecret ex_config) (JWTJWKSURL ex_config) ex_v2_raw))"
  "g0 = gateway_run ex_go rn [] g0" "TenantID (r_ctx ex_get) = ''''"
  by (simp_all add: tv_entries_def ex_entries_def ex_config_fields merged_cfg_def merge_key_def ex_v2_cfg_def
      ex_get_fields ctx_simps)



lemma shutdown_gate_closes_witness:
  "\<exists>rn g0 w' g'. boot ex_go ex_rs ex_boot ex_genv = Inr (rn, g0) \<and>
     mux_serve ex_go rn ex_get (Conn new_conn) ((gateway_run ex_go rn [Signal Background] g0)\<lparr>gw_env := ex_genv\<rparr>) = (w', g') \<and>
     w_status w' = Some 503"
proof -
  obtain rn g0 where b: "boot ex_go ex_rs ex_boot ex_genv = Inr (rn, g0)" using ex_boots by metis
  obtain w' g' where m: "mux_serve ex_go rn ex_get (Conn new_conn)
      ((gateway_run ex_go rn [Signal Background] g0)\<lparr>gw_env := ex_genv\<rparr>) = (w', g')" by fastforce
  have "clean_path (ge_escapedPath ex_genv) = ge_escapedPath ex_genv" by (simp add: ex_genv_def ex_clean)
  from shutdown_gate_closes [OF b _ refl this fresh_new_conn m, of Background] have "w_status w' = Some 503"
    by (simp add: ex_get_fields)
  with b m show ?thesis by blast
qed


lemma drain_may_cut_requests_witness:
  "\<exists>rn g0 p. boot ex_go ex_rs ex_boot ex_genv = Inr (rn, g0) \<and> process_reach ex_go rn g0 p \<and> pr_exited p = Some 0 \<and>
     pr_inflight p 7 = Some (PastGate (ex_genv, ex_get, Conn new_conn)) \<and> pr_answers p = []"
proof -
  obtain rn g0 where b: "boot ex_go ex_rs ex_boot ex_genv = Inr (rn, g0)" using ex_boots by metis
  have "mux_gated ex_genv ex_get" by (simp add: mux_gated_def ex_genv_def ex_clean ex_get_fields)
  with drain_may_cut_requests [OF b refl, of 7 ex_genv ex_get "Conn new_conn"] b show ?thesis by auto
qed




end
