(* ===== verification/TenantThreads.thy ===== *)
theory TenantThreads
  imports TenantSafety
begin

text \<open>
  \<open>resolveTenant\<close> of \<open>internal/plugins/tenantinjector\<close> under concurrent requests. The
  lock covers one cache operation at a time, and the directory is asked inside
  \<open>singleflight.Group.Do\<close>, so goroutines interleave at the ends of these sections: \<open>resolve_step\<close>
  has one constructor for each. \<open>singleflight\<close> is a third-party package: the function \<open>sf\<close>, which is
  given the calls made so far, says whether \<open>Do\<close> runs its function (\<open>None\<close>) or waits for a call,
  and \<open>sf_documented\<close> is what its documentation promises. The answers of the directory, in their order,
  are kept as a ghost.
\<close>

section \<open>Steps\<close>

type_synonym lookup_result = "lookup_err + string"

text \<open>A call of \<open>Do\<close>: its key, and its result once it is complete.\<close>

type_synonym sf_call = "string \<times> lookup_result option"

definition in_flight :: "string \<Rightarrow> sf_call list \<Rightarrow> nat \<Rightarrow> bool" where
  "in_flight k calls n \<longleftrightarrow> n < length calls \<and> calls ! n = (k, None)"

text \<open>Only one execution is in flight for a key at a time; a duplicate waits for the original.\<close>

definition sf_documented :: "(string \<Rightarrow> sf_call list \<Rightarrow> nat option) \<Rightarrow> bool" where
  "sf_documented sf \<longleftrightarrow>
     (\<forall>k calls. case sf k calls of Some n \<Rightarrow> in_flight k calls n | None \<Rightarrow> (\<forall>n. \<not> in_flight k calls n))"

datatype resolve_pc =
    RIdle
  | RMissed string
  | RLeading string nat
  | RAnswered string nat lookup_result
  | RStored string nat lookup_result
  | RWaiting string nat
  | RReturned string lookup_result

record resolve_threads =
  rt_plugin :: tenant_injector
  rt_calls :: "sf_call list"
  rt_pc :: "nat \<Rightarrow> resolve_pc"
  rt_said :: "(string \<times> lookup_result) list"

definition resolve_start :: "tenant_injector \<Rightarrow> resolve_threads" where
  "resolve_start ti = \<lparr>rt_plugin = ti, rt_calls = [], rt_pc = (\<lambda>_. RIdle), rt_said = []\<rparr>"

definition rt_goto :: "nat \<Rightarrow> resolve_pc \<Rightarrow> resolve_threads \<Rightarrow> resolve_threads" where
  "rt_goto p pc s = s\<lparr>rt_pc := (rt_pc s)(p := pc)\<rparr>"

text \<open>What a cached entry answers, and what a result leaves in the cache.\<close>

definition cached_answer :: "string \<times> bool \<Rightarrow> lookup_result" where
  "cached_answer e = (if snd e then Inl PrincipalNotFound else Inr (fst e))"

definition store_answer :: "int \<Rightarrow> string \<Rightarrow> lookup_result \<Rightarrow> tenant_injector \<Rightarrow> tenant_injector" where
  "store_answer now prin res ti =
     (case res of
        Inr tid \<Rightarrow> ti_cacheSet now prin tid False (ti_cacheTTL ti) ti
      | Inl PrincipalNotFound \<Rightarrow> ti_cacheSet now prin '''' True (ti_negativeCacheTTL ti) ti
      | Inl _ \<Rightarrow> ti)"

inductive resolve_step ::
    "go_lib \<Rightarrow> (string \<Rightarrow> sf_call list \<Rightarrow> nat option) \<Rightarrow> nat \<Rightarrow> resolve_threads \<Rightarrow> resolve_threads \<Rightarrow> bool"
  for lib sf p where
  hit: "rt_pc s p = RIdle \<Longrightarrow> ti_cacheGet now prin (rt_plugin s) = ((tid, neg, True), ti') \<Longrightarrow>
     resolve_step lib sf p s (rt_goto p (RReturned prin (cached_answer (tid, neg))) (s\<lparr>rt_plugin := ti'\<rparr>))"
| miss: "rt_pc s p = RIdle \<Longrightarrow> ti_cacheGet now prin (rt_plugin s) = ((tid, neg, False), ti') \<Longrightarrow>
     resolve_step lib sf p s (rt_goto p (RMissed prin) (s\<lparr>rt_plugin := ti'\<rparr>))"
| lead: "rt_pc s p = RMissed prin \<Longrightarrow> sf prin (rt_calls s) = None \<Longrightarrow>
     resolve_step lib sf p s
       (rt_goto p (RLeading prin (length (rt_calls s))) (s\<lparr>rt_calls := rt_calls s @ [(prin, None)]\<rparr>))"
| join: "rt_pc s p = RMissed prin \<Longrightarrow> sf prin (rt_calls s) = Some n \<Longrightarrow>
     resolve_step lib sf p s (rt_goto p (RWaiting prin n) s)"
| answer: "rt_pc s p = RLeading prin n \<Longrightarrow> doHTTPLookup lib inp prin (rt_plugin s) = res \<Longrightarrow>
     resolve_step lib sf p s (rt_goto p (RAnswered prin n res) (s\<lparr>rt_said := rt_said s @ [(prin, res)]\<rparr>))"
| store: "rt_pc s p = RAnswered prin n res \<Longrightarrow>
     resolve_step lib sf p s
       (rt_goto p (RStored prin n res) (s\<lparr>rt_plugin := store_answer now prin res (rt_plugin s)\<rparr>))"
| complete: "rt_pc s p = RStored prin n res \<Longrightarrow>
     resolve_step lib sf p s (rt_goto p (RReturned prin res) (s\<lparr>rt_calls := (rt_calls s)[n := (prin, Some res)]\<rparr>))"
| wake: "rt_pc s p = RWaiting prin n \<Longrightarrow> n < length (rt_calls s) \<Longrightarrow> rt_calls s ! n = (prin, Some res) \<Longrightarrow>
     resolve_step lib sf p s (rt_goto p (RReturned prin res) s)"
| again: "rt_pc s p = RReturned prin res \<Longrightarrow> resolve_step lib sf p s (rt_goto p RIdle s)"

inductive resolve_reach ::
    "go_lib \<Rightarrow> (string \<Rightarrow> sf_call list \<Rightarrow> nat option) \<Rightarrow> tenant_injector \<Rightarrow> resolve_threads \<Rightarrow> bool"
  for lib sf ti where
  start: "resolve_reach lib sf ti (resolve_start ti)"
| step: "resolve_reach lib sf ti s \<Longrightarrow> resolve_step lib sf p s s' \<Longrightarrow> resolve_reach lib sf ti s'"

lemma rt_goto_simps [simp]:
  "rt_pc (rt_goto p pc s) = (rt_pc s)(p := pc)" "rt_plugin (rt_goto p pc s) = rt_plugin s"
  "rt_calls (rt_goto p pc s) = rt_calls s" "rt_said (rt_goto p pc s) = rt_said s"
  by (simp_all add: rt_goto_def)

section \<open>A lookup that runs alone\<close>

text \<open>Without others in between, a lookup is \<open>resolveTenant\<close>.\<close>

lemma store_answer_conf: "ti_conf (store_answer now prin res ti) = ti_conf ti"
  by (auto simp: store_answer_def ti_cacheSet_put ti_put_conf split: sum.split lookup_err.split)

lemma resolveTenant_alt:
  assumes "tii_shared inp = None" and "ti_cacheGet (tii_lookup inp) prin ti = ((tid, neg, hit), ti1)"
  shows "resolveTenant lib inp prin ti =
    (if hit then (cached_answer (tid, neg), ti1)
     else (doHTTPLookup lib inp prin ti1, store_answer (tii_store inp) prin (doHTTPLookup lib inp prin ti1) ti1))"
  using assms by (simp add: resolveTenant_def cached_answer_def store_answer_def Let_def)

lemma resolve_steps:
  assumes "rt_pc s p = RIdle" and "sf prin (rt_calls s) = None" and "tii_shared inp = None"
  shows "\<exists>s'. (resolve_step lib sf p)\<^sup>*\<^sup>* s s' \<and>
    rt_pc s' p = RReturned prin (fst (resolveTenant lib inp prin (rt_plugin s))) \<and>
    rt_plugin s' = snd (resolveTenant lib inp prin (rt_plugin s))"
proof -
  obtain tid neg found ti1 where g: "ti_cacheGet (tii_lookup inp) prin (rt_plugin s) = ((tid, neg, found), ti1)"
    by (metis prod.exhaust)
  show ?thesis
  proof (cases found)
    case True
    let ?s1 = "rt_goto p (RReturned prin (cached_answer (tid, neg))) (s\<lparr>rt_plugin := ti1\<rparr>)"
    have "resolve_step lib sf p s ?s1" by (rule hit [OF assms(1)]) (use g True in simp)
    then show ?thesis
      by (intro exI [of _ ?s1]) (simp add: resolveTenant_alt [OF assms(3) g] True r_into_rtranclp)
  next
    case False
    let ?n = "length (rt_calls s)" and ?res = "doHTTPLookup lib inp prin ti1"
    let ?s1 = "rt_goto p (RMissed prin) (s\<lparr>rt_plugin := ti1\<rparr>)"
    let ?s2 = "rt_goto p (RLeading prin ?n) (?s1\<lparr>rt_calls := rt_calls ?s1 @ [(prin, None)]\<rparr>)"
    let ?s3 = "rt_goto p (RAnswered prin ?n ?res) (?s2\<lparr>rt_said := rt_said ?s2 @ [(prin, ?res)]\<rparr>)"
    let ?s4 = "rt_goto p (RStored prin ?n ?res) (?s3\<lparr>rt_plugin := store_answer (tii_store inp) prin ?res (rt_plugin ?s3)\<rparr>)"
    let ?s5 = "rt_goto p (RReturned prin ?res) (?s4\<lparr>rt_calls := (rt_calls ?s4)[?n := (prin, Some ?res)]\<rparr>)"
    have 1: "resolve_step lib sf p s ?s1" by (rule miss [OF assms(1)]) (use g False in simp)
    have "resolve_step lib sf p ?s1
        (rt_goto p (RLeading prin (length (rt_calls ?s1))) (?s1\<lparr>rt_calls := rt_calls ?s1 @ [(prin, None)]\<rparr>))"
      by (rule lead) (use assms(2) in simp_all)
    then have 2: "resolve_step lib sf p ?s1 ?s2" by simp
    have 3: "resolve_step lib sf p ?s2 ?s3" by (rule answer) simp_all
    have 4: "resolve_step lib sf p ?s3 ?s4" by (rule store) simp
    have 5: "resolve_step lib sf p ?s4 ?s5" by (rule complete) simp
    from 1 2 3 4 5 have "(resolve_step lib sf p)\<^sup>*\<^sup>* s ?s5"
      by (meson converse_rtranclp_into_rtranclp rtranclp.rtrancl_refl)
    then show ?thesis
      by (intro exI [of _ ?s5]) (simp add: resolveTenant_alt [OF assms(3) g] False)
  qed
qed


section \<open>Calls in flight\<close>

text \<open>The call that a goroutine runs, from its start to its completion.\<close>

fun leads :: "resolve_pc \<Rightarrow> (string \<times> nat) option" where
  "leads (RLeading k n) = Some (k, n)"
| "leads (RAnswered k n res) = Some (k, n)"
| "leads (RStored k n res) = Some (k, n)"
| "leads _ = None"

text \<open>A call is in flight when exactly one goroutine runs it, and there is one per key.\<close>

definition calls_inv :: "sf_call list \<Rightarrow> (nat \<Rightarrow> (string \<times> nat) option) \<Rightarrow> bool" where
  "calls_inv calls lead \<longleftrightarrow>
     (\<forall>k n. in_flight k calls n \<longleftrightarrow> (\<exists>p. lead p = Some (k, n))) \<and>
     (\<forall>k m n. in_flight k calls m \<and> in_flight k calls n \<longrightarrow> m = n) \<and>
     (\<forall>p q k n. lead p = Some (k, n) \<and> lead q = Some (k, n) \<longrightarrow> p = q)"

definition flight_inv :: "resolve_threads \<Rightarrow> bool" where
  "flight_inv s \<longleftrightarrow> calls_inv (rt_calls s) (\<lambda>p. leads (rt_pc s p)) \<and>
     (\<forall>p k n. rt_pc s p = RWaiting k n \<longrightarrow> n < length (rt_calls s) \<and> fst (rt_calls s ! n) = k)"

lemma in_flight_append [simp]:
  "in_flight k (calls @ [(k', None)]) n \<longleftrightarrow> in_flight k calls n \<or> n = length calls \<and> k = k'"
  by (auto simp: in_flight_def nth_append)

lemma in_flight_update [simp]:
  "in_flight k (calls[m := (k', Some res)]) n \<longleftrightarrow> in_flight k calls n \<and> n \<noteq> m"
  by (cases "n = m") (auto simp: in_flight_def)

lemma in_flight_less: "in_flight k calls n \<Longrightarrow> n < length calls"
  by (simp add: in_flight_def)

lemma in_flight_key: "in_flight k calls n \<Longrightarrow> in_flight k' calls n \<Longrightarrow> k = k'"
  by (simp add: in_flight_def)

lemma calls_invD:
  assumes "calls_inv calls lead"
  shows "lead p = Some (k, n) \<Longrightarrow> in_flight k calls n"
    and "in_flight k calls n \<Longrightarrow> \<exists>p. lead p = Some (k, n)"
    and "lead p = Some (k, m) \<Longrightarrow> lead q = Some (k, n) \<Longrightarrow> p = q"
    and "in_flight k calls m \<Longrightarrow> in_flight k calls n \<Longrightarrow> m = n"
  using assms unfolding calls_inv_def by metis+

lemma calls_inv_lead:
  assumes "calls_inv calls lead" and "lead p = None" and "\<forall>n. \<not> in_flight k calls n"
  shows "calls_inv (calls @ [(k, None)]) (lead(p := Some (k, length calls)))"
  unfolding calls_inv_def
proof (intro conjI allI impI)
  fix k' n
  show "in_flight k' (calls @ [(k, None)]) n \<longleftrightarrow> (\<exists>q. (lead(p := Some (k, length calls))) q = Some (k', n))"
    using calls_invD(1,2) [OF assms(1)] assms(2) by auto (metis option.distinct(1))
next
  fix k' m n
  assume "in_flight k' (calls @ [(k, None)]) m \<and> in_flight k' (calls @ [(k, None)]) n"
  then show "m = n" using calls_invD(4) [OF assms(1)] assms(3) by auto
next
  fix q r k' n
  assume "(lead(p := Some (k, length calls))) q = Some (k', n) \<and> (lead(p := Some (k, length calls))) r = Some (k', n)"
  then show "q = r"
    using calls_invD(1,3) [OF assms(1)] in_flight_less by (fastforce split: if_split_asm)
qed

lemma calls_inv_complete:
  assumes "calls_inv calls lead" and "lead p = Some (k, n)"
  shows "calls_inv (calls[n := (k, Some res)]) (lead(p := None))"
  unfolding calls_inv_def
proof (intro conjI allI impI)
  fix k' m
  have "lead q = Some (k', n) \<Longrightarrow> q = p" for q
    using calls_invD(1,3) [OF assms(1)] assms(2) in_flight_key by metis
  then show "in_flight k' (calls[n := (k, Some res)]) m \<longleftrightarrow> (\<exists>q. (lead(p := None)) q = Some (k', m))"
    using assms calls_invD(1,2) [OF assms(1)] in_flight_key by (auto) (metis option.inject prod.inject)+
next
  fix k' m m'
  assume "in_flight k' (calls[n := (k, Some res)]) m \<and> in_flight k' (calls[n := (k, Some res)]) m'"
  then show "m = m'" using calls_invD(4) [OF assms(1)] in_flight_update by blast
next
  fix q r k' m
  assume "(lead(p := None)) q = Some (k', m) \<and> (lead(p := None)) r = Some (k', m)"
  then show "q = r" using calls_invD(3) [OF assms(1)] by (auto split: if_split_asm)
qed

lemma flight_inv_goto:
  assumes "flight_inv s" and "rt_calls s' = rt_calls s" and "rt_pc s' = rt_pc s" and "leads pc = leads (rt_pc s p)"
    and "\<And>k n. pc = RWaiting k n \<Longrightarrow> n < length (rt_calls s) \<and> fst (rt_calls s ! n) = k"
  shows "flight_inv (rt_goto p pc s')"
proof -
  have "(\<lambda>q. leads (((rt_pc s)(p := pc)) q)) = (\<lambda>q. leads (rt_pc s q))" using assms(4) by auto
  then show ?thesis using assms by (auto simp: flight_inv_def)
qed

lemma leads_upd: "(\<lambda>q. leads ((f(p := pc)) q)) = (\<lambda>q. leads (f q))(p := leads pc)"
  by auto

lemma flight_inv_step:
  assumes "resolve_step lib sf p s s'" and "sf_documented sf" and "flight_inv s"
  shows "flight_inv s'"
  using assms(1) assms(3)
proof (induction rule: resolve_step.induct)
  case (lead s prin)
  have free: "\<forall>n. \<not> in_flight prin (rt_calls s) n"
    using assms(2) lead(2) unfolding sf_documented_def by (metis option.simps(4))
  have "calls_inv (rt_calls s @ [(prin, None)]) (\<lambda>q. leads (((rt_pc s)(p := RLeading prin (length (rt_calls s)))) q))"
    unfolding leads_upd leads.simps
    by (rule calls_inv_lead [OF _ _ free]) (use lead in \<open>simp_all add: flight_inv_def\<close>)
  then show ?case
    using lead by (auto simp: flight_inv_def nth_append less_Suc_eq)
next
  case (join s prin n)
  then have "in_flight prin (rt_calls s) n"
    using assms(2) unfolding sf_documented_def by (metis option.simps(5))
  with join show ?case
    by (intro flight_inv_goto [where s = s]) (auto simp: in_flight_def)
next
  case (complete s prin n res)
  have "calls_inv ((rt_calls s)[n := (prin, Some res)]) (\<lambda>q. leads (((rt_pc s)(p := RReturned prin res)) q))"
    unfolding leads_upd leads.simps by (rule calls_inv_complete) (use complete in \<open>simp_all add: flight_inv_def\<close>)
  moreover have "in_flight prin (rt_calls s) n"
    by (rule calls_invD(1) [where p = p and lead = "\<lambda>q. leads (rt_pc s q)"]) (use complete in \<open>simp_all add: flight_inv_def\<close>)
  ultimately show ?case
    using complete by (auto simp: flight_inv_def nth_list_update in_flight_def) (metis fst_conv)
qed (erule flight_inv_goto; simp)+

lemma flight_inv_reach:
  assumes "sf_documented sf" and "resolve_reach lib sf ti s"
  shows "flight_inv s"
  using assms(2)
proof (induction rule: resolve_reach.induct)
  case start
  show ?case by (simp add: flight_inv_def calls_inv_def in_flight_def resolve_start_def)
next
  case (step s p s')
  then show ?case using flight_inv_step [OF _ assms(1)] by blast
qed


section \<open>Answers\<close>

text \<open>What the cache holds under a principal, and every result that a goroutine carries or a call ended with, is
  an answer of the directory for this principal.\<close>

definition carried :: "resolve_pc \<Rightarrow> (string \<times> lookup_result) option" where
  "carried pc = (case pc of RAnswered k n res \<Rightarrow> Some (k, res) | RStored k n res \<Rightarrow> Some (k, res)
     | RReturned k res \<Rightarrow> Some (k, res) | _ \<Rightarrow> None)"

definition answers_inv :: "go_lib \<Rightarrow> tenant_injector \<Rightarrow> resolve_threads \<Rightarrow> bool" where
  "answers_inv lib ti s \<longleftrightarrow> ti_inv (rt_plugin s) \<and> ti_conf (rt_plugin s) = ti_conf ti \<and>
     0 < ti_maxSize ti \<and> int (length (ti_abs (rt_plugin s))) \<le> ti_maxSize ti \<and>
     (\<forall>(k, res) \<in> set (rt_said s). \<exists>inp. doHTTPLookup lib inp k ti = res) \<and>
     (\<forall>k e t. map_of (ti_abs (rt_plugin s)) k = Some (e, t) \<longrightarrow> (k, cached_answer e) \<in> set (rt_said s)) \<and>
     (\<forall>p x. carried (rt_pc s p) = Some x \<longrightarrow> x \<in> set (rt_said s)) \<and>
     (\<forall>k res. (k, Some res) \<in> set (rt_calls s) \<longrightarrow> (k, res) \<in> set (rt_said s))"

lemma carried_simps [simp]:
  "carried RIdle = None" "carried (RMissed k) = None" "carried (RLeading k n) = None"
  "carried (RWaiting k n) = None" "carried (RAnswered k n res) = Some (k, res)"
  "carried (RStored k n res) = Some (k, res)" "carried (RReturned k res) = Some (k, res)"
  by (simp_all add: carried_def)

lemma answers_inv_goto:
  assumes "answers_inv lib ti s" and "\<And>x. carried pc = Some x \<Longrightarrow> x \<in> set (rt_said s)"
  shows "answers_inv lib ti (rt_goto p pc s)"
  using assms by (auto simp: answers_inv_def)

text \<open>The cache operations of a goroutine, as operations of the TTL cache.\<close>

lemma cacheGet_step:
  assumes "ti_cacheGet now k ti = ((tid, neg, found), ti')"
  shows "ti' = dir_cache.step (OpGet now k) ti" and "ti_conf ti' = ti_conf ti"
    and "fst (ti_get now k ti) = (if found then Some (tid, neg) else None)"
  using assms ti_get_conf [of now k ti] by (simp_all add: ti_get_def)

definition answer_ops :: "int \<Rightarrow> string \<Rightarrow> lookup_result \<Rightarrow> tenant_injector \<Rightarrow> (string \<times> bool) cache_op list" where
  "answer_ops now k res ti =
     (case res of
        Inr tid \<Rightarrow> [OpSet (now + ti_cacheTTL ti) k (tid, False)]
      | Inl PrincipalNotFound \<Rightarrow> [OpSet (now + ti_negativeCacheTTL ti) k ('''', True)]
      | Inl _ \<Rightarrow> [])"

lemma store_answer_step: "store_answer now k res ti = fold dir_cache.step (answer_ops now k res ti) ti"
  by (simp add: store_answer_def answer_ops_def ti_cacheSet_put split: sum.split lookup_err.split)

lemma answer_ops_value: "OpSet t k e \<in> set (answer_ops now k' res ti) \<Longrightarrow> k = k' \<and> cached_answer e = res"
  by (auto simp: answer_ops_def cached_answer_def split: sum.splits lookup_err.splits)

lemma hit_entry:
  assumes "ti_inv ti" and "ti_cacheGet now k ti = ((tid, neg, True), ti')"
  obtains t where "map_of (ti_abs ti) k = Some ((tid, neg), t)" and "now \<le> t"
proof -
  have "ti_get now k ti = (Some (tid, neg), ti')" using assms(2) by (simp add: ti_get_def)
  from dir_cache.hit_is_live [OF assms(1) this] that show thesis .
qed

lemma answers_inv_plugin:
  assumes "answers_inv lib ti s" and "ti' = fold dir_cache.step ops (rt_plugin s)" and "ti_conf ti' = ti_conf (rt_plugin s)"
    and "\<And>k e t. OpSet t k e \<in> set ops \<Longrightarrow> (k, cached_answer e) \<in> set (rt_said s)"
  shows "answers_inv lib ti (s\<lparr>rt_plugin := ti'\<rparr>)"
proof -
  have inv: "ti_inv (rt_plugin s)" using assms(1) by (simp add: answers_inv_def)
  have "map_of (ti_abs ti') k = Some (e, t) \<Longrightarrow> (k, cached_answer e) \<in> set (rt_said s)" for k e t
    using dir_cache.run_entry [OF inv, of ops k e t] assms(1,4) unfolding assms(2) answers_inv_def by blast
  moreover have "ti_inv ti'" unfolding assms(2) by (rule dir_cache.run_inv [OF inv])
  moreover have "ti_maxSize (rt_plugin s) = ti_maxSize ti"
    by (rule ti_conf_fields(9)) (use assms(1) in \<open>simp add: answers_inv_def\<close>)
  then have "int (length (ti_abs ti')) \<le> ti_maxSize ti"
    using dir_cache.run_bounded [OF inv, of ops] assms(1) unfolding assms(2) answers_inv_def by simp
  ultimately show ?thesis using assms(1,3) by (simp add: answers_inv_def)
qed

lemma answers_inv_step: "resolve_step lib sf p s s' \<Longrightarrow> answers_inv lib ti s \<Longrightarrow> answers_inv lib ti s'"
proof (induction rule: resolve_step.induct)
  case (hit s now prin tid neg ti')
  then have inv: "ti_inv (rt_plugin s)" by (simp add: answers_inv_def)
  from hit_entry [OF inv hit(2)] obtain t where "map_of (ti_abs (rt_plugin s)) prin = Some ((tid, neg), t)" .
  then have "(prin, cached_answer (tid, neg)) \<in> set (rt_said s)" using hit(3) by (simp add: answers_inv_def)
  moreover have "answers_inv lib ti (s\<lparr>rt_plugin := ti'\<rparr>)"
    by (rule answers_inv_plugin [OF hit(3), of _ "[OpGet now prin]"]) (use cacheGet_step [OF hit(2)] in simp_all)
  ultimately show ?case by (intro answers_inv_goto) auto
next
  case (miss s now prin tid neg ti')
  have "answers_inv lib ti (s\<lparr>rt_plugin := ti'\<rparr>)"
    by (rule answers_inv_plugin [OF miss(3), of _ "[OpGet now prin]"]) (use cacheGet_step [OF miss(2)] in simp_all)
  then show ?case by (rule answers_inv_goto) simp
next
  case (lead s prin)
  then have "answers_inv lib ti (s\<lparr>rt_calls := rt_calls s @ [(prin, None)]\<rparr>)" by (simp add: answers_inv_def)
  then show ?case by (rule answers_inv_goto) simp
next
  case (answer s prin n inp res)
  have "doHTTPLookup lib inp prin ti = res"
    using answer ti_conf_fields(13) [of "rt_plugin s" ti] by (simp add: answers_inv_def)
  with answer(3) have "answers_inv lib ti (s\<lparr>rt_said := rt_said s @ [(prin, res)]\<rparr>)"
    by (auto simp: answers_inv_def)
  then show ?case by (rule answers_inv_goto) simp
next
  case (store s prin n res now)
  then have said: "(prin, res) \<in> set (rt_said s)"
    unfolding answers_inv_def by (metis carried_simps(5))
  have "answers_inv lib ti (s\<lparr>rt_plugin := store_answer now prin res (rt_plugin s)\<rparr>)"
    by (rule answers_inv_plugin [OF store(2) store_answer_step store_answer_conf])
      (use said answer_ops_value in blast)
  then show ?case by (rule answers_inv_goto) (use said in simp)
next
  case (complete s prin n res)
  then have said: "(prin, res) \<in> set (rt_said s)"
    unfolding answers_inv_def by (metis carried_simps(6))
  then have "answers_inv lib ti (s\<lparr>rt_calls := (rt_calls s)[n := (prin, Some res)]\<rparr>)"
    using complete(2) set_update_subset_insert [of "rt_calls s" n "(prin, Some res)"]
    by (auto simp: answers_inv_def)
  then show ?case by (rule answers_inv_goto) (use said in simp)
next
  case (wake s prin n res)
  then have "(prin, res) \<in> set (rt_said s)" unfolding answers_inv_def by (metis nth_mem)
  with wake(4) show ?case by (intro answers_inv_goto) auto
qed (erule answers_inv_goto; simp)+

lemma answers_inv_reach:
  assumes "ti_inv ti" and "ti_abs ti = []" and "0 < ti_maxSize ti" and "resolve_reach lib sf ti s"
  shows "answers_inv lib ti s"
  using assms(4)
proof (induction rule: resolve_reach.induct)
  case start
  show ?case using assms(1-3) by (simp add: answers_inv_def resolve_start_def)
next
  case (step s p s')
  then show ?case using answers_inv_step by blast
qed


section \<open>The newest answer\<close>

text \<open>The answers for a principal that are worth remembering, in the order in which the directory gave them;
  and whether the last of them is still on its way to the cache.\<close>

definition kept :: "lookup_result \<Rightarrow> bool" where
  "kept res = (case res of Inr tid \<Rightarrow> True | Inl err \<Rightarrow> err = PrincipalNotFound)"

definition kept_answers :: "string \<Rightarrow> (string \<times> lookup_result) list \<Rightarrow> lookup_result list" where
  "kept_answers k said = map snd (filter (\<lambda>x. fst x = k \<and> kept (snd x)) said)"

definition awaited :: "string \<Rightarrow> (nat \<Rightarrow> resolve_pc) \<Rightarrow> bool" where
  "awaited k pcs \<longleftrightarrow> (\<exists>p n res. pcs p = RAnswered k n res \<and> kept res)"

definition stored_answers :: "string \<Rightarrow> resolve_threads \<Rightarrow> lookup_result list" where
  "stored_answers k s =
     (if awaited k (rt_pc s) then butlast (kept_answers k (rt_said s)) else kept_answers k (rt_said s))"

definition newest_inv :: "resolve_threads \<Rightarrow> bool" where
  "newest_inv s \<longleftrightarrow> ti_inv (rt_plugin s) \<and>
     (\<forall>p k n res. rt_pc s p = RAnswered k n res \<and> kept res \<longrightarrow>
        kept_answers k (rt_said s) \<noteq> [] \<and> last (kept_answers k (rt_said s)) = res) \<and>
     (\<forall>k e t. map_of (ti_abs (rt_plugin s)) k = Some (e, t) \<longrightarrow>
        stored_answers k s \<noteq> [] \<and> last (stored_answers k s) = cached_answer e)"

lemma kept_answers_snoc [simp]:
  "kept_answers k (said @ [(k', res)]) = kept_answers k said @ (if k' = k \<and> kept res then [res] else [])"
  by (simp add: kept_answers_def)

lemma newest_invD:
  assumes "newest_inv s"
  shows "ti_inv (rt_plugin s)"
    and "map_of (ti_abs (rt_plugin s)) k = Some (e, t) \<Longrightarrow>
      stored_answers k s \<noteq> [] \<and> last (stored_answers k s) = cached_answer e"
  using assms unfolding newest_inv_def by blast+

lemma awaited_upd:
  assumes "\<And>n res. f p = RAnswered k n res \<Longrightarrow> \<not> kept res" and "\<And>n res. pc = RAnswered k n res \<Longrightarrow> \<not> kept res"
  shows "awaited k (f(p := pc)) = awaited k f"
  using assms by (auto simp: awaited_def) metis+

lemma one_leader:
  assumes "flight_inv s" and "leads (rt_pc s p) = Some (k, m)" and "leads (rt_pc s q) = Some (k, n)"
  shows "p = q"
  using assms unfolding flight_inv_def by (blast intro: calls_invD(3))

lemma newest_inv_goto:
  assumes "newest_inv s" and "rt_said s' = rt_said s" and "rt_pc s' = rt_pc s" and "ti_inv (rt_plugin s')"
    and "\<And>k e t. map_of (ti_abs (rt_plugin s')) k = Some (e, t) \<Longrightarrow> map_of (ti_abs (rt_plugin s)) k = Some (e, t)"
    and "\<And>k n res. rt_pc s p = RAnswered k n res \<Longrightarrow> \<not> kept res" and "\<And>k n res. pc = RAnswered k n res \<Longrightarrow> \<not> kept res"
  shows "newest_inv (rt_goto p pc s')"
proof -
  have "stored_answers k (rt_goto p pc s') = stored_answers k s" for k
    using assms(2,3,6,7) awaited_upd [of "rt_pc s" p k pc] by (simp add: stored_answers_def)
  then show ?thesis using assms by (auto simp: newest_inv_def)
qed

lemma newest_inv_get:
  assumes "newest_inv s" and "ti_cacheGet now prin (rt_plugin s) = ((tid, neg, found), ti')" and "rt_pc s p = RIdle"
    and "\<And>k n res. pc \<noteq> RAnswered k n res"
  shows "newest_inv (rt_goto p pc (s\<lparr>rt_plugin := ti'\<rparr>))"
proof -
  note inv = newest_invD(1) [OF assms(1)]
  note get = cacheGet_step [OF assms(2)]
  show ?thesis
    using assms(3,4) dir_cache.step_inv [OF inv, of "OpGet now prin"] dir_cache.step_entry [OF inv, of "OpGet now prin"]
    by (intro newest_inv_goto [OF assms(1)]) (auto simp: get(1))
qed

lemma answer_newest:
  assumes "newest_inv s" and "flight_inv s" and "rt_pc s p = RLeading prin n"
  shows "newest_inv (rt_goto p (RAnswered prin n res) (s\<lparr>rt_said := rt_said s @ [(prin, res)]\<rparr>))" (is "newest_inv ?s")
proof -
  have alone: "rt_pc s q \<noteq> RAnswered prin m r" for q m r
    using one_leader [OF assms(2), of p prin n q m] assms(3) by auto
  have "stored_answers k ?s = stored_answers k s" for k
  proof (cases "k = prin \<and> kept res")
    case True
    then have "\<not> awaited k (rt_pc s)" and "awaited k (rt_pc ?s)" using alone by (auto simp: awaited_def)
    then show ?thesis using True by (simp add: stored_answers_def)
  next
    case False
    have "awaited k ((rt_pc s)(p := RAnswered prin n res)) = awaited k (rt_pc s)"
      by (rule awaited_upd) (use assms(3) False in auto)
    then show ?thesis using False by (auto simp: stored_answers_def)
  qed
  then show ?thesis using assms(1) alone by (auto simp: newest_inv_def)
qed

lemma ti_put_abs_same: "ti_inv ti \<Longrightarrow> map_of (ti_abs (ti_put t k v ti)) k = Some (v, t)"
  by (simp add: ti_put_refines spec_set_def)

lemma store_newest:
  assumes "newest_inv s" and "flight_inv s" and "rt_pc s p = RAnswered prin n res"
  shows "newest_inv (rt_goto p (RStored prin n res) (s\<lparr>rt_plugin := store_answer now prin res (rt_plugin s)\<rparr>))"
    (is "newest_inv ?s")
proof -
  note inv = newest_invD(1) [OF assms(1)]
  let ?ti = "store_answer now prin res (rt_plugin s)"
  have ti: "ti_inv ?ti" unfolding store_answer_step by (rule dir_cache.run_inv [OF inv])
  show ?thesis
  proof (cases "kept res")
    case False
    then have "?ti = rt_plugin s" by (auto simp: store_answer_def kept_def split: sum.splits lookup_err.split)
    then show ?thesis
      using False assms(3) inv by (intro newest_inv_goto [OF assms(1)]) auto
  next
    case True
    then obtain v t where v: "?ti = ti_put t prin v (rt_plugin s)" "cached_answer v = res"
      by (auto simp: store_answer_def kept_def ti_cacheSet_put cached_answer_def split: sum.splits)
    have alone: "rt_pc s q = RAnswered prin m r \<Longrightarrow> q = p" for q m r
      using one_leader [OF assms(2), of q prin m p n] assms(3) by auto
    then have "\<not> awaited prin (rt_pc ?s)" by (auto simp: awaited_def)
    then have mine: "stored_answers prin ?s = kept_answers prin (rt_said s)" by (simp add: stored_answers_def)
    have other: "stored_answers k ?s = stored_answers k s" if "k \<noteq> prin" for k
    proof -
      have "awaited k ((rt_pc s)(p := RStored prin n res)) = awaited k (rt_pc s)"
        by (rule awaited_upd) (use that assms(3) in auto)
      then show ?thesis by (simp add: stored_answers_def)
    qed
    have "stored_answers k ?s \<noteq> [] \<and> last (stored_answers k ?s) = cached_answer e"
      if e: "map_of (ti_abs ?ti) k = Some (e, t')" for k e t'
    proof (cases "k = prin")
      case True
      then have "e = v" using e ti_put_abs_same [OF inv, of t prin v] v(1) by simp
      then show ?thesis using True mine assms(1,3) v(2) \<open>kept res\<close> by (auto simp: newest_inv_def)
    next
      case False
      have "map_of (ti_abs (dir_cache.step (OpSet t prin v) (rt_plugin s))) k = Some (e, t')" using e v(1) by simp
      then have "map_of (ti_abs (rt_plugin s)) k = Some (e, t')"
        using dir_cache.step_entry [OF inv] False by blast
      then show ?thesis using other [OF False] newest_invD(2) [OF assms(1)] by simp
    qed
    then show ?thesis using ti assms(1) by (simp add: newest_inv_def)
  qed
qed

lemma newest_inv_step:
  assumes "resolve_step lib sf p s s'" and "flight_inv s" and "newest_inv s"
  shows "newest_inv s'"
  using assms
proof (induction rule: resolve_step.induct)
  case (hit s now prin tid neg ti')
  then show ?case by (intro newest_inv_get) simp_all
next
  case (miss s now prin tid neg ti')
  then show ?case by (intro newest_inv_get) simp_all
next
  case (answer s prin n inp res)
  then show ?case by (intro answer_newest)
next
  case (store s prin n res now)
  then show ?case by (intro store_newest)
qed (frule newest_invD(1), erule newest_inv_goto; simp)+

lemma newest_inv_reach:
  assumes "sf_documented sf" and "ti_inv ti" and "ti_abs ti = []" and "resolve_reach lib sf ti s"
  shows "newest_inv s"
  using assms(4)
proof (induction rule: resolve_reach.induct)
  case start
  show ?case using assms(2,3) by (simp add: newest_inv_def resolve_start_def)
next
  case (step s p s')
  then show ?case using newest_inv_step flight_inv_reach [OF assms(1)] by blast
qed


section \<open>Every lookup ends\<close>

text \<open>How many steps a goroutine has left at most, and the principal that it asks for.\<close>

fun lookup_rank :: "resolve_pc \<Rightarrow> nat" where
  "lookup_rank (RMissed k) = 4"
| "lookup_rank (RLeading k n) = 3"
| "lookup_rank (RAnswered k n res) = 2"
| "lookup_rank (RStored k n res) = 1"
| "lookup_rank (RWaiting k n) = 1"
| "lookup_rank _ = 0"

fun asks_for :: "resolve_pc \<Rightarrow> string option" where
  "asks_for (RMissed k) = Some k"
| "asks_for (RLeading k n) = Some k"
| "asks_for (RAnswered k n res) = Some k"
| "asks_for (RStored k n res) = Some k"
| "asks_for (RWaiting k n) = Some k"
| "asks_for _ = None"

text \<open>A step of a lookup that has begun and has not returned.\<close>

definition lookup_step ::
    "go_lib \<Rightarrow> (string \<Rightarrow> sf_call list \<Rightarrow> nat option) \<Rightarrow> resolve_threads \<Rightarrow> resolve_threads \<Rightarrow> bool" where
  "lookup_step lib sf s s' \<longleftrightarrow> (\<exists>p. asks_for (rt_pc s p) \<noteq> None \<and> resolve_step lib sf p s s')"

lemma lookup_stepI: "asks_for (rt_pc s p) \<noteq> None \<Longrightarrow> resolve_step lib sf p s s' \<Longrightarrow> lookup_step lib sf s s'"
  by (auto simp: lookup_step_def)

definition asking :: "resolve_threads \<Rightarrow> nat set" where
  "asking s = {p. asks_for (rt_pc s p) \<noteq> None}"

lemma lookup_rank_le: "lookup_rank pc \<le> 4"
  by (cases pc) simp_all

lemma step_others: "resolve_step lib sf p s s' \<Longrightarrow> q \<noteq> p \<Longrightarrow> rt_pc s' q = rt_pc s q"
  by (induction rule: resolve_step.induct) simp_all

text \<open>A step of a lookup brings it closer to its end, where it returns for the principal it asked for.\<close>

lemma lookup_step_own:
  assumes "resolve_step lib sf p s s'" and "asks_for (rt_pc s p) = Some k"
  shows "lookup_rank (rt_pc s' p) < lookup_rank (rt_pc s p)"
    and "asks_for (rt_pc s' p) = Some k \<or> (\<exists>res. rt_pc s' p = RReturned k res)"
  using assms by (induction rule: resolve_step.induct) simp_all

lemma finite_asking: "resolve_reach lib sf ti s \<Longrightarrow> finite (asking s)"
proof (induction rule: resolve_reach.induct)
  case start
  show ?case by (simp add: asking_def resolve_start_def)
next
  case (step s p s')
  have "asking s' \<subseteq> insert p (asking s)" using step_others [OF step(2)] by (fastforce simp: asking_def)
  with step.IH show ?case by (simp add: finite_subset)
qed

lemma lookup_steps_asking:
  assumes "(lookup_step lib sf ^^ m) s s'" and "finite A" and "\<forall>q. q \<notin> A \<longrightarrow> asks_for (rt_pc s q) = None"
  shows "m + (\<Sum>q\<in>A. lookup_rank (rt_pc s' q)) \<le> (\<Sum>q\<in>A. lookup_rank (rt_pc s q)) \<and>
    (\<forall>q k. asks_for (rt_pc s q) = Some k \<longrightarrow>
       asks_for (rt_pc s' q) = Some k \<or> (\<exists>res. rt_pc s' q = RReturned k res)) \<and>
    (\<forall>q. q \<notin> A \<longrightarrow> asks_for (rt_pc s' q) = None)"
  using assms(1)
proof (induction m arbitrary: s')
  case 0
  then show ?case using assms(3) by simp
next
  case (Suc m)
  then obtain u where u: "(lookup_step lib sf ^^ m) s u" "lookup_step lib sf u s'" by (meson relpowp_Suc_E)
  note IH = Suc.IH [OF u(1)]
  from u(2) obtain p k where p: "asks_for (rt_pc u p) = Some k" "resolve_step lib sf p u s'"
    by (auto simp: lookup_step_def)
  note own = lookup_step_own [OF p(2,1)] and others = step_others [OF p(2)]
  have "p \<in> A" using IH p(1) by force
  have "lookup_rank (rt_pc s' q) \<le> lookup_rank (rt_pc u q)" for q
    using own(1) others [of q] by (cases "q = p") simp_all
  with \<open>p \<in> A\<close> have "(\<Sum>q\<in>A. lookup_rank (rt_pc s' q)) < (\<Sum>q\<in>A. lookup_rank (rt_pc u q))"
    using own(1) by (intro sum_strict_mono_ex1 [OF assms(2)]) blast+
  moreover have "asks_for (rt_pc s' q) = Some k' \<or> (\<exists>res. rt_pc s' q = RReturned k' res)"
    if "asks_for (rt_pc s q) = Some k'" for q k'
  proof -
    have "asks_for (rt_pc u q) = Some k' \<or> (\<exists>res. rt_pc u q = RReturned k' res)" using IH that by blast
    then show ?thesis using own(2) others [of q] p(1) by (cases "q = p") auto
  qed
  moreover have "asks_for (rt_pc s' q) = None" if "q \<notin> A" for q
    using IH that others [of q] \<open>p \<in> A\<close> by (cases "q = p") auto
  ultimately show ?case using IH by auto
qed

lemma lookup_step_exists:
  assumes "sf_documented sf" and "flight_inv s" and "asks_for (rt_pc s p) \<noteq> None"
  shows "\<exists>s'. lookup_step lib sf s s'"
proof -
  have run: "\<exists>s'. resolve_step lib sf q s s'" if "leads (rt_pc s q) \<noteq> None" for q
  proof (cases "rt_pc s q")
    case (RLeading k n)
    from answer [OF RLeading refl] show ?thesis by blast
  next
    case (RAnswered k n res)
    from store [OF RAnswered] show ?thesis by blast
  next
    case (RStored k n res)
    from complete [OF RStored] show ?thesis by blast
  qed (use that in simp_all)
  have begun: "\<exists>s'. lookup_step lib sf s s'" if "\<exists>s'. resolve_step lib sf p s s'"
    using that assms(3) unfolding lookup_step_def by blast
  have leader: "asks_for pc \<noteq> None" if "leads pc \<noteq> None" for pc using that by (cases pc) simp_all
  show ?thesis
  proof (cases "rt_pc s p")
    case (RMissed k)
    show ?thesis
      by (rule begun, cases "sf k (rt_calls s)") (use lead [OF RMissed] join [OF RMissed] in blast)+
  next
    case (RWaiting k n)
    with assms(2) have n: "n < length (rt_calls s)" "fst (rt_calls s ! n) = k" by (auto simp: flight_inv_def)
    show ?thesis
    proof (cases "snd (rt_calls s ! n)")
      case None
      then have "in_flight k (rt_calls s) n" using n by (auto simp: in_flight_def prod_eq_iff)
      then obtain q where "leads (rt_pc s q) = Some (k, n)"
        using assms(2) calls_invD(2) unfolding flight_inv_def by blast
      then show ?thesis using run leader unfolding lookup_step_def by (metis option.distinct(1))
    next
      case (Some res)
      then have "rt_calls s ! n = (k, Some res)" using n(2) by (simp add: prod_eq_iff)
      from wake [OF RWaiting n(1) this] show ?thesis using begun by blast
    qed
  qed (use assms(3) begun run [of p] in simp_all)
qed


section \<open>What any interleaving guarantees\<close>

text \<open>C9: under any interleaving the tenant plugin answers for a principal only what the directory
  answered for this very principal, whether the result came from the cache, from the goroutine's own
  lookup or from one that it shared, and its cache stays a cache of its configured size.\<close>

theorem resolve_threads_answers:
  assumes "ti_Init lib env cfg ti0 = Inr ti" and "resolve_reach lib sf ti s"
  shows "(\<forall>p k res. rt_pc s p = RReturned k res \<longrightarrow>
      (k, res) \<in> set (rt_said s) \<and> (\<exists>inp. doHTTPLookup lib inp k ti = res)) \<and>
    ti_inv (rt_plugin s) \<and> int (length (ti_abs (rt_plugin s))) \<le> ti_maxSize ti \<and> ti_conf (rt_plugin s) = ti_conf ti"
proof -
  note init = ti_Init_Inr [OF assms(1)]
  note inv = answers_inv_reach [OF init(2,3,4) assms(2)]
  have "(k, res) \<in> set (rt_said s)" if "rt_pc s p = RReturned k res" for p k res
    using inv that carried_simps(7) unfolding answers_inv_def by metis
  moreover have "\<exists>inp. doHTTPLookup lib inp k ti = res" if "(k, res) \<in> set (rt_said s)" for k res
    using inv that unfolding answers_inv_def by fast
  ultimately show ?thesis using inv unfolding answers_inv_def by blast
qed

text \<open>C34: single flight orders the stores. At most one lookup per principal is in flight, so the
  answers for a principal reach the cache in the order in which the directory gave them: unless the newest
  of them is on its way to the cache, an entry is the newest answer, never an older one.\<close>

theorem single_flight_newest:
  assumes "ti_Init lib env cfg ti0 = Inr ti" and "sf_documented sf" and "resolve_reach lib sf ti s"
  shows "(\<forall>p q k m n. leads (rt_pc s p) = Some (k, m) \<and> leads (rt_pc s q) = Some (k, n) \<longrightarrow> p = q) \<and>
    (\<forall>k e t. \<not> awaited k (rt_pc s) \<and> map_of (ti_abs (rt_plugin s)) k = Some (e, t) \<longrightarrow>
       kept_answers k (rt_said s) \<noteq> [] \<and> cached_answer e = last (kept_answers k (rt_said s)))"
proof -
  note init = ti_Init_Inr [OF assms(1)]
  note flight = flight_inv_reach [OF assms(2,3)] and newest = newest_inv_reach [OF assms(2) init(2,3) assms(3)]
  have "kept_answers k (rt_said s) \<noteq> [] \<and> cached_answer e = last (kept_answers k (rt_said s))"
    if "\<not> awaited k (rt_pc s)" and "map_of (ti_abs (rt_plugin s)) k = Some (e, t)" for k e t
    using newest_invD(2) [OF newest that(2)] that(1) by (simp add: stored_answers_def)
  with one_leader [OF flight] show ?thesis by blast
qed

text \<open>C35: every lookup ends. From any state, with no new requests, at most four steps per lookup are possible,
  and as long as one of them has not returned some step is possible, so that no request waits for ever for
  a call of another one; in the end each returned, for the principal it asked for.\<close>

theorem resolve_terminates:
  assumes "sf_documented sf" and "resolve_reach lib sf ti s" and "(lookup_step lib sf ^^ m) s s'"
  shows "m \<le> 4 * card (asking s) \<and>
    ((\<exists>s''. lookup_step lib sf s' s'') \<or>
     (\<forall>p k. asks_for (rt_pc s p) = Some k \<longrightarrow> (\<exists>res. rt_pc s' p = RReturned k res)))"
proof -
  have fin: "finite (asking s)" using assms(2) by (rule finite_asking)
  have "\<forall>q. q \<notin> asking s \<longrightarrow> asks_for (rt_pc s q) = None" by (simp add: asking_def)
  note run = lookup_steps_asking [OF assms(3) fin this]
  have "(\<Sum>q\<in>asking s. lookup_rank (rt_pc s q)) \<le> 4 * card (asking s)"
    using sum_bounded_above [of "asking s" "\<lambda>q. lookup_rank (rt_pc s q)" 4] lookup_rank_le by simp
  moreover have "resolve_reach lib sf ti u" if "(lookup_step lib sf ^^ i) s u" for i u
    using that
  proof (induction i arbitrary: u)
    case 0
    then show ?case using assms(2) by simp
  next
    case (Suc i)
    then show ?case unfolding lookup_step_def using resolve_reach.step by fastforce
  qed
  then have "flight_inv s'" using flight_inv_reach [OF assms(1)] assms(3) by blast
  then have "(\<exists>s''. lookup_step lib sf s' s'') \<or> (\<forall>p. asks_for (rt_pc s' p) = None)"
    using lookup_step_exists [OF assms(1)] by blast
  ultimately show ?thesis using run by fastforce
qed

end
