(* ===== verification/TenantThreadExamples.thy ===== *)
theory TenantThreadExamples
  imports TenantThreads TenantExamples
begin

text \<open>A run in which two goroutines miss the same principal and share one lookup.\<close>

section \<open>An instance of \<open>singleflight\<close>\<close>

definition sf_find :: "string \<Rightarrow> sf_call list \<Rightarrow> nat option" where
  "sf_find k calls = find (\<lambda>n. calls ! n = (k, None)) [0..<length calls]"

lemma sf_find_documented: "sf_documented sf_find"
  by (auto simp: sf_documented_def sf_find_def in_flight_def find_Some_iff find_None_iff split: option.split)

section \<open>The run\<close>

lemma two_steps: "R a b \<Longrightarrow> R b c \<Longrightarrow> (R ^^ 2) a c"
  by (auto simp: numeral_2_eq_2)

lemma four_steps: "R a b \<Longrightarrow> R b c \<Longrightarrow> R c d \<Longrightarrow> R d e \<Longrightarrow> (R ^^ 4) a e"
  using relpowp_trans [OF two_steps two_steps] by simp

abbreviation ts_said :: lookup_result where "ts_said \<equiv> Inr ''acme''"

definition ts_missed :: resolve_threads where
  "ts_missed = \<lparr>rt_plugin = tex_ti, rt_calls = [], rt_pc = (\<lambda>_. RIdle)(0 := RMissed ''u1'', 1 := RMissed ''u1''), rt_said = []\<rparr>"

definition ts_joined :: resolve_threads where
  "ts_joined = \<lparr>rt_plugin = tex_ti, rt_calls = [(''u1'', None)],
     rt_pc = (\<lambda>_. RIdle)(0 := RLeading ''u1'' 0, 1 := RWaiting ''u1'' 0), rt_said = []\<rparr>"

definition ts_done :: resolve_threads where
  "ts_done = \<lparr>rt_plugin = store_answer 6 ''u1'' ts_said tex_ti, rt_calls = [(''u1'', Some ts_said)],
     rt_pc = (\<lambda>_. RIdle)(0 := RReturned ''u1'' ts_said, 1 := RReturned ''u1'' ts_said), rt_said = [(''u1'', ts_said)]\<rparr>"

lemma ts_reach_missed: "resolve_reach tex_go sf_find tex_ti ts_missed"
proof -
  let ?s0 = "resolve_start tex_ti"
  let ?s1 = "rt_goto 0 (RMissed ''u1'') (?s0\<lparr>rt_plugin := tex_ti\<rparr>)"
  let ?s2 = "rt_goto 1 (RMissed ''u1'') (?s1\<lparr>rt_plugin := tex_ti\<rparr>)"
  have "resolve_step tex_go sf_find 0 ?s0 ?s1"
    by (rule miss [where now = 5 and tid = "[]" and neg = False]) (simp_all add: resolve_start_def tex_miss)
  moreover have "resolve_step tex_go sf_find 1 ?s1 ?s2"
    by (rule miss [where now = 5 and tid = "[]" and neg = False]) (simp_all add: resolve_start_def tex_miss)
  ultimately have "resolve_reach tex_go sf_find tex_ti ?s2" by (meson resolve_reach.intros)
  then show ?thesis by (simp add: ts_missed_def resolve_start_def rt_goto_def)
qed

lemma ts_join_steps: "(lookup_step tex_go sf_find ^^ 2) ts_missed ts_joined"
proof -
  let ?s1 = "rt_goto 0 (RLeading ''u1'' (length (rt_calls ts_missed))) (ts_missed\<lparr>rt_calls := rt_calls ts_missed @ [(''u1'', None)]\<rparr>)"
  have "lookup_step tex_go sf_find ts_missed ?s1"
    by (rule lookup_stepI [of _ 0], simp add: ts_missed_def, rule lead) (simp_all add: ts_missed_def sf_find_def)
  moreover have "lookup_step tex_go sf_find ?s1 (rt_goto 1 (RWaiting ''u1'' 0) ?s1)"
    by (rule lookup_stepI [of _ 1], simp add: ts_missed_def, rule join) (simp_all add: ts_missed_def sf_find_def)
  moreover have "rt_goto 1 (RWaiting ''u1'' 0) ?s1 = ts_joined"
    by (simp add: ts_missed_def ts_joined_def rt_goto_def fun_eq_iff)
  ultimately show ?thesis using two_steps by metis
qed

lemma ts_done_steps: "(lookup_step tex_go sf_find ^^ 4) ts_joined ts_done"
proof -
  let ?inp = "tex_inputs (DirStatus 200 (Some ''a''))"
  let ?s1 = "rt_goto 0 (RAnswered ''u1'' 0 ts_said) (ts_joined\<lparr>rt_said := rt_said ts_joined @ [(''u1'', ts_said)]\<rparr>)"
  let ?s2 = "rt_goto 0 (RStored ''u1'' 0 ts_said) (?s1\<lparr>rt_plugin := store_answer 6 ''u1'' ts_said (rt_plugin ?s1)\<rparr>)"
  let ?s3 = "rt_goto 0 (RReturned ''u1'' ts_said) (?s2\<lparr>rt_calls := (rt_calls ?s2)[0 := (''u1'', Some ts_said)]\<rparr>)"
  have 1: "lookup_step tex_go sf_find ts_joined ?s1"
    by (rule lookup_stepI [of _ 0], simp add: ts_joined_def, rule answer [of _ _ _ _ _ ?inp]) (simp_all add: ts_joined_def tex_asked)
  have 2: "lookup_step tex_go sf_find ?s1 ?s2" by (rule lookup_stepI [of _ 0], simp, rule store) simp
  have 3: "lookup_step tex_go sf_find ?s2 ?s3" by (rule lookup_stepI [of _ 0], simp, rule complete) simp
  have 4: "lookup_step tex_go sf_find ?s3 (rt_goto 1 (RReturned ''u1'' ts_said) ?s3)"
    by (rule lookup_stepI [of _ 1], simp add: ts_joined_def, rule wake [where n = 0]) (simp_all add: ts_joined_def)
  have "rt_goto 1 (RReturned ''u1'' ts_said) ?s3 = ts_done"
    by (simp add: ts_joined_def ts_done_def rt_goto_def fun_eq_iff)
  with four_steps [of "lookup_step tex_go sf_find", OF 1 2 3 4] show ?thesis by (simp only:)
qed

lemma ts_reach_done: "resolve_reach tex_go sf_find tex_ti ts_done"
proof -
  have "resolve_reach tex_go sf_find tex_ti u" if "(lookup_step tex_go sf_find ^^ i) s u" "resolve_reach tex_go sf_find tex_ti s" for i s u
    using that
  proof (induction i arbitrary: u)
    case (Suc i)
    then show ?case unfolding lookup_step_def using resolve_reach.step by fastforce
  qed simp
  then show ?thesis using ts_reach_missed ts_join_steps ts_done_steps by blast
qed

section \<open>Witnesses\<close>

lemma resolve_threads_answers_witness:
  "rt_pc ts_done 1 = RReturned ''u1'' ts_said \<and> (\<exists>inp. doHTTPLookup tex_go inp ''u1'' tex_ti = ts_said) \<and>
   int (length (ti_abs (rt_plugin ts_done))) \<le> 2"
proof -
  have "rt_pc ts_done 1 = RReturned ''u1'' ts_said" and "ti_maxSize tex_ti = 2"
    by (simp_all add: ts_done_def tex_ti_def)
  with resolve_threads_answers [OF tex_init ts_reach_done] show ?thesis by metis
qed

lemma single_flight_newest_witness:
  "\<exists>e t. map_of (ti_abs (rt_plugin ts_done)) ''u1'' = Some (e, t) \<and> cached_answer e = last [ts_said]"
proof -
  have "ti_inv tex_ti" using ti_Init_Inr(2) [OF tex_init] .
  then have e: "map_of (ti_abs (rt_plugin ts_done)) ''u1'' = Some ((''acme'', False), 6 + ti_cacheTTL tex_ti)"
    by (simp add: ts_done_def store_answer_def ti_cacheSet_put ti_put_abs_same)
  have "\<not> awaited ''u1'' (rt_pc ts_done)" by (auto simp: awaited_def ts_done_def split: if_splits)
  with single_flight_newest [OF tex_init sf_find_documented ts_reach_done] e
  have "cached_answer (''acme'', False) = last (kept_answers ''u1'' (rt_said ts_done))" by blast
  then show ?thesis using e by (simp add: ts_done_def kept_answers_def kept_def)
qed

lemma resolve_terminates_witness: "(2 :: nat) \<le> 4 * card (asking ts_missed)"
  using resolve_terminates [OF sf_find_documented ts_reach_missed ts_join_steps] by blast

end
