(* ===== verification/LicenseThreads.thy ===== *)
theory LicenseThreads
  imports LicenseCheck
begin

text \<open>
  The handler of \<open>internal/plugins/licensecheck\<close> under concurrent requests. The lock covers one cache
  operation at a time, not the verification between them, so goroutines interleave there:
  \<open>license_step\<close> has one constructor for each section. \<open>lt_now\<close> is the clock that all of them read,
  \<open>lt_said\<close> the verdicts of the license server with their times, a ghost.
\<close>

section \<open>Steps\<close>

datatype license_pc =
    LIdle
  | LMissed http_request writer
  | LVerified http_request writer bool string
  | LReturned http_request verdict int

record license_threads =
  lt_plugin :: license_check
  lt_now :: int
  lt_pc :: "nat \<Rightarrow> license_pc"
  lt_said :: "(string \<times> bool \<times> int) list"

definition license_start :: "license_check \<Rightarrow> int \<Rightarrow> license_threads" where
  "license_start lc now = \<lparr>lt_plugin = lc, lt_now = now, lt_pc = (\<lambda>_. LIdle), lt_said = []\<rparr>"

definition lt_goto :: "nat \<Rightarrow> license_pc \<Rightarrow> license_threads \<Rightarrow> license_threads" where
  "lt_goto p pc s = s\<lparr>lt_pc := (lt_pc s)(p := pc)\<rparr>"

definition license_verdict :: "string \<Rightarrow> string \<Rightarrow> http_request \<Rightarrow> writer \<Rightarrow> bool \<Rightarrow> verdict" where
  "license_verdict msg dep r w valid = (if valid then Next r w else Respond (WriteError w 403 (lc_forbidden r msg dep)))"

definition lc_token :: "http_request \<Rightarrow> license_threads \<Rightarrow> string" where
  "lc_token r s = req_header r (lc_header (lt_plugin s))"

definition remember_verdict :: "int \<Rightarrow> string \<Rightarrow> bool \<Rightarrow> string \<Rightarrow> license_check \<Rightarrow> license_check" where
  "remember_verdict now token valid dep lc = (if valid \<or> dep = '''' then lc_cacheSet now token valid lc else lc)"

inductive license_step :: "go_lib \<Rightarrow> nat \<Rightarrow> license_threads \<Rightarrow> license_threads \<Rightarrow> bool" for lib p where
  tick: "0 \<le> d \<Longrightarrow> license_step lib p s (s\<lparr>lt_now := lt_now s + d\<rparr>)"
| hit: "lt_pc s p = LIdle \<Longrightarrow> lc_cacheGet (lt_now s) (lc_token r s) (lt_plugin s) = ((valid, True), lc') \<Longrightarrow>
     license_step lib p s
       (lt_goto p (LReturned r (license_verdict ''license token is not valid'' '''' r w valid) (lt_now s)) (s\<lparr>lt_plugin := lc'\<rparr>))"
| miss: "lt_pc s p = LIdle \<Longrightarrow> lc_cacheGet (lt_now s) (lc_token r s) (lt_plugin s) = ((valid, False), lc') \<Longrightarrow>
     license_step lib p s (lt_goto p (LMissed r w) (s\<lparr>lt_plugin := lc'\<rparr>))"
| verify: "lt_pc s p = LMissed r w \<Longrightarrow> lc_verify lib inp (lt_plugin s) (lc_token r s) = (valid, dep) \<Longrightarrow>
     license_step lib p s
       (lt_goto p (LVerified r w valid dep)
         (s\<lparr>lt_said := lt_said s @ (if valid \<or> dep = '''' then [(lc_token r s, valid, lt_now s)] else [])\<rparr>))"
| store: "lt_pc s p = LVerified r w valid dep \<Longrightarrow>
     license_step lib p s
       (lt_goto p (LReturned r (license_verdict ''license verification failed'' dep r w valid) (lt_now s))
         (s\<lparr>lt_plugin := remember_verdict (lt_now s) (lc_token r s) valid dep (lt_plugin s)\<rparr>))"
| again: "lt_pc s p = LReturned r v t \<Longrightarrow> license_step lib p s (lt_goto p LIdle s)"

inductive license_reach :: "go_lib \<Rightarrow> license_check \<Rightarrow> int \<Rightarrow> license_threads \<Rightarrow> bool" for lib lc now where
  start: "license_reach lib lc now (license_start lc now)"
| step: "license_reach lib lc now s \<Longrightarrow> license_step lib p s s' \<Longrightarrow> license_reach lib lc now s'"

lemma lt_goto_simps [simp]:
  "lt_pc (lt_goto p pc s) = (lt_pc s)(p := pc)" "lt_plugin (lt_goto p pc s) = lt_plugin s"
  "lt_now (lt_goto p pc s) = lt_now s" "lt_said (lt_goto p pc s) = lt_said s"
  by (simp_all add: lt_goto_def)

section \<open>A request that runs alone\<close>

text \<open>Without others in between, and with the clock at the readings of the request, the steps are
  \<open>lc_handle\<close>.\<close>

lemma lc_handle_alt:
  assumes "lc_cacheGet (lci_lookup inp) (req_header r (lc_header lc)) lc = ((valid, found), lc1)"
    and "lc_verify lib inp lc1 (req_header r (lc_header lc)) = (valid', dep)"
  shows "lc_handle lib inp r w lc =
    (if found then (license_verdict ''license token is not valid'' '''' r w valid, lc1)
     else (license_verdict ''license verification failed'' dep r w valid',
           remember_verdict (lci_store inp) (req_header r (lc_header lc)) valid' dep lc1))"
  using assms by (simp add: lc_handle_def license_verdict_def remember_verdict_def)

lemma license_steps:
  assumes "lt_pc s p = LIdle" and "lt_now s = lci_lookup inp" and "lci_lookup inp \<le> lci_store inp"
  shows "\<exists>s' t. (license_step lib p)\<^sup>*\<^sup>* s s' \<and>
    lt_pc s' p = LReturned r (fst (lc_handle lib inp r w (lt_plugin s))) t \<and>
    lt_plugin s' = snd (lc_handle lib inp r w (lt_plugin s))"
proof -
  let ?tok = "req_header r (lc_header (lt_plugin s))"
  obtain valid found lc1 where g: "lc_cacheGet (lci_lookup inp) ?tok (lt_plugin s) = ((valid, found), lc1)"
    by (metis prod.exhaust)
  obtain valid' dep where v: "lc_verify lib inp lc1 ?tok = (valid', dep)" by (metis prod.exhaust)
  have hdr: "lc_header lc1 = lc_header (lt_plugin s)"
    using lc_cacheGet_frame(3) [of "lci_lookup inp" ?tok "lt_plugin s"] g by simp
  show ?thesis
  proof (cases found)
    case True
    let ?s1 = "lt_goto p (LReturned r (license_verdict ''license token is not valid'' '''' r w valid) (lt_now s)) (s\<lparr>lt_plugin := lc1\<rparr>)"
    have "license_step lib p s ?s1" by (rule hit [OF assms(1)]) (use g True assms(2) in \<open>simp add: lc_token_def\<close>)
    then show ?thesis
      by (intro exI [of _ ?s1] exI [of _ "lt_now s"]) (simp add: lc_handle_alt [OF g v] True r_into_rtranclp)
  next
    case False
    let ?s1 = "lt_goto p (LMissed r w) (s\<lparr>lt_plugin := lc1\<rparr>)"
    let ?s2 = "lt_goto p (LVerified r w valid' dep)
      (?s1\<lparr>lt_said := lt_said ?s1 @ (if valid' \<or> dep = [] then [(lc_token r ?s1, valid', lt_now ?s1)] else [])\<rparr>)"
    let ?s3 = "?s2\<lparr>lt_now := lt_now ?s2 + (lci_store inp - lci_lookup inp)\<rparr>"
    let ?s4 = "lt_goto p (LReturned r (license_verdict ''license verification failed'' dep r w valid') (lt_now ?s3))
      (?s3\<lparr>lt_plugin := remember_verdict (lt_now ?s3) (lc_token r ?s3) valid' dep (lt_plugin ?s3)\<rparr>)"
    have 1: "license_step lib p s ?s1"
      by (rule miss [OF assms(1)]) (use g False assms(2) in \<open>simp add: lc_token_def\<close>)
    have 2: "license_step lib p ?s1 ?s2"
      by (rule verify [where inp = inp]) (use v hdr in \<open>simp_all add: lc_token_def\<close>)
    have 3: "license_step lib p ?s2 ?s3" by (rule tick) (use assms(3) in simp)
    have 4: "license_step lib p ?s3 ?s4" by (rule store) simp
    from 1 2 3 4 have "(license_step lib p)\<^sup>*\<^sup>* s ?s4"
      by (meson converse_rtranclp_into_rtranclp rtranclp.rtrancl_refl)
    then show ?thesis
      by (intro exI [of _ ?s4] exI [of _ "lci_store inp"])
        (simp add: lc_handle_alt [OF g v] False hdr assms(2) lc_token_def)
  qed
qed


section \<open>What the cache and the goroutines hold\<close>

text \<open>The server gave this verdict on a token at some time, and it was stored no earlier than that.\<close>

definition told :: "(string \<times> bool \<times> int) list \<Rightarrow> string \<Rightarrow> bool \<Rightarrow> int \<Rightarrow> bool" where
  "told said k v stored \<longleftrightarrow> (\<exists>heard \<le> stored. (k, v, heard) \<in> set said)"

fun license_pc_inv :: "license_check \<Rightarrow> (string \<times> bool \<times> int) list \<Rightarrow> int \<Rightarrow> license_pc \<Rightarrow> bool" where
  "license_pc_inv lc said now (LVerified r w valid dep) \<longleftrightarrow>
     (valid \<or> dep = '''' \<longrightarrow> told said (req_header r (lc_header lc)) valid now)"
| "license_pc_inv lc said now (LReturned r v t) \<longleftrightarrow>
     (case v of
        Next r' w' \<Rightarrow> r' = r \<and>
          (\<exists>stored. told said (req_header r (lc_header lc)) True stored \<and> stored \<le> t \<and>
             (t \<le> stored + lc_cacheTTL lc \<or> t = stored))
      | Respond w' \<Rightarrow> True)"
| "license_pc_inv lc said now _ \<longleftrightarrow> True"

definition lc_conf :: "license_check \<Rightarrow> license_check" where
  "lc_conf lc = lc\<lparr>lc_lru := lru_new\<rparr>"

definition license_inv :: "license_check \<Rightarrow> license_threads \<Rightarrow> bool" where
  "license_inv lc s \<longleftrightarrow> lc_inv (lt_plugin s) \<and> lc_conf (lt_plugin s) = lc_conf lc \<and>
     0 < lc_maxSize lc \<and> int (length (lc_abs (lt_plugin s))) \<le> lc_maxSize lc \<and>
     (\<forall>k heard. (k, True, heard) \<in> set (lt_said s) \<longrightarrow> (\<exists>inp. lc_server_accepts inp lc k)) \<and>
     (\<forall>k v t. map_of (lc_abs (lt_plugin s)) k = Some (v, t) \<longrightarrow>
        (\<exists>stored \<le> lt_now s. told (lt_said s) k v stored \<and> t = stored + lc_cacheTTL lc)) \<and>
     (\<forall>p. license_pc_inv lc (lt_said s) (lt_now s) (lt_pc s p))"

lemma told_mono: "told said k v n \<Longrightarrow> n \<le> m \<Longrightarrow> told (said @ xs) k v m"
  by (auto simp: told_def intro: order.trans)

lemma license_pc_inv_mono:
  assumes "license_pc_inv lc said now pc" and "now \<le> now'"
  shows "license_pc_inv lc (said @ xs) now' pc"
proof (cases pc)
  case (LVerified r w valid dep)
  show ?thesis
    using assms(1) told_mono [OF _ assms(2)] unfolding LVerified license_pc_inv.simps by blast
next
  case (LReturned r v t)
  have "told said k True n \<Longrightarrow> told (said @ xs) k True n" for k n using told_mono [OF _ order.refl] .
  then show ?thesis using assms(1) unfolding LReturned license_pc_inv.simps by (cases v) auto
qed simp_all

lemma lc_conf_fields:
  assumes "lc_conf lc' = lc_conf lc"
  shows "lc_header lc' = lc_header lc" "lc_licenseURL lc' = lc_licenseURL lc" "lc_cacheTTL lc' = lc_cacheTTL lc"
    "lc_maxSize lc' = lc_maxSize lc" "lc_request lc' token = lc_request lc token"
    "lc_server_accepts inp lc' token = lc_server_accepts inp lc token"
  using assms by (cases lc; cases lc'; simp add: lc_conf_def lc_request_def lc_server_accepts_def)+

lemma lc_get_conf: "lc_conf (snd (lc_cacheGet now k lc)) = lc_conf lc"
  by (auto simp: lc_cacheGet_def lc_conf_def Let_def split: option.splits)

lemma lc_set_conf: "lc_conf (lc_cacheSet now k v lc) = lc_conf lc"
  by (auto simp: lc_cacheSet_def lc_conf_def Let_def split: option.splits prod.splits)

lemma license_invD:
  assumes "license_inv lc s"
  shows "lc_inv (lt_plugin s)" and "lc_conf (lt_plugin s) = lc_conf lc" and "license_pc_inv lc (lt_said s) (lt_now s) (lt_pc s p)"
    and "map_of (lc_abs (lt_plugin s)) k = Some (v, t) \<Longrightarrow>
      \<exists>stored \<le> lt_now s. told (lt_said s) k v stored \<and> t = stored + lc_cacheTTL lc"
    and "(k, True, heard) \<in> set (lt_said s) \<Longrightarrow> \<exists>inp. lc_server_accepts inp lc k"
    and "int (length (lc_abs (lt_plugin s))) \<le> lc_maxSize lc"
  using assms unfolding license_inv_def by blast+

lemma license_inv_token: "license_inv lc s \<Longrightarrow> lc_token r s = req_header r (lc_header lc)"
  unfolding lc_token_def by (simp only: lc_conf_fields(1) [OF license_invD(2)])

lemma license_inv_goto:
  assumes "license_inv lc s" and "license_pc_inv lc (lt_said s) (lt_now s) pc"
  shows "license_inv lc (lt_goto p pc s)"
  using assms by (simp add: license_inv_def)

lemma license_inv_plugin:
  assumes "license_inv lc s" and "lc' = fold lic_cache.step ops (lt_plugin s)" and "lc_conf lc' = lc_conf (lt_plugin s)"
    and "\<And>k v t. OpSet t k v \<in> set ops \<Longrightarrow> told (lt_said s) k v (lt_now s) \<and> t = lt_now s + lc_cacheTTL lc"
  shows "license_inv lc (s\<lparr>lt_plugin := lc'\<rparr>)"
proof -
  note inv = license_invD(1) [OF assms(1)]
  have "\<exists>stored \<le> lt_now s. told (lt_said s) k v stored \<and> t = stored + lc_cacheTTL lc"
    if "map_of (lc_abs lc') k = Some (v, t)" for k v t
    using lic_cache.run_entry [OF inv] that license_invD(4) [OF assms(1)] assms(4) unfolding assms(2) by blast
  moreover have "lc_inv lc'" unfolding assms(2) by (rule lic_cache.run_inv [OF inv])
  moreover have "lc_maxSize (lt_plugin s) = lc_maxSize lc" using lc_conf_fields(4) license_invD(2) [OF assms(1)] .
  then have "int (length (lc_abs lc')) \<le> lc_maxSize lc"
    using lic_cache.run_bounded [OF inv, of ops] assms(1) unfolding assms(2) license_inv_def by simp
  ultimately show ?thesis using assms(1,3) by (simp add: license_inv_def)
qed

lemma license_inv_get:
  assumes "license_inv lc s" and "lc_cacheGet now k (lt_plugin s) = (p, lc')"
  shows "license_inv lc (s\<lparr>lt_plugin := lc'\<rparr>)"
  by (rule license_inv_plugin [OF assms(1), of _ "[OpGet now k]"])
    (use lc_get_conf [of now k "lt_plugin s"] snd_lc_lookup [of now k "lt_plugin s"] assms(2) in simp_all)

lemma license_inv_step: "license_step lib p s s' \<Longrightarrow> license_inv lc s \<Longrightarrow> license_inv lc s'"
proof (induction rule: license_step.induct)
  case (tick d s)
  have "license_pc_inv lc (lt_said s) (lt_now s + d) (lt_pc s q)" for q
    using license_pc_inv_mono [OF license_invD(3) [OF tick(2)], of "lt_now s + d" "[]"] tick(1) by simp
  moreover have "\<exists>stored \<le> lt_now s + d. told (lt_said s) k v stored \<and> t = stored + lc_cacheTTL lc"
    if "map_of (lc_abs (lt_plugin s)) k = Some (v, t)" for k v t
    using license_invD(4) [OF tick(2) that] tick(1) by (auto intro: order.trans)
  ultimately show ?case using tick(2) by (simp add: license_inv_def)
next
  case (hit s r valid lc' w)
  have "lc_lookup (lt_now s) (lc_token r s) (lt_plugin s) = (Some valid, lc')" using hit(2) by (simp add: lc_lookup_def)
  from lic_cache.hit_is_live [OF license_invD(1) [OF hit(3)] this]
  obtain t where "map_of (lc_abs (lt_plugin s)) (lc_token r s) = Some (valid, t)" "lt_now s \<le> t" .
  with license_invD(4) [OF hit(3)] obtain stored where "stored \<le> lt_now s"
    "told (lt_said s) (lc_token r s) valid stored" "lt_now s \<le> stored + lc_cacheTTL lc" by blast
  then have "license_pc_inv lc (lt_said s) (lt_now s) (LReturned r (license_verdict m d r w valid) (lt_now s))" for m d
    by (auto simp: license_verdict_def license_inv_token [OF hit(3)])
  then show ?case by (intro license_inv_goto license_inv_get [OF hit(3,2)]) simp
next
  case (miss s r valid lc' w)
  show ?case by (intro license_inv_goto license_inv_get [OF miss(3,2)]) simp
next
  case (verify s r w inp valid dep)
  let ?tok = "req_header r (lc_header lc)"
  let ?xs = "if valid \<or> dep = [] then [(lc_token r s, valid, lt_now s)] else []"
  note tok = license_inv_token [OF verify(3), of r]
  have "\<exists>inp. lc_server_accepts inp lc ?tok" if valid
    using lc_verify_True verify(2) that lc_conf_fields(6) [OF license_invD(2) [OF verify(3)]] unfolding tok by metis
  then have acc: "\<exists>inp. lc_server_accepts inp lc k" if "(k, True, heard) \<in> set (lt_said s @ ?xs)" for k heard
    using that license_invD(5) [OF verify(3)] by (auto simp: tok split: if_split_asm)
  have "license_pc_inv lc (lt_said s @ ?xs) (lt_now s) (lt_pc s q)" for q
    using license_pc_inv_mono [OF license_invD(3) [OF verify(3)]] by simp
  moreover have "\<exists>stored \<le> lt_now s. told (lt_said s @ ?xs) k v stored \<and> t = stored + lc_cacheTTL lc"
    if "map_of (lc_abs (lt_plugin s)) k = Some (v, t)" for k v t
    using license_invD(4) [OF verify(3) that] told_mono by blast
  ultimately have "license_inv lc (s\<lparr>lt_said := lt_said s @ ?xs\<rparr>)"
    using acc verify(3) by (simp only: license_inv_def license_threads.simps) simp
  then show ?case by (rule license_inv_goto) (auto simp: told_def tok)
next
  case (store s r w valid dep)
  let ?tok = "req_header r (lc_header lc)"
  note tok = license_inv_token [OF store(2), of r]
  have told: "valid \<or> dep = [] \<Longrightarrow> told (lt_said s) ?tok valid (lt_now s)"
    using license_invD(3) [OF store(2), of p] store(1) by simp
  let ?ops = "if valid \<or> dep = [] then [OpSet (lt_now s + lc_cacheTTL lc) ?tok valid] else []"
  have ttl: "lc_cacheTTL (lt_plugin s) = lc_cacheTTL lc" using lc_conf_fields(3) license_invD(2) [OF store(2)] .
  have "license_inv lc (s\<lparr>lt_plugin := remember_verdict (lt_now s) (lc_token r s) valid dep (lt_plugin s)\<rparr>)"
    by (rule license_inv_plugin [OF store(2), of _ ?ops])
      (use told in \<open>simp_all add: remember_verdict_def tok lc_store_until_def ttl lc_set_conf split: if_split_asm\<close>)
  then show ?case
    by (rule license_inv_goto) (use told in \<open>auto simp: license_verdict_def\<close>)
next
  case (again s r v t)
  then show ?case by (simp add: license_inv_goto)
qed

lemma license_inv_reach:
  assumes "lc_Init lib' cfg lc0 = Inr lc" and "license_reach lib lc now s"
  shows "license_inv lc s"
  using assms(2)
proof (induction rule: license_reach.induct)
  case start
  show ?case using lc_Init_state [OF assms(1)] by (simp add: license_inv_def license_start_def)
next
  case (step s p s')
  then show ?case using license_inv_step by blast
qed

section \<open>What any interleaving guarantees\<close>

text \<open>C7: the license gate under concurrency. Whatever the interleaving of the requests, one is let through
  only if the license server accepted its own token before, no longer than the TTL after that verdict was
  stored, and it goes on unchanged. The cache stays within \<open>max_cache_size\<close> and its list and map agree.\<close>

theorem license_threads_gate:
  assumes "lc_Init lib' cfg lc0 = Inr lc" and "license_reach lib lc now s"
  shows "(\<forall>p r r' w' t. lt_pc s p = LReturned r (Next r' w') t \<longrightarrow> r' = r \<and>
      (\<exists>heard stored. (req_header r (lc_header lc), True, heard) \<in> set (lt_said s) \<and> heard \<le> stored \<and> stored \<le> t \<and>
         (t \<le> stored + lc_cacheTTL lc \<or> t = stored)) \<and>
      (\<exists>inp. lc_server_accepts inp lc (req_header r (lc_header lc)))) \<and>
    lc_inv (lt_plugin s) \<and> al_distinct (lc_abs (lt_plugin s)) \<and> int (length (lc_abs (lt_plugin s))) \<le> lc_maxSize lc"
proof -
  note inv = license_inv_reach [OF assms]
  have "r' = r \<and> (\<exists>heard stored. (req_header r (lc_header lc), True, heard) \<in> set (lt_said s) \<and>
      heard \<le> stored \<and> stored \<le> t \<and> (t \<le> stored + lc_cacheTTL lc \<or> t = stored))"
    if "lt_pc s p = LReturned r (Next r' w') t" for p r r' w' t
    using license_invD(3) [OF inv, of p] that by (auto simp: told_def)
  with license_invD(1,5,6) [OF inv] lc_inv_distinct show ?thesis by blast
qed


text \<open>Verifications are not ordered: a goroutine that was told yes before the server withdrew the token can store
  its verdict after another one has stored the no, and the token is then let through again from the cache.\<close>

lemma license_late_verdict:
  assumes "lc_Init lib' cfg lc0 = Inr lc" and "lc_verify lib yes lc (req_header r (lc_header lc)) = (True, '''')"
    and "lc_verify lib no lc (req_header r (lc_header lc)) = (False, '''')" and "0 \<le> lc_cacheTTL lc"
  shows "\<exists>s :: license_threads. license_reach lib lc now s \<and>
    map snd (lt_said s) = [(True, now), (False, now)] \<and> (\<exists>w'. lt_pc s 1 = LReturned r (Respond w') now) \<and>
    fst (lc_lookup now (req_header r (lc_header lc)) (lt_plugin s)) = Some True"
proof -
  let ?tok = "req_header r (lc_header lc)" and ?w = "Conn new_conn"
  let ?say = "\<lambda>p v s. lt_goto p (LVerified r ?w v '''') (s\<lparr>lt_said := lt_said s @ [(?tok, v, now)]\<rparr>)"
  let ?reply = "\<lambda>p v s. lt_goto p (LReturned r (license_verdict ''license verification failed'' '''' r ?w v) now)
    (s\<lparr>lt_plugin := lc_cacheSet now ?tok v (lt_plugin s)\<rparr>)"
  let ?s0 = "license_start lc now"
  let ?s2 = "lt_goto 1 (LMissed r ?w) (lt_goto 0 (LMissed r ?w) ?s0)"
  let ?s4 = "?say 1 False (?say 0 True ?s2)"
  let ?s6 = "?reply 0 True (?reply 1 False ?s4)"
  note init = lc_Init_state [OF assms(1)]
  have "lc_lru lc = lru_new"
    using assms(1) unfolding lc_Init_def Let_def by (auto split: if_split_asm)
  then have g: "lc_cacheGet now ?tok lc = ((False, False), lc)" by (simp add: lc_cacheGet_def lru_new_def)
  let ?s1 = "lt_goto 0 (LMissed r ?w) ?s0"
  have 1: "license_step lib 0 ?s0 ?s1"
    using miss [of ?s0 0 r False lc] g by (simp add: license_start_def lc_token_def)
  have 2: "license_step lib 1 ?s1 ?s2"
    using miss [of ?s1 1 r False lc] g by (simp add: license_start_def lc_token_def lt_goto_def)
  have 3: "license_step lib 0 ?s2 (?say 0 True ?s2)"
    using verify [of ?s2 0 r ?w lib yes True "[]"] assms(2) by (simp add: license_start_def lc_token_def)
  have 4: "license_step lib 1 (?say 0 True ?s2) ?s4"
    using verify [of "?say 0 True ?s2" 1 r ?w lib no False "[]"] assms(3) by (simp add: license_start_def lc_token_def)
  have 5: "license_step lib 1 ?s4 (?reply 1 False ?s4)"
    using store [of ?s4 1 r ?w False "[]"] by (simp add: license_start_def lc_token_def remember_verdict_def)
  have 6: "license_step lib 0 (?reply 1 False ?s4) ?s6"
    using store [of "?reply 1 False ?s4" 0 r ?w True "[]"] by (simp add: license_start_def lc_token_def remember_verdict_def)
  from 1 2 3 4 5 6 have "license_reach lib lc now ?s6" by (meson license_reach.intros)
  moreover have "fst (lc_lookup now ?tok (lt_plugin ?s6)) = Some True"
    using lic_cache.get_after_put [OF lc_cacheSet_refines(2) [OF init(1), of now ?tok False], where now = now and t = "now + lc_cacheTTL lc" and k = ?tok and v = True]
      assms(4) by (simp add: license_start_def lc_store_until_def)
  moreover have "map snd (lt_said ?s6) = [(True, now), (False, now)]" by (simp add: license_start_def)
  ultimately show ?thesis
    by - (rule exI [of _ ?s6], simp add: license_verdict_def)
qed


lemma license_threads_gate_witness:
  "\<exists>s t. license_reach ex_go_lib ex_lc 5 s \<and> lt_pc s 0 = LReturned (ex_request no_header) (Next (ex_request no_header) (Conn new_conn)) t \<and>
     (\<exists>heard. ('''', True, heard) \<in> set (lt_said s)) \<and> int (length (lc_abs (lt_plugin s))) \<le> 1"
proof -
  let ?i = "ex_lc_inputs 5 (NetStatus 204)" and ?r = "ex_request no_header" and ?s0 = "license_start ex_lc 5"
  have "fst (lc_handle ex_go_lib ?i ?r (Conn new_conn) ex_lc) = Next ?r (Conn new_conn)"
    by (simp add: lc_handle_def lc_cacheGet_def lc_verify_cases ex_lc_def ex_lc_inputs_def ex_go_lib_def lru_new_def
        has_prefix_def Let_def)
  with license_steps [of ?s0 0 ?i ex_go_lib ?r "Conn new_conn"] obtain s t where
    s: "(license_step ex_go_lib 0)\<^sup>*\<^sup>* ?s0 s" "lt_pc s 0 = LReturned ?r (Next ?r (Conn new_conn)) t"
    by (auto simp: license_start_def ex_lc_inputs_def)
  from s(1) have reach: "license_reach ex_go_lib ex_lc 5 s"
    by (induction rule: rtranclp_induct) (auto intro: license_reach.intros)
  have "req_header ?r (lc_header ex_lc) = ''''" and "lc_maxSize ex_lc = 1"
    by (simp_all add: ex_lc_def ex_request_def req_header_def hdr_get_def no_header_def)
  with license_threads_gate [OF ex_lc_init reach] s(2) reach show ?thesis by metis
qed

end
