(* ===== verification/PluginChain.thy ===== *)
theory PluginChain
  imports Registry TokenSafety LicenseThreads TenantThreads StubPlugins
begin

text \<open>
  The plugins that the gateway binary does not import (\<open>license-check\<close>, \<open>tenant-injector\<close>,
  \<open>prompt-sanitize\<close>, \<open>otel-audit\<close>) as implementations of the interface of
  \<open>plugin/plugin.go\<close>, over a state \<open>plugin_world\<close> that holds the receivers and the inputs of the
  request at hand, and what a chain of them in the documented order lets through.
\<close>

section \<open>Plugins\<close>

record plugin_world =
  pw_tv :: token_validator
  pw_lc :: license_check
  pw_ti :: tenant_injector
  pw_ps :: prompt_sanitize
  pw_oa :: otel_audit
  pw_tvi :: tv_inputs
  pw_lci :: lc_inputs
  pw_tii :: ti_inputs

definition lc_Shutdown :: "ctx \<Rightarrow> 'w \<Rightarrow> string option \<times> 'w" where
  "lc_Shutdown c s = (None, s)"

definition ti_Shutdown :: "ctx \<Rightarrow> 'w \<Rightarrow> string option \<times> 'w" where
  "ti_Shutdown c s = (None, s)"

definition ps_Shutdown :: "ctx \<Rightarrow> 'w \<Rightarrow> string option \<times> 'w" where
  "ps_Shutdown c s = (None, s)"

definition oa_Shutdown :: "ctx \<Rightarrow> 'w \<Rightarrow> string option \<times> 'w" where
  "oa_Shutdown c s = (None, s)"

definition lc_Plugin :: "go_lib \<Rightarrow> plugin_world plugin" where
  "lc_Plugin lib =
     \<lparr>p_Name = ''license-check'',
      p_Init = (\<lambda>cfg s. and_then (lc_Init lib cfg (pw_lc s)) (\<lambda>lc. Inr (s\<lparr>pw_lc := lc\<rparr>))),
      p_Handler = (\<lambda>next_h r w s. middleware_of pw_lc (\<lambda>lc s. s\<lparr>pw_lc := lc\<rparr>) (lc_handle lib (pw_lci s)) next_h r w s),
      p_Shutdown = lc_Shutdown\<rparr>"

definition ti_Plugin :: "go_lib \<Rightarrow> os_env \<Rightarrow> plugin_world plugin" where
  "ti_Plugin lib env =
     \<lparr>p_Name = ''tenant-injector'',
      p_Init = (\<lambda>cfg s. and_then (ti_Init lib env cfg (pw_ti s)) (\<lambda>ti. Inr (s\<lparr>pw_ti := ti\<rparr>))),
      p_Handler = (\<lambda>next_h r w s. middleware_of pw_ti (\<lambda>ti s. s\<lparr>pw_ti := ti\<rparr>) (ti_handle lib (pw_tii s)) next_h r w s),
      p_Shutdown = ti_Shutdown\<rparr>"

definition ps_Plugin :: "plugin_world plugin" where
  "ps_Plugin =
     \<lparr>p_Name = ''prompt-sanitize'',
      p_Init = (\<lambda>cfg s. and_then (ps_Init cfg (pw_ps s)) (\<lambda>ps. Inr (s\<lparr>pw_ps := ps\<rparr>))),
      p_Handler = middleware_of pw_ps (\<lambda>ps s. s\<lparr>pw_ps := ps\<rparr>) ps_handle,
      p_Shutdown = ps_Shutdown\<rparr>"

definition oa_Plugin :: "go_lib \<Rightarrow> plugin_world plugin" where
  "oa_Plugin lib =
     \<lparr>p_Name = ''otel-audit'',
      p_Init = (\<lambda>cfg s. and_then (oa_Init lib cfg (pw_oa s)) (\<lambda>oa. Inr (s\<lparr>pw_oa := oa\<rparr>))),
      p_Handler = middleware_of pw_oa (\<lambda>oa s. s\<lparr>pw_oa := oa\<rparr>) oa_handle,
      p_Shutdown = oa_Shutdown\<rparr>"

text \<open>The token validator on this state.\<close>

definition pw_validator :: "go_lib \<Rightarrow> jwt_lib \<Rightarrow> plugin_world plugin" where
  "pw_validator lib jl =
     \<lparr>p_Name = ''token-validator'',
      p_Init = (\<lambda>cfg s. and_then (tv_Init lib cfg (pw_tv s)) (\<lambda>tv. Inr (s\<lparr>pw_tv := tv\<rparr>))),
      p_Handler = (\<lambda>next_h r w s. middleware_of pw_tv (\<lambda>tv s. s\<lparr>pw_tv := tv\<rparr>) (tv_handle lib jl (pw_tvi s)) next_h r w s),
      p_Shutdown = (\<lambda>c s. (None, s))\<rparr>"

lemma plugin_apply:
  "p_Handler (lc_Plugin lib) h r w s =
     (case lc_handle lib (pw_lci s) r w (pw_lc s) of
        (Respond w', lc) \<Rightarrow> (w', s\<lparr>pw_lc := lc\<rparr>) | (Next r' w', lc) \<Rightarrow> h r' w' (s\<lparr>pw_lc := lc\<rparr>))"
  "p_Handler (ti_Plugin lib env) h r w s =
     (case ti_handle lib (pw_tii s) r w (pw_ti s) of
        (Respond w', ti) \<Rightarrow> (w', s\<lparr>pw_ti := ti\<rparr>) | (Next r' w', ti) \<Rightarrow> h r' w' (s\<lparr>pw_ti := ti\<rparr>))"
  "p_Handler (pw_validator lib jl) h r w s =
     (case tv_handle lib jl (pw_tvi s) r w (pw_tv s) of
        (Respond w', tv) \<Rightarrow> (w', s\<lparr>pw_tv := tv\<rparr>) | (Next r' w', tv) \<Rightarrow> h r' w' (s\<lparr>pw_tv := tv\<rparr>))"
  "p_Handler ps_Plugin h r w s = h r w (s\<lparr>pw_ps := snd (ps_handle r w (pw_ps s))\<rparr>)"
  "p_Handler (oa_Plugin lib) h r w s = h r w (s\<lparr>pw_oa := snd (oa_handle r w (pw_oa s))\<rparr>)"
  by (simp_all add: lc_Plugin_def ti_Plugin_def pw_validator_def ps_Plugin_def oa_Plugin_def middleware_of_def
      ps_handle_def oa_handle_def startSpan_def split: prod.split verdict.split)

section \<open>What the chain lets through\<close>

text \<open>The claims that travel in the context hold nothing that the token does not.\<close>

lemma propagated_claims:
  "\<exists>cs. JWTClaims (v2_context tv mc c) = Some cs \<and> (\<forall>k. get_str cs k \<noteq> '''' \<longrightarrow> get_str mc k = get_str cs k)"
proof (cases "tv_propagateMode tv = ''allowlist''")
  case True
  have "JWTClaims (v2_context tv mc c) = Some (allowed_claims mc (tv_propagateClaims tv) [])"
    using True by (simp add: v2_context_def propagateClaimsToCtx_def ctx_simps)
  moreover have "get_str (allowed_claims mc (tv_propagateClaims tv) []) k \<noteq> '''' \<Longrightarrow>
      get_str mc k = get_str (allowed_claims mc (tv_propagateClaims tv) []) k" for k
    by (auto simp: get_str_def allowed_claims_map split: if_splits)
  ultimately show ?thesis by blast
next
  case False
  then have "JWTClaims (v2_context tv mc c) = Some mc"
    by (simp add: v2_context_def propagateClaimsToCtx_def ctx_simps)
  then show ?thesis by blast
qed

definition default_chain :: "go_lib \<Rightarrow> jwt_lib \<Rightarrow> os_env \<Rightarrow> plugin_world plugin list" where
  "default_chain lib jl env = [pw_validator lib jl, lc_Plugin lib, ti_Plugin lib env, ps_Plugin, oa_Plugin lib]"

lemma default_chain_cases:
  assumes "foldr p_Handler (default_chain lib jl env) h r w s = (w', s')"
  obtains (answered) w1 s1 where "\<And>h'. foldr p_Handler (default_chain lib jl env) h' r w s = (w1, s1)"
  | (passed) r1 w1 tv r2 w2 lc r3 w3 ti ps oa where
      "tv_handle lib jl (pw_tvi s) r w (pw_tv s) = (Next r1 w1, tv)"
      and "lc_handle lib (pw_lci s) r1 w1 (pw_lc s) = (Next r2 w2, lc)"
      and "ti_handle lib (pw_tii s) r2 w2 (pw_ti s) = (Next r3 w3, ti)"
      and "h r3 w3 (s\<lparr>pw_tv := tv, pw_lc := lc, pw_ti := ti, pw_ps := ps, pw_oa := oa\<rparr>) = (w', s')"
proof -
  note ch = default_chain_def foldr.simps comp_apply id_apply plugin_apply
  obtain v1 tv where t: "tv_handle lib jl (pw_tvi s) r w (pw_tv s) = (v1, tv)" by fastforce
  show thesis
  proof (cases v1)
    case (Respond w1)
    then show thesis using t by (intro answered [of w1 "s\<lparr>pw_tv := tv\<rparr>"]) (simp add: ch)
  next
    case n1: (Next r1 w1)
    obtain v2 lc where l: "lc_handle lib (pw_lci s) r1 w1 (pw_lc s) = (v2, lc)" by fastforce
    show thesis
    proof (cases v2)
      case (Respond w2)
      then show thesis
        using t n1 l by (intro answered [of w2 "s\<lparr>pw_tv := tv, pw_lc := lc\<rparr>"]) (simp add: ch)
    next
      case n2: (Next r2 w2)
      obtain v3 ti where i: "ti_handle lib (pw_tii s) r2 w2 (pw_ti s) = (v3, ti)" by fastforce
      show thesis
      proof (cases v3)
        case (Respond w3)
        then show thesis
          using t n1 l n2 i by (intro answered [of w3 "s\<lparr>pw_tv := tv, pw_lc := lc, pw_ti := ti\<rparr>"]) (simp add: ch)
      next
        case n3: (Next r3 w3)
        show thesis
          by (rule passed [where ps = "snd (ps_handle r3 w3 (pw_ps s))" and oa = "snd (oa_handle r3 w3 (pw_oa s))"])
            (use assms t n1 l n2 i n3 in \<open>simp_all add: ch\<close>)
      qed
    qed
  qed
qed



end
