(* ===== verification/PluginChainExamples.thy ===== *)
theory PluginChainExamples
  imports PluginChain TokenExamples TenantExamples
begin

text \<open>A request that passes the chain of all plugins.\<close>

definition cex_cfg :: map_config where
  "cex_cfg = NewMapConfig (Some
     [(''enabled'', ABool True), (''principal'', AMap [(''claim'', AStr ''sub'')]),
      (''lookup'', AMap [(''url'', AStr ''http://d/{principal}''), (''cache'', AMap [(''max_entries'', AInt 2)]),
         (''response'', AMap [(''tenant_id_field'', AStr ''iss'')])]),
      (''inject'', AMap [(''tenant_header'', AStr ''X-Tenant-ID'')])])"

definition cex_ti :: tenant_injector where
  "cex_ti = tex_ti\<lparr>ti_tenantIDField := ''iss''\<rparr>"

lemma cex_parts:
  "ti_lookup_cfg ex_go (Raw cex_cfg) = Inr (''sub'', ''http://d/{principal}'', ''GET'')"
  "ti_timeout_cfg (submap (Raw cex_cfg) ''lookup'') = Inr 500"
  "ti_auth ex_go tex_env (submap (submap (Raw cex_cfg) ''lookup'') ''auth'') = Inr ''''"
  "ti_response_cfg ex_go (submap (submap (Raw cex_cfg) ''lookup'') ''response'') = Inr ''iss''"
  "ti_cache_cfg (submap (submap (Raw cex_cfg) ''lookup'') ''cache'') = Inr (300, 30, 2)"
  "mapStr (submap (Raw cex_cfg) ''inject'') ''tenant_header'' = ''X-Tenant-ID''"
  "mapStr (submap (Raw cex_cfg) ''inject'') ''principal_header'' = ''''"
  "mapStrMap (submap (Raw cex_cfg) ''lookup'') ''headers'' = []"
  "GetStringSlice cex_cfg ''allowlist'' = []" "GetBool cex_cfg ''enabled''"
  "ti_fail_cfg (submap (Raw cex_cfg) ''on_failure'') = \<lparr>tif_lookupNetworkError = 503, tif_lookupTimeout = 503, tif_principalNotFound = 403, tif_claimMissing = 401\<rparr>"
  by code_simp+

lemma cex_ti_init: "ti_Init ex_go tex_env cex_cfg tex_ti = Inr cex_ti"
  unfolding ti_Init_def Let_def cex_parts and_then_simps prod.case
  by (simp add: cex_parts cex_ti_def tex_ti_def ti_configured_def dur_seconds_exact dur_millis_exact)

lemma cex_lc_init: "lc_Init ex_go ex_lc_cfg ex_lc0 = Inr ex_lc"
  by (simp add: lc_Init_def ex_go_def ex_lc_cfg_def ex_lc0_def ex_lc_def GetString_def GetInt_def
      NewMapConfig_def int_or_def str_or_def dur_seconds_exact)

definition cex_world :: plugin_world where
  "cex_world = \<lparr>pw_tv = ex_v2, pw_lc = ex_lc, pw_ti = cex_ti, pw_ps = ps_zero, pw_oa = oa_zero, pw_tvi = ex_inp,
     pw_lci = ex_lc_inputs 5 (NetStatus 204), pw_tii = tex_inputs (DirStatus 200 (Some ''b''))\<rparr>"

abbreviation cex_request :: http_request where
  "cex_request \<equiv> ex_http ''Authorization'' ''Bearer YQ.Yg.c''"

lemma cex_lc_pass: "\<exists>lc. lc_handle ex_go (ex_lc_inputs 5 (NetStatus 204)) r w ex_lc = (Next r w, lc)"
  by (simp add: lc_handle_def lc_cacheGet_def lc_verify_cases ex_lc_def ex_lc_inputs_def ex_go_def lru_new_def Let_def)

lemma cex_ti_pass:
  assumes "JWTClaims (r_ctx r) = Some cs" and "get_str cs ''sub'' = ''u1''"
  shows "\<exists>r' ti. ti_handle ex_go (tex_inputs (DirStatus 200 (Some ''b''))) r w cex_ti = (Next r' w, ti)"
proof -
  let ?inp = "tex_inputs (DirStatus 200 (Some ''b''))"
  have "doHTTPLookup ex_go ?inp ''u1'' cex_ti = Inr ''idp''"
    by (simp add: doHTTPLookup_def tex_inputs_def ex_go_def dir_tenant_def cex_ti_def get_str_def Let_def)
  moreover have "ti_cacheGet n k cex_ti = (('''', False, False), cex_ti)" for n k
    by (simp add: ti_cacheGet_def cex_ti_def tex_ti_def lru_new_def)
  ultimately have "resolveTenant ex_go ?inp ''u1'' cex_ti =
      (Inr ''idp'', ti_cacheSet (tii_store ?inp) ''u1'' ''idp'' False (ti_cacheTTL cex_ti) cex_ti)"
    by (simp add: resolveTenant_def Let_def)
  moreover have "ti_allowlist (ti_cacheSet n k v b t cex_ti) = []" for n k v b t
    using ti_conf_fields(5) [OF ti_put_conf, of "n + t" k "(v, b)" cex_ti]
    by (simp add: ti_cacheSet_put) (simp add: cex_ti_def tex_ti_def)
  moreover have "ti_principalClaim cex_ti = ''sub''" by (simp add: cex_ti_def tex_ti_def)
  ultimately show ?thesis
    using assms by (simp add: ti_handle_def del_req_header_def Let_def)
qed

lemma cex_chain: "\<exists>r3 s3. \<forall>h. foldr p_Handler (default_chain ex_go ex_rs tex_env) h cex_request (Conn new_conn) cex_world = h r3 (Conn new_conn) s3"
proof -
  let ?w = "Conn new_conn"
  obtain tv where t: "tv_handle ex_go ex_rs ex_inp cex_request ?w ex_v2 =
      (Next (with_context cex_request (v2_context tv ex_claims Background)) ?w, tv)" using ex_v2_next by blast
  let ?r = "with_context cex_request (v2_context tv ex_claims Background)"
  obtain lc where l: "lc_handle ex_go (ex_lc_inputs 5 (NetStatus 204)) ?r ?w ex_lc = (Next ?r ?w, lc)" using cex_lc_pass by blast
  have "tv_propagateMode tv = tv_propagateMode ex_v2" "tv_propagateClaims tv = tv_propagateClaims ex_v2"
    using tv_run_fields(11,12) [of ex_go ex_rs "[(ex_inp, cex_request, ?w)]" ex_v2] t by (simp_all add: tv_run_def)
  then have "JWTClaims (r_ctx ?r) = Some (allowed_claims ex_claims [''sub''] [])"
    by (simp add: with_context_def v2_context_def propagateClaimsToCtx_def ctx_simps ex_v2_def)
  moreover have "get_str (allowed_claims ex_claims [''sub''] []) ''sub'' = ''u1''" by code_simp
  ultimately obtain r3 ti where i: "ti_handle ex_go (tex_inputs (DirStatus 200 (Some ''b''))) ?r ?w cex_ti = (Next r3 ?w, ti)"
    using cex_ti_pass by blast
  let ?s = "cex_world\<lparr>pw_tv := tv, pw_lc := lc, pw_ti := ti, pw_ps := snd (ps_handle r3 ?w ps_zero),
    pw_oa := snd (oa_handle r3 ?w oa_zero)\<rparr>"
  have "\<forall>h. foldr p_Handler (default_chain ex_go ex_rs tex_env) h cex_request ?w cex_world = h r3 ?w ?s"
    using t l i by (simp add: default_chain_def plugin_apply cex_world_def)
  then show ?thesis by blast
qed


end
